(* ===== verification/Prelude.thy ===== *)
theory Prelude
  imports Main "HOL-Library.Word" "HOL-Library.List_Lexorder" "HOL-Library.Char_ord"
begin

text \<open>
  Shared vocabulary of the development: the machine integers and the instants of the Rust
  sources, the result type of fallible code, the UTF-8 strings with the string operations the
  sources call (\<open>trim\<close>, \<open>to_ascii_lowercase\<close>, \<open>parse\<close>, \<open>lines\<close>, \<open>format!("{}")\<close> of integers),
  and a transition-system interface with its invariant rule.

  Conventions. An instant (\<open>DateTime<Utc>\<close>, \<open>Instant\<close>) is an \<open>int\<close> counting nanoseconds from a
  fixed origin and a duration is the difference of two instants. A \<open>String\<close> is the \<open>char list\<close> of
  its UTF-8 bytes, so \<open>s.len()\<close> is \<open>length s\<close>, and strings are ordered bytewise as Rust orders
  them. An \<open>i32\<close> or \<open>i64\<close> on which no arithmetic can leave the range is an \<open>int\<close>; unsigned
  values whose width matters are words.
\<close>

subsection \<open>Collections of rules the component theories extend\<close>

named_theorems store_simps \<open>lookup laws of the keyed stores\<close>
named_theorems table_simps \<open>defining equations of the table operations\<close>
named_theorems query_simps \<open>definitions of the SQL statements as table operations\<close>

subsection \<open>Machine integers and instants\<close>

type_synonym u8 = "8 word"
type_synonym u16 = "16 word"
type_synonym u32 = "32 word"
type_synonym u64 = "64 word"
type_synonym time = int

abbreviation seconds :: "int \<Rightarrow> int" where "seconds n \<equiv> n * 1000000000"
abbreviation minutes :: "int \<Rightarrow> int" where "minutes n \<equiv> seconds (n * 60)"
abbreviation hours :: "int \<Rightarrow> int" where "hours n \<equiv> minutes (n * 60)"
abbreviation days :: "int \<Rightarrow> int" where "days n \<equiv> hours (n * 24)"

text \<open>\<open>Duration::num_seconds\<close> truncates towards zero.\<close>

definition num_seconds :: "int \<Rightarrow> int" where
  "num_seconds d = (if d < 0 then - (- d div 1000000000) else d div 1000000000)"

lemma num_seconds_nonneg: "0 \<le> d \<Longrightarrow> 0 \<le> num_seconds d"
  by (simp add: num_seconds_def)

lemma num_seconds_le_iff: "0 \<le> d \<Longrightarrow> num_seconds d \<le> n \<longleftrightarrow> d < seconds (n + 1)"
  unfolding num_seconds_def by (simp add: zdiv_zmult2_eq) linarith

lemma num_seconds_neg: "d \<le> - 1000000000 \<Longrightarrow> num_seconds d \<le> -1"
  by (simp add: num_seconds_def)

text \<open>\<open>ChronoDuration::seconds\<close> is documented to panic beyond \<open>i64::MAX\<close> milliseconds (\<open>None\<close>).\<close>

definition chrono_seconds :: "int \<Rightarrow> int option" where
  "chrono_seconds n = (if \<bar>n\<bar> \<le> 9223372036854775 then Some (seconds n) else None)"

text \<open>\<open>DateTime::timestamp\<close>: the second an instant lies in. The sum of an instant and a duration panics
  outside the years -262143 to 262142 of the calendar type.\<close>

definition timestamp :: "time \<Rightarrow> int" where "timestamp t = t div 1000000000"

definition datetime_add :: "time \<Rightarrow> int \<Rightarrow> time option" where
  "datetime_add t d =
     (if seconds (-8334601315200) \<le> t + d \<and> t + d < seconds 8210266876800 then Some (t + d) else None)"

text \<open>\<open>x as u64\<close> on an \<open>i64\<close>, and back.\<close>

definition i64_as_u64 :: "int \<Rightarrow> u64" where "i64_as_u64 x = word_of_int x"
definition u64_as_i64 :: "u64 \<Rightarrow> int" where "u64_as_i64 w = sint w"

lemma uint_i64_as_u64: "0 \<le> x \<Longrightarrow> x < 2 ^ 64 \<Longrightarrow> uint (i64_as_u64 x) = x"
  by (simp add: i64_as_u64_def uint_word_of_int take_bit_eq_mod)

lemma unat_i64_as_u64_nonneg: "0 \<le> x \<Longrightarrow> x < 2 ^ 64 \<Longrightarrow> unat (i64_as_u64 x) = nat x"
  by (simp add: i64_as_u64_def unat_eq_nat_uint uint_word_of_int take_bit_eq_mod)

lemma uint_i64_as_u64_neg:
  assumes "x < 0" "- (2 ^ 63) \<le> x"
  shows "uint (i64_as_u64 x) = x + 2 ^ 64"
proof -
  have "x mod 2 ^ 64 = (x + 2 ^ 64) mod 2 ^ 64" by simp
  also have "\<dots> = x + 2 ^ 64" using assms by (intro mod_pos_pos_trivial) auto
  finally show ?thesis by (simp add: i64_as_u64_def uint_word_of_int take_bit_eq_mod)
qed

lemma u64_i64_roundtrip [simp]: "i64_as_u64 (u64_as_i64 w) = w"
  by (simp add: i64_as_u64_def u64_as_i64_def)

lemma i64_u64_roundtrip:
  "- (2 ^ 63) \<le> x \<Longrightarrow> x < 2 ^ 63 \<Longrightarrow> u64_as_i64 (i64_as_u64 x) = x"
  by (simp add: i64_as_u64_def u64_as_i64_def signed_take_bit_int_eq_self sint_sbintrunc')

text \<open>\<open>u32::saturating_sub\<close>.\<close>

definition saturating_sub :: "u32 \<Rightarrow> u32 \<Rightarrow> u32" where
  "saturating_sub a b = (if b \<le> a then a - b else 0)"

lemma unat_saturating_sub: "unat (saturating_sub a b) = unat a - unat b"
  by (auto simp: saturating_sub_def unat_sub word_le_nat_alt)

lemma unat_sum_list_words:
  assumes "sum_list (map unat ws) < 2 ^ 32"
  shows "unat (sum_list (ws :: u32 list)) = sum_list (map unat ws)"
  using assms
proof (induction ws)
  case (Cons w ws)
  then have ih: "unat (sum_list ws) = sum_list (map unat ws)" by simp
  moreover have "unat w + unat (sum_list ws) < 2 ^ 32" using Cons.prems ih by simp
  ultimately show ?case by (simp add: unat_add_lem [THEN iffD1])
qed simp

end
