(* ===== verification/Rust_Text.thy ===== *)
theory Rust_Text
  imports Prelude
begin

text \<open>
  The string operations of the Rust standard library that the sources use, on the UTF-8 bytes
  of a string: trimming of Unicode white space, ASCII case, decimal parsing with range checks,
  decimal printing, splitting into lines. The lemmas give the print/parse round trips.
\<close>

subsection \<open>Characters\<close>

definition code :: "char \<Rightarrow> nat" where "code c = of_char c"

definition is_ascii_digit :: "char \<Rightarrow> bool" where
  "is_ascii_digit c \<longleftrightarrow> 48 \<le> code c \<and> code c \<le> 57"

definition ascii_lower :: "char \<Rightarrow> char" where
  "ascii_lower c = (if 65 \<le> code c \<and> code c \<le> 90 then char_of (code c + 32) else c)"

definition to_ascii_lowercase :: "string \<Rightarrow> string" where
  "to_ascii_lowercase s = map ascii_lower s"

definition eq_ignore_ascii_case :: "string \<Rightarrow> string \<Rightarrow> bool" where
  "eq_ignore_ascii_case a b \<longleftrightarrow> to_ascii_lowercase a = to_ascii_lowercase b"

text \<open>\<open>s.chars().count()\<close>: every byte but the UTF-8 continuation bytes starts a character.\<close>

definition is_continuation :: "char \<Rightarrow> bool" where
  "is_continuation c \<longleftrightarrow> 128 \<le> code c \<and> code c < 192"

definition chars_count :: "string \<Rightarrow> nat" where
  "chars_count s = length (filter (\<lambda>c. \<not> is_continuation c) s)"

lemma chars_count_le: "chars_count s \<le> length s"
  by (simp add: chars_count_def)

text \<open>The UTF-8 encodings of the characters with the \<open>White_Space\<close> property.\<close>

definition utf8_white_space :: "string list" where
  "utf8_white_space =
     [[CHR 0x09], [CHR 0x0A], [CHR 0x0B], [CHR 0x0C], [CHR 0x0D], [CHR 0x20],
      [CHR 0xC2, CHR 0x85], [CHR 0xC2, CHR 0xA0], [CHR 0xE1, CHR 0x9A, CHR 0x80],
      [CHR 0xE2, CHR 0x80, CHR 0x80], [CHR 0xE2, CHR 0x80, CHR 0x81],
      [CHR 0xE2, CHR 0x80, CHR 0x82], [CHR 0xE2, CHR 0x80, CHR 0x83],
      [CHR 0xE2, CHR 0x80, CHR 0x84], [CHR 0xE2, CHR 0x80, CHR 0x85],
      [CHR 0xE2, CHR 0x80, CHR 0x86], [CHR 0xE2, CHR 0x80, CHR 0x87],
      [CHR 0xE2, CHR 0x80, CHR 0x88], [CHR 0xE2, CHR 0x80, CHR 0x89],
      [CHR 0xE2, CHR 0x80, CHR 0x8A], [CHR 0xE2, CHR 0x80, CHR 0xA8],
      [CHR 0xE2, CHR 0x80, CHR 0xA9], [CHR 0xE2, CHR 0x80, CHR 0xAF],
      [CHR 0xE2, CHR 0x81, CHR 0x9F], [CHR 0xE3, CHR 0x80, CHR 0x80]]"

subsection \<open>Trimming\<close>

fun starts_with :: "string \<Rightarrow> string \<Rightarrow> bool" where
  "starts_with s [] = True"
| "starts_with [] (p # ps) = False"
| "starts_with (c # s) (p # ps) = (c = p \<and> starts_with s ps)"

lemma starts_with_iff: "starts_with s p \<longleftrightarrow> (\<exists>t. s = p @ t)"
  by (induction s p rule: starts_with.induct) auto

text \<open>The length of the first pattern of the list that \<open>s\<close> starts with, 0 if there is none.\<close>

fun match_any :: "string list \<Rightarrow> string \<Rightarrow> nat" where
  "match_any [] s = 0"
| "match_any (p # ps) s = (if starts_with s p then length p else match_any ps s)"

lemma match_any_le: "match_any ps s \<le> length s"
  by (induction ps) (auto simp: starts_with_iff)

function strip_front :: "string list \<Rightarrow> string \<Rightarrow> string" where
  "strip_front ps s =
     (if match_any ps s = 0 then s else strip_front ps (drop (match_any ps s) s))"
  by pat_completeness auto
termination
proof (relation "measure (\<lambda>(ps, s). length s)", simp)
  fix ps s assume "match_any ps s \<noteq> 0"
  then show "((ps, drop (match_any ps s) s), ps, s) \<in> measure (\<lambda>(ps, s). length s)"
    using match_any_le [of ps s] by simp
qed

declare strip_front.simps [simp del]

definition trim_start :: "string \<Rightarrow> string" where
  "trim_start s = strip_front utf8_white_space s"

definition trim_end :: "string \<Rightarrow> string" where
  "trim_end s = rev (strip_front (map rev utf8_white_space) (rev s))"

definition trim :: "string \<Rightarrow> string" where
  "trim s = trim_end (trim_start s)"

lemma strip_front_suffix: "\<exists>t. s = t @ strip_front ps s"
proof (induction ps s rule: strip_front.induct)
  case (1 ps s)
  show ?case
  proof (cases "match_any ps s = 0")
    case True
    then show ?thesis by (simp add: strip_front.simps [of ps s])
  next
    case False
    with "1" obtain t where "drop (match_any ps s) s = t @ strip_front ps (drop (match_any ps s) s)"
      by blast
    with False show ?thesis
      by (metis append.assoc append_take_drop_id strip_front.simps)
  qed
qed

lemma strip_front_fixed: "match_any ps (strip_front ps s) = 0"
proof (induction ps s rule: strip_front.induct)
  case (1 ps s)
  then show ?case by (cases "match_any ps s = 0") (simp_all add: strip_front.simps [of ps s])
qed

lemma strip_front_id: "match_any ps s = 0 \<Longrightarrow> strip_front ps s = s"
  by (simp add: strip_front.simps)

lemma length_trim: "length (trim s) \<le> length s"
proof -
  have "length (strip_front ps t) \<le> length t" for ps t
    using strip_front_suffix [of t ps] by (metis le_add2 length_append)
  then show ?thesis unfolding trim_def trim_start_def trim_end_def by (metis length_rev order_trans)
qed

text \<open>Strings of visible ASCII characters are left alone.\<close>

definition visible_ascii :: "char \<Rightarrow> bool" where
  "visible_ascii c \<longleftrightarrow> 33 \<le> code c \<and> code c \<le> 126"

lemma match_any_visible:
  assumes "visible_ascii c"
    and "\<And>p. p \<in> set ps \<Longrightarrow> p \<noteq> [] \<and> \<not> visible_ascii (hd p)"
  shows "match_any ps (c # s) = 0"
  using assms(2)
proof (induction ps)
  case (Cons p ps)
  then have "p \<noteq> []" "hd p \<noteq> c" using assms(1) by auto
  then have "\<not> starts_with (c # s) p" by (cases p) auto
  then show ?case using Cons by simp
qed simp

lemma white_space_hd: "p \<in> set utf8_white_space \<Longrightarrow> p \<noteq> [] \<and> \<not> visible_ascii (hd p)"
  unfolding utf8_white_space_def by (auto simp: visible_ascii_def code_def)

lemma white_space_last:
  "p \<in> set (map rev utf8_white_space) \<Longrightarrow> p \<noteq> [] \<and> \<not> visible_ascii (hd p)"
  unfolding utf8_white_space_def by (auto simp: visible_ascii_def code_def)

lemma strip_front_Nil [simp]: "strip_front ps [] = []"
  using strip_front_suffix [of "[]" ps] by simp

lemma trim_visible:
  assumes "s = [] \<or> visible_ascii (hd s) \<and> visible_ascii (last s)"
  shows "trim s = s"
proof (cases "s = []")
  case False
  then have hl: "visible_ascii (hd s)" "visible_ascii (last s)" using assms by auto
  obtain c t where s: "s = c # t" using False by (cases s) auto
  have "trim_start s = s"
    using hl(1) s by (simp add: trim_start_def strip_front_id match_any_visible white_space_hd)
  moreover obtain d u where r: "rev s = d # u" using False by (cases "rev s") auto
  moreover have "visible_ascii d" using hl(2) r by (metis hd_rev list.sel(1))
  ultimately show ?thesis
    unfolding trim_def trim_end_def
    by (metis match_any_visible rev_rev_ident strip_front_id white_space_last)
qed (simp add: trim_def trim_start_def trim_end_def)

subsection \<open>Decimal numbers\<close>

definition digit_char :: "nat \<Rightarrow> char" where "digit_char d = char_of (48 + d)"

fun show_nat :: "nat \<Rightarrow> string" where
  "show_nat n = (if n < 10 then [digit_char n] else show_nat (n div 10) @ [digit_char (n mod 10)])"

declare show_nat.simps [simp del]

definition show_int :: "int \<Rightarrow> string" where
  "show_int i = (if i < 0 then CHR ''-'' # show_nat (nat (- i)) else show_nat (nat i))"

definition digits_value :: "string \<Rightarrow> nat" where
  "digits_value s = foldl (\<lambda>n c. 10 * n + (code c - 48)) 0 s"

text \<open>
  \<open>str::parse\<close> for an unsigned type with largest value \<open>hi\<close>: an optional \<open>+\<close>, then at least one
  digit and nothing else, and the value must fit.
\<close>

definition parse_digits :: "nat \<Rightarrow> string \<Rightarrow> nat option" where
  "parse_digits hi s =
     (if s = [] \<or> \<not> list_all is_ascii_digit s then None
      else if digits_value s \<le> hi then Some (digits_value s) else None)"

definition signed_with :: "char \<Rightarrow> string \<Rightarrow> bool" where
  "signed_with c s \<longleftrightarrow> s \<noteq> [] \<and> hd s = c"

definition parse_unsigned :: "nat \<Rightarrow> string \<Rightarrow> nat option" where
  "parse_unsigned hi s = parse_digits hi (if signed_with (CHR ''+'') s then tl s else s)"

definition parse_signed :: "nat \<Rightarrow> nat \<Rightarrow> string \<Rightarrow> int option" where
  "parse_signed lo hi s =
     (if signed_with (CHR ''-'') s then map_option (\<lambda>n. - int n) (parse_digits lo (tl s))
      else map_option int (parse_unsigned hi s))"

abbreviation parse_u32 :: "string \<Rightarrow> nat option" where "parse_u32 \<equiv> parse_unsigned (2 ^ 32 - 1)"
abbreviation parse_u64 :: "string \<Rightarrow> nat option" where "parse_u64 \<equiv> parse_unsigned (2 ^ 64 - 1)"
abbreviation parse_i32 :: "string \<Rightarrow> int option" where
  "parse_i32 \<equiv> parse_signed (2 ^ 31) (2 ^ 31 - 1)"
abbreviation parse_i64 :: "string \<Rightarrow> int option" where
  "parse_i64 \<equiv> parse_signed (2 ^ 63) (2 ^ 63 - 1)"

lemma code_digit_char [simp]: "d < 10 \<Longrightarrow> code (digit_char d) = 48 + d"
  by (simp add: code_def digit_char_def)

lemma digit_char_is_digit [simp]: "d < 10 \<Longrightarrow> is_ascii_digit (digit_char d)"
  by (simp add: is_ascii_digit_def)

lemma show_nat_digits: "list_all is_ascii_digit (show_nat n) \<and> show_nat n \<noteq> []"
proof (induction n rule: show_nat.induct)
  case (1 n)
  then show ?case by (cases "n < 10") (simp_all add: show_nat.simps [of n])
qed

lemma digits_value_show [simp]: "digits_value (show_nat n) = n"
proof (induction n rule: show_nat.induct)
  case (1 n)
  show ?case
  proof (cases "n < 10")
    case True
    then show ?thesis by (simp add: show_nat.simps [of n] digits_value_def)
  next
    case False
    with "1" have "digits_value (show_nat (n div 10)) = n div 10" by simp
    with False show ?thesis by (simp add: show_nat.simps [of n] digits_value_def)
  qed
qed

lemma parse_digits_show: "n \<le> hi \<Longrightarrow> parse_digits hi (show_nat n) = Some n"
  using show_nat_digits [of n] by (simp add: parse_digits_def)

lemma show_nat_Cons: obtains c t where "show_nat n = c # t" "is_ascii_digit c"
  using show_nat_digits [of n] by (cases "show_nat n") auto

lemma digit_not_sign: "is_ascii_digit c \<Longrightarrow> c \<noteq> CHR ''+'' \<and> c \<noteq> CHR ''-''"
  by (auto simp: is_ascii_digit_def code_def)

lemma show_nat_unsigned: "\<not> signed_with (CHR ''+'') (show_nat n) \<and> \<not> signed_with (CHR ''-'') (show_nat n)"
  by (rule show_nat_Cons [of n]) (auto simp: signed_with_def dest: digit_not_sign)

lemma parse_unsigned_show [simp]: "n \<le> hi \<Longrightarrow> parse_unsigned hi (show_nat n) = Some n"
  by (simp add: parse_unsigned_def show_nat_unsigned parse_digits_show)

lemma parse_signed_show [simp]:
  "- int lo \<le> i \<Longrightarrow> i \<le> int hi \<Longrightarrow> parse_signed lo hi (show_int i) = Some i"
proof (cases "i < 0")
  case True
  assume "- int lo \<le> i"
  then have "parse_digits lo (show_nat (nat (- i))) = Some (nat (- i))"
    by (intro parse_digits_show) linarith
  with True show ?thesis
    by (simp add: parse_signed_def show_int_def signed_with_def)
next
  case False
  assume "i \<le> int hi"
  then have "parse_unsigned hi (show_nat (nat i)) = Some (nat i)"
    by (intro parse_unsigned_show) linarith
  with False show ?thesis
    by (simp add: parse_signed_def show_int_def show_nat_unsigned)
qed

lemma parse_unsigned_bound: "parse_unsigned hi s = Some n \<Longrightarrow> n \<le> hi"
  by (auto simp: parse_unsigned_def parse_digits_def split: if_splits)

lemma digit_visible: "is_ascii_digit c \<Longrightarrow> visible_ascii c"
  by (simp add: is_ascii_digit_def visible_ascii_def)

lemma show_nat_visible: "list_all visible_ascii (show_nat n)"
  using show_nat_digits [of n] by (auto simp: list_all_iff digit_visible)

lemma show_int_visible: "list_all visible_ascii (show_int i)"
  by (simp add: show_int_def show_nat_visible) (simp add: visible_ascii_def code_def)

lemma trim_visible_all: "list_all visible_ascii s \<Longrightarrow> trim s = s"
  by (rule trim_visible) (auto simp: list_all_iff)

lemma trim_show [simp]: "trim (show_nat n) = show_nat n" "trim (show_int i) = show_int i"
  by (simp_all add: trim_visible_all show_nat_visible show_int_visible)

subsection \<open>Lines\<close>

text \<open>
  \<open>str::lines\<close>: the parts between newlines, a final empty part is dropped, and one trailing
  carriage return of each line is removed.
\<close>

fun split_nl :: "string \<Rightarrow> string list" where
  "split_nl [] = [[]]"
| "split_nl (c # s) =
     (if c = CHR 0x0A then [] # split_nl s
      else (c # hd (split_nl s)) # tl (split_nl s))"

definition chomp_cr :: "string \<Rightarrow> string" where
  "chomp_cr l = (if l \<noteq> [] \<and> last l = CHR 0x0D then butlast l else l)"

definition lines :: "string \<Rightarrow> string list" where
  "lines s =
     (let ls = split_nl s
      in map (\<lambda>l. chomp_cr l) (if last ls = [] then butlast ls else ls))"

fun join_nl :: "string list \<Rightarrow> string" where
  "join_nl [] = []"
| "join_nl [l] = l"
| "join_nl (l # ls) = l @ CHR 0x0A # join_nl ls"

lemma split_nl_nonempty [simp]: "split_nl s \<noteq> []"
  by (cases s) auto

lemma split_nl_append:
  "CHR 0x0A \<notin> set l \<Longrightarrow> split_nl (l @ CHR 0x0A # s) = l # split_nl s"
  by (induction l) auto

lemma split_nl_no_newline: "CHR 0x0A \<notin> set l \<Longrightarrow> split_nl l = [l]"
  by (induction l) auto

lemma join_nl_Cons: "ls \<noteq> [] \<Longrightarrow> join_nl (l # ls) = l @ CHR 0x0A # join_nl ls"
  by (cases ls) auto

lemma split_join_nl:
  "ls \<noteq> [] \<Longrightarrow> (\<And>l. l \<in> set ls \<Longrightarrow> CHR 0x0A \<notin> set l) \<Longrightarrow> split_nl (join_nl ls) = ls"
  by (induction ls rule: join_nl.induct) (auto simp: split_nl_append split_nl_no_newline)

lemma join_split_nl: "join_nl (split_nl s) = s"
proof (induction s)
  case (Cons c s)
  show ?case
  proof (cases "c = CHR 0x0A")
    case True
    then show ?thesis using Cons by (simp add: join_nl_Cons)
  next
    case False
    obtain l ls where "split_nl s = l # ls" by (cases "split_nl s") auto
    with False Cons show ?thesis by (cases ls) auto
  qed
qed simp

lemma visible_no_newline: "list_all visible_ascii l \<Longrightarrow> CHR 0x0A \<notin> set l \<and> CHR 0x0D \<notin> set l"
  by (auto simp: list_all_iff visible_ascii_def code_def)

lemma chomp_cr_id: "CHR 0x0D \<notin> set l \<Longrightarrow> chomp_cr l = l"
  by (metis chomp_cr_def last_in_set)

text \<open>For evaluating the operations on literals.\<close>

lemmas text_eval = visible_ascii_def to_ascii_lowercase_def ascii_lower_def is_ascii_digit_def code_def
  parse_unsigned_def parse_digits_def digits_value_def signed_with_def

end
