(* ===== verification/Store.thy ===== *)
theory Store
  imports Prelude
begin

text \<open>
  The two kinds of mutable store of the program, and the interfaces its components use them
  through.

  In-memory maps (\<open>HashMap\<close>, \<open>BTreeMap\<close>) are association lists sorted by key (\<open>kmap\<close>): the
  iteration order of a \<open>BTreeMap\<close> is the key order; the one of a \<open>HashMap\<close> is unspecified, and no
  statement of the development depends on it. The locale \<open>keyed_store\<close> is the contract of these
  maps. PostgreSQL tables are lists of rows, and the statements of the sources are selections,
  conditional updates and deletions on them; \<open>guarded_update\<close> is the contract of a conditional
  \<open>UPDATE\<close> whose effect falsifies its own condition (a claim, a cancellation, a single-use token).
  \<open>safe_system\<close> is the contract of a transition system with an inductive invariant.
\<close>

subsection \<open>Keyed maps\<close>

type_synonym ('k, 'v) kmap = "('k \<times> 'v) list"

fun kput :: "'k::linorder \<Rightarrow> 'v \<Rightarrow> ('k, 'v) kmap \<Rightarrow> ('k, 'v) kmap" where
  "kput k v [] = [(k, v)]"
| "kput k v (e # m) =
     (if fst e < k then e # kput k v m
      else if fst e = k then (k, v) # m
      else (k, v) # e # m)"

definition kget :: "('k, 'v) kmap \<Rightarrow> 'k \<Rightarrow> 'v option" where "kget m k = map_of m k"

definition kdel :: "'k \<Rightarrow> ('k, 'v) kmap \<Rightarrow> ('k, 'v) kmap" where
  "kdel k m = filter (\<lambda>e. fst e \<noteq> k) m"

text \<open>\<open>if let Some(v) = m.get_mut(k)\<close>: only an existing entry is changed.\<close>

definition kmodify :: "'k \<Rightarrow> ('v \<Rightarrow> 'v) \<Rightarrow> ('k, 'v) kmap \<Rightarrow> ('k, 'v) kmap" where
  "kmodify k f m = map (\<lambda>e. if fst e = k then (fst e, f (snd e)) else e) m"

definition kretain :: "('k \<Rightarrow> 'v \<Rightarrow> bool) \<Rightarrow> ('k, 'v) kmap \<Rightarrow> ('k, 'v) kmap" where
  "kretain P m = filter (\<lambda>e. P (fst e) (snd e)) m"

text \<open>\<open>for v in m.values_mut()\<close>.\<close>

definition kmap_values :: "('v \<Rightarrow> 'w) \<Rightarrow> ('k, 'v) kmap \<Rightarrow> ('k, 'w) kmap" where
  "kmap_values f m = map (\<lambda>e. (fst e, f (snd e))) m"

definition kvalues :: "('k, 'v) kmap \<Rightarrow> 'v list" where "kvalues m = map snd m"

definition kwf :: "('k::linorder, 'v) kmap \<Rightarrow> bool" where
  "kwf m \<longleftrightarrow> sorted_wrt (<) (map fst m)"

lemma kwf_distinct: "kwf m \<Longrightarrow> distinct (map fst m)"
  unfolding kwf_def using strict_sorted_iff by blast

lemma kwf_filter: "kwf m \<Longrightarrow> kwf (filter P m)"
  unfolding kwf_def by (simp add: sorted_wrt_map sorted_wrt_filter)

lemma keys_kput: "fst ` set (kput k v m) = insert k (fst ` set m)"
  by (induction m) auto

lemma kwf_Cons: "kwf (e # m) \<longleftrightarrow> (\<forall>k \<in> fst ` set m. fst e < k) \<and> kwf m"
  by (simp add: kwf_def)

lemma kwf_kput: "kwf m \<Longrightarrow> kwf (kput k v m)"
proof (induction m)
  case (Cons e m)
  then show ?case by (auto simp: kwf_Cons keys_kput)
qed (simp add: kwf_def)

lemma kget_kput: "kget (kput k v m) = (kget m)(k \<mapsto> v)"
  unfolding kget_def by (induction m) (auto simp: fun_eq_iff)

lemma kget_kdel: "kget (kdel k m) = (kget m)(k := None)"
  unfolding kget_def kdel_def by (induction m) (auto simp: fun_eq_iff)

lemma kget_kmodify: "kget (kmodify k f m) = (\<lambda>x. if x = k then map_option f (kget m x) else kget m x)"
  unfolding kget_def kmodify_def by (induction m) (auto simp: fun_eq_iff)

lemma kget_kmap_values: "kget (kmap_values f m) k = map_option f (kget m k)"
  unfolding kget_def kmap_values_def by (induction m) auto

lemma map_fst_kmap_values [simp]: "map fst (kmap_values f m) = map fst m"
  unfolding kmap_values_def by (induction m) auto

lemma kwf_kmap_values [simp]: "kwf (kmap_values f m) = kwf m"
  by (simp add: kwf_def)

lemma map_fst_kmodify [simp]: "map fst (kmodify k f m) = map fst m"
  unfolding kmodify_def by (induction m) auto

lemma kget_mem: "kwf m \<Longrightarrow> kget m k = Some v \<longleftrightarrow> (k, v) \<in> set m"
  unfolding kget_def by (simp add: kwf_distinct map_of_eq_Some_iff)

lemma kvalues_mem: "kwf m \<Longrightarrow> v \<in> set (kvalues m) \<longleftrightarrow> (\<exists>k. kget m k = Some v)"
  by (force simp: kget_mem kvalues_def)

lemma kget_kretain:
  assumes "kwf m"
  shows "kget (kretain P m) k = (case kget m k of Some v \<Rightarrow> if P k v then Some v else None | None \<Rightarrow> None)"
proof -
  have iff: "kget (kretain P m) k = Some v \<longleftrightarrow> kget m k = Some v \<and> P k v" for v
    using assms by (auto simp: kget_mem kwf_filter kretain_def)
  show ?thesis
  proof (cases "kget (kretain P m) k")
    case None
    then have "\<not> (kget m k = Some v \<and> P k v)" for v using iff [of v] by simp
    with None show ?thesis by (simp split: option.split)
  next
    case (Some v)
    with iff [of v] show ?thesis by simp
  qed
qed

text \<open>
  The contract of a map. Every component that keeps one is a client: it changes entries under a
  key, leaves the others alone, and keeps a property of all entries.
\<close>

locale keyed_store =
  fixes emp :: "'m"
    and get :: "'m \<Rightarrow> 'k \<Rightarrow> 'v option"
    and put :: "'k \<Rightarrow> 'v \<Rightarrow> 'm \<Rightarrow> 'm"
    and del :: "'k \<Rightarrow> 'm \<Rightarrow> 'm"
    and modify :: "'k \<Rightarrow> ('v \<Rightarrow> 'v) \<Rightarrow> 'm \<Rightarrow> 'm"
    and entries :: "'m \<Rightarrow> ('k \<times> 'v) list"
    and wf :: "'m \<Rightarrow> bool"
  assumes get_emp: "get emp k = None"
    and get_put: "get (put k v m) = (get m)(k \<mapsto> v)"
    and get_del: "get (del k m) = (get m)(k := None)"
    and get_modify: "get (modify k f m) = (\<lambda>x. if x = k then map_option f (get m x) else get m x)"
    and get_entries: "wf m \<Longrightarrow> get m k = Some v \<longleftrightarrow> (k, v) \<in> set (entries m)"
    and distinct_entries: "wf m \<Longrightarrow> distinct (map fst (entries m))"
    and wf_emp: "wf emp"
    and wf_put: "wf m \<Longrightarrow> wf (put k v m)"
    and wf_del: "wf m \<Longrightarrow> wf (del k m)"
    and wf_modify: "wf m \<Longrightarrow> wf (modify k f m)"
begin

lemma get_put_same: "get (put k v m) k = Some v"
  by (simp add: get_put)

lemma get_put_other: "k' \<noteq> k \<Longrightarrow> get (put k v m) k' = get m k'"
  by (simp add: get_put)

lemma get_del_same: "get (del k m) k = None"
  by (simp add: get_del)

lemma all_entries_put:
  "(\<forall>x w. get m x = Some w \<longrightarrow> P x w) \<Longrightarrow> P k v \<Longrightarrow> \<forall>x w. get (put k v m) x = Some w \<longrightarrow> P x w"
  by (simp add: get_put)

lemma all_entries_del:
  "(\<forall>x w. get m x = Some w \<longrightarrow> P x w) \<Longrightarrow> \<forall>x w. get (del k m) x = Some w \<longrightarrow> P x w"
  by (simp add: get_del)

lemma all_entries_modify:
  "(\<forall>x w. get m x = Some w \<longrightarrow> P x w) \<Longrightarrow> (\<And>w. get m k = Some w \<Longrightarrow> P k w \<Longrightarrow> P k (f w)) \<Longrightarrow>
   \<forall>x w. get (modify k f m) x = Some w \<longrightarrow> P x w"
  by (auto simp: get_modify)

text \<open>The total weight of the entries, under any weight function of key and value.\<close>

lemma weight_set:
  assumes "wf m"
  shows "sum_list (map w (entries m)) = (\<Sum>e \<in> set (entries m). (w e :: 'n::comm_monoid_add))"
proof -
  have "distinct (entries m)" using distinct_entries [OF assms] by (simp add: distinct_map)
  then show ?thesis by (simp add: sum_list_distinct_conv_sum_set)
qed

lemma entries_put:
  "wf m \<Longrightarrow> set (entries (put k v m)) = insert (k, v) {e \<in> set (entries m). fst e \<noteq> k}"
  by (force simp: get_entries [symmetric] wf_put get_put split: if_splits)

lemma entries_del: "wf m \<Longrightarrow> set (entries (del k m)) = {e \<in> set (entries m). fst e \<noteq> k}"
  by (force simp: get_entries [symmetric] wf_del get_del split: if_splits)

lemma weight_put_fresh:
  assumes "wf m" "get m k = None"
  shows "sum_list (map w (entries (put k v m))) =
    (w (k, v) :: 'n::comm_monoid_add) + sum_list (map w (entries m))"
proof -
  have "{e \<in> set (entries m). fst e \<noteq> k} = set (entries m)"
    using assms by (force simp: get_entries [symmetric])
  moreover have "(k, v) \<notin> set (entries m)" using assms by (force simp: get_entries [symmetric])
  ultimately show ?thesis using assms(1) by (simp add: weight_set wf_put entries_put)
qed

lemma weight_del:
  assumes "wf m" "get m k = Some v"
  shows "sum_list (map w (entries m)) =
    (w (k, v) :: 'n::comm_monoid_add) + sum_list (map w (entries (del k m)))"
proof -
  have mem: "(k, v) \<in> set (entries m)" using assms by (simp add: get_entries [symmetric])
  have "{e \<in> set (entries m). fst e \<noteq> k} = set (entries m) - {(k, v)}"
    using assms mem by (force simp: get_entries [symmetric])
  then show ?thesis
    using assms mem by (simp add: weight_set wf_del entries_del sum.remove)
qed

end

interpretation km: keyed_store "[] :: ('k::linorder, 'v) kmap" kget kput kdel kmodify "\<lambda>m. m" kwf
proof unfold_locales
  show "kget ([] :: ('k, 'v) kmap) k = None" for k by (simp add: kget_def)
  show "kwf ([] :: ('k, 'v) kmap)" by (simp add: kwf_def)
  show "kwf m \<Longrightarrow> kwf (kmodify k f m)" for m :: "('k, 'v) kmap" and k f by (simp add: kwf_def)
  show "kwf m \<Longrightarrow> kwf (kdel k m)" for m :: "('k, 'v) kmap" and k
    by (simp add: kdel_def kwf_filter)
qed (simp_all add: kget_kput kget_kdel kget_kmodify kget_mem kwf_distinct kwf_kput)

lemmas [store_simps] = kget_kput kget_kdel kget_kmodify km.get_emp
lemmas kwf_intros [intro] = km.wf_put km.wf_del km.wf_modify
lemmas kwf_Nil [simp] = km.wf_emp

lemma length_kput: "kwf m \<Longrightarrow> length (kput k v m) = (if kget m k = None then Suc (length m) else length m)"
proof (induction m)
  case (Cons e m)
  then have "k < fst e \<Longrightarrow> kget m k = None"
    using kget_mem [of m k] by (auto simp: kwf_Cons) (metis fst_conv image_eqI less_asym not_Some_eq)
  then show ?case using Cons by (auto simp: kwf_Cons kget_def)
qed (simp add: kget_def)

subsection \<open>Tables\<close>

text \<open>
  \<open>SELECT \<dots> WHERE\<close>, \<open>UPDATE \<dots> WHERE\<close> (with the number of rows affected), \<open>UPDATE \<dots> RETURNING\<close>
  and \<open>DELETE\<close> on a list of rows. Every statement runs atomically.
\<close>

definition select_where :: "('r \<Rightarrow> bool) \<Rightarrow> 'r list \<Rightarrow> 'r list" where
  "select_where P t = filter P t"

definition update_where :: "('r \<Rightarrow> bool) \<Rightarrow> ('r \<Rightarrow> 'r) \<Rightarrow> 'r list \<Rightarrow> 'r list" where
  "update_where P f t = map (\<lambda>r. if P r then f r else r) t"

definition rows_affected :: "('r \<Rightarrow> bool) \<Rightarrow> 'r list \<Rightarrow> nat" where
  "rows_affected P t = length (filter P t)"

definition delete_where :: "('r \<Rightarrow> bool) \<Rightarrow> 'r list \<Rightarrow> 'r list" where
  "delete_where P t = filter (\<lambda>r. \<not> P r) t"

text \<open>\<open>fetch_optional\<close>: the first row, if any.\<close>

definition fetch_optional :: "'r list \<Rightarrow> 'r option" where
  "fetch_optional t = (case t of [] \<Rightarrow> None | r # _ \<Rightarrow> Some r)"

lemma fetch_select_None: "fetch_optional (select_where P t) = None \<longleftrightarrow> (\<forall>r \<in> set t. \<not> P r)"
  unfolding fetch_optional_def select_where_def by (induction t) auto

lemma fetch_select_Some: "fetch_optional (select_where P t) = Some r \<Longrightarrow> r \<in> set t \<and> P r"
  unfolding fetch_optional_def select_where_def by (induction t) (auto split: if_splits)

lemmas [table_simps] = select_where_def update_where_def rows_affected_def delete_where_def

lemma rows_affected_pos: "0 < rows_affected P t \<longleftrightarrow> (\<exists>r \<in> set t. P r)"
  unfolding rows_affected_def using length_greater_0_conv filter_empty_conv by metis

lemma rows_affected_0: "rows_affected P t = 0 \<longleftrightarrow> (\<forall>r \<in> set t. \<not> P r)"
  by (simp add: rows_affected_def filter_empty_conv)

lemma update_where_idle: "(\<And>r. r \<in> set t \<Longrightarrow> \<not> P r) \<Longrightarrow> update_where P f t = t"
  by (simp add: update_where_def map_idI)

lemma set_update_where: "r \<in> set (update_where P f t) \<longleftrightarrow> (\<exists>q \<in> set t. r = (if P q then f q else q))"
  by (auto simp: update_where_def)

lemma length_update_where [simp]: "length (update_where P f t) = length t"
  by (simp add: update_where_def)

lemma map_update_where:
  "(\<And>r. P r \<Longrightarrow> g (f r) = g r) \<Longrightarrow> map g (update_where P f t) = map g t"
  by (simp add: update_where_def)

text \<open>The row with a given value of a unique column.\<close>

definition find_by :: "('r \<Rightarrow> 'k) \<Rightarrow> 'k \<Rightarrow> 'r list \<Rightarrow> 'r option" where
  "find_by key k t = fetch_optional (select_where (\<lambda>r. key r = k) t)"

lemma find_by_Nil [simp]: "find_by key k [] = None"
  by (simp add: find_by_def fetch_optional_def select_where_def)

lemma find_by_Cons [simp]: "find_by key k (r # t) = (if key r = k then Some r else find_by key k t)"
  by (simp add: find_by_def fetch_optional_def select_where_def)

lemma find_by_Some: "find_by key k t = Some r \<Longrightarrow> r \<in> set t \<and> key r = k"
  by (induction t) (auto split: if_splits)

lemma find_by_None: "find_by key k t = None \<longleftrightarrow> k \<notin> key ` set t"
  by (induction t) auto

lemma find_by_unique:
  "distinct (map key t) \<Longrightarrow> r \<in> set t \<Longrightarrow> find_by key (key r) t = Some r"
  by (induction t) (auto simp: image_iff)

lemma find_by_update:
  assumes "\<And>r. key (f r) = key r"
  shows "find_by key k (update_where P f t) =
    map_option (\<lambda>r. if P r then f r else r) (find_by key k t)"
  by (induction t) (auto simp: update_where_def assms)

lemma find_by_append: "find_by key k (t @ u) = (case find_by key k t of None \<Rightarrow> find_by key k u | Some r \<Rightarrow> Some r)"
  by (induction t) auto

lemma find_by_delete:
  "find_by key k (delete_where (\<lambda>r. key r = j) t) = (if k = j then None else find_by key k t)"
  by (induction t) (auto simp: delete_where_def)

text \<open>\<open>DISTINCT ON\<close>: the first row of each group, in the order of the rows.\<close>

fun distinct_on :: "('r \<Rightarrow> 'k) \<Rightarrow> 'r list \<Rightarrow> 'r list" where
  "distinct_on key [] = []"
| "distinct_on key (r # t) = r # distinct_on key (filter (\<lambda>q. key q \<noteq> key r) t)"

lemma set_distinct_on: "set (distinct_on key t) \<subseteq> set t"
  by (induction key t rule: distinct_on.induct) auto

lemma distinct_on_keys: "key ` set (distinct_on key t) = key ` set t"
proof (induction key t rule: distinct_on.induct)
  case (2 key r t)
  have "insert (key r) (key ` {q \<in> set t. key q \<noteq> key r}) = insert (key r) (key ` set t)" by auto
  then show ?case using 2 by simp
qed simp

lemma distinct_distinct_on: "distinct (map key (distinct_on key t))"
proof (induction key t rule: distinct_on.induct)
  case (2 key r t)
  have "key r \<notin> key ` set (distinct_on key (filter (\<lambda>q. key q \<noteq> key r) t))"
    by (auto simp: distinct_on_keys)
  with 2 show ?case by simp
qed simp

lemma distinct_on_first:
  "r \<in> set (distinct_on key t) \<longleftrightarrow> find_by key (key r) t = Some r"
proof (induction key t rule: distinct_on.induct)
  case (2 key q t)
  have "find_by key k (filter (\<lambda>x. key x \<noteq> key q) t) = find_by key k t" if "k \<noteq> key q" for k
    using that by (induction t) auto
  then show ?case using 2 set_distinct_on [of key "filter (\<lambda>x. key x \<noteq> key q) t"] by auto
qed simp

text \<open>
  The contract of a conditional \<open>UPDATE\<close> that falsifies its own condition: whatever two callers
  interleave, a row is changed by one of them only.
\<close>

locale guarded_update =
  fixes key :: "'r \<Rightarrow> 'k"
    and guard :: "'r \<Rightarrow> bool"
    and effect :: "'r \<Rightarrow> 'r"
  assumes key_effect: "guard r \<Longrightarrow> key (effect r) = key r"
    and falsifies: "guard r \<Longrightarrow> \<not> guard (effect r)"
begin

lemma once: "rows_affected guard (update_where guard effect t) = 0"
  unfolding rows_affected_0 update_where_def using falsifies by (auto split: if_split)

lemma idempotent: "update_where guard effect (update_where guard effect t) = update_where guard effect t"
  by (rule update_where_idle) (use once [of t] in \<open>auto simp: rows_affected_0\<close>)

lemma keys_kept: "map key (update_where guard effect t) = map key t"
  by (rule map_update_where) (rule key_effect)

lemma frame: "r \<in> set t \<Longrightarrow> \<not> guard r \<Longrightarrow> r \<in> set (update_where guard effect t)"
  by (force simp: set_update_where)

lemma changed: "r \<in> set t \<Longrightarrow> guard r \<Longrightarrow> effect r \<in> set (update_where guard effect t)"
  by (force simp: set_update_where)

lemma single_winner:
  assumes "distinct (map key t)" and "\<And>r. guard r \<Longrightarrow> key r = k"
  shows "rows_affected guard t \<le> 1"
proof -
  have "distinct (map key (filter guard t))" using assms(1) by (simp add: distinct_map_filter)
  then have "length (filter guard t) = card (key ` set (filter guard t))"
    by (metis distinct_card length_map set_map)
  also have "\<dots> \<le> card {k}" using assms(2) by (intro card_mono) auto
  finally show ?thesis by (simp add: rows_affected_def)
qed

end

subsection \<open>Transition systems\<close>

inductive reach :: "('s \<Rightarrow> bool) \<Rightarrow> ('s \<Rightarrow> 's \<Rightarrow> bool) \<Rightarrow> 's \<Rightarrow> bool"
  for ini step where
  start: "ini s \<Longrightarrow> reach ini step s"
| move: "reach ini step s \<Longrightarrow> step s t \<Longrightarrow> reach ini step t"

locale safe_system =
  fixes ini :: "'s \<Rightarrow> bool" and step :: "'s \<Rightarrow> 's \<Rightarrow> bool" and inv :: "'s \<Rightarrow> bool"
  assumes inv_init: "ini s \<Longrightarrow> inv s"
    and inv_step: "inv s \<Longrightarrow> step s t \<Longrightarrow> inv t"
begin

lemma reach_start: "ini s \<Longrightarrow> reach ini step s"
  by (rule reach.start)

lemma reach_next: "reach ini step s \<Longrightarrow> step s t \<Longrightarrow> reach ini step t"
  by (rule reach.move)

lemma reach_inv: "reach ini step s \<Longrightarrow> inv s"
  by (induction rule: reach.induct) (auto intro: inv_init inv_step)

lemma run_inv: "step\<^sup>*\<^sup>* s t \<Longrightarrow> inv s \<Longrightarrow> inv t"
  by (induction rule: rtranclp_induct) (auto intro: inv_step)

end

end
