(* ===== verification/Job.thy ===== *)
theory Job
  imports Rust_Text Store
begin

text \<open>
  The job model of \<open>crates/common/src/job.rs\<close> with the error type of \<open>error.rs\<close>: the states of a
  job and their codings, the table of accepted transitions, the job record and \<open>transition_to\<close>.
  The lemmas give the codecs, the shape of the life cycle and the invariant of the timestamps. The
  clock and the generated identifier are arguments.
\<close>

subsection \<open>Errors\<close>

datatype app_error =
    NotFound string | BadRequest string | Conflict string | Internal string
  | Unauthorized string | Forbidden string | AuthError string | RateLimited | Timeout
  | Io string | Database string | AuthErr string | Validation string | Config string

text \<open>The texts of the \<open>thiserror\<close> display.\<close>

fun app_error_display :: "app_error \<Rightarrow> string" where
  "app_error_display (NotFound s) = ''not found: '' @ s"
| "app_error_display (BadRequest s) = ''bad request: '' @ s"
| "app_error_display (Conflict s) = ''conflict: '' @ s"
| "app_error_display (Internal s) = ''internal error: '' @ s"
| "app_error_display (Unauthorized s) = ''unauthorized: '' @ s"
| "app_error_display (Forbidden s) = ''forbidden: '' @ s"
| "app_error_display (AuthError s) = ''auth error: '' @ s"
| "app_error_display RateLimited = ''rate limited''"
| "app_error_display Timeout = ''timeout''"
| "app_error_display (Io s) = ''io: '' @ s"
| "app_error_display (Database s) = ''database: '' @ s"
| "app_error_display (AuthErr s) = ''auth: '' @ s"
| "app_error_display (Validation s) = ''validation: '' @ s"
| "app_error_display (Config s) = ''config: '' @ s"

subsection \<open>States\<close>

datatype job_status =
  Queued | Starting | Running | Stopping | Succeeded | Failed | Cancelled | Lost

fun status_to_u8 :: "job_status \<Rightarrow> u8" where
  "status_to_u8 Queued = 0"
| "status_to_u8 Starting = 1"
| "status_to_u8 Running = 2"
| "status_to_u8 Stopping = 3"
| "status_to_u8 Succeeded = 4"
| "status_to_u8 Failed = 5"
| "status_to_u8 Cancelled = 6"
| "status_to_u8 Lost = 7"

definition status_from_u8 :: "u8 \<Rightarrow> job_status option" where
  "status_from_u8 v =
     (if v = 0 then Some Queued else if v = 1 then Some Starting
      else if v = 2 then Some Running else if v = 3 then Some Stopping
      else if v = 4 then Some Succeeded else if v = 5 then Some Failed
      else if v = 6 then Some Cancelled else if v = 7 then Some Lost else None)"

fun is_terminal :: "job_status \<Rightarrow> bool" where
  "is_terminal Succeeded = True"
| "is_terminal Failed = True"
| "is_terminal Cancelled = True"
| "is_terminal Lost = True"
| "is_terminal _ = False"

fun is_running :: "job_status \<Rightarrow> bool" where
  "is_running Starting = True"
| "is_running Running = True"
| "is_running Stopping = True"
| "is_running _ = False"

definition valid_transitions :: "(job_status \<times> job_status) list" where
  "valid_transitions =
     [(Queued, Starting), (Queued, Cancelled), (Queued, Failed),
      (Starting, Running), (Starting, Failed), (Starting, Cancelled),
      (Running, Stopping), (Running, Succeeded), (Running, Failed), (Running, Cancelled),
      (Running, Lost),
      (Stopping, Succeeded), (Stopping, Failed), (Stopping, Cancelled), (Stopping, Lost),
      (Succeeded, Queued), (Failed, Queued), (Cancelled, Queued)]"

definition can_transition :: "job_status \<Rightarrow> job_status \<Rightarrow> bool" where
  "can_transition s t \<longleftrightarrow> (s, t) \<in> set valid_transitions"

definition status_from_str :: "string \<Rightarrow> job_status option" where
  "status_from_str s =
     (if s = ''queued'' then Some Queued else if s = ''starting'' then Some Starting
      else if s = ''running'' then Some Running else if s = ''stopping'' then Some Stopping
      else if s = ''succeeded'' then Some Succeeded else if s = ''failed'' then Some Failed
      else if s = ''cancelled'' then Some Cancelled else if s = ''lost'' then Some Lost else None)"

fun status_to_str :: "job_status \<Rightarrow> string" where
  "status_to_str Queued = ''queued''"
| "status_to_str Starting = ''starting''"
| "status_to_str Running = ''running''"
| "status_to_str Stopping = ''stopping''"
| "status_to_str Succeeded = ''succeeded''"
| "status_to_str Failed = ''failed''"
| "status_to_str Cancelled = ''cancelled''"
| "status_to_str Lost = ''lost''"

text \<open>The derived \<open>Debug\<close> text.\<close>

fun status_debug :: "job_status \<Rightarrow> string" where
  "status_debug Queued = ''Queued''"
| "status_debug Starting = ''Starting''"
| "status_debug Running = ''Running''"
| "status_debug Stopping = ''Stopping''"
| "status_debug Succeeded = ''Succeeded''"
| "status_debug Failed = ''Failed''"
| "status_debug Cancelled = ''Cancelled''"
| "status_debug Lost = ''Lost''"

definition validate_transition :: "job_status \<Rightarrow> job_status \<Rightarrow> app_error + unit" where
  "validate_transition s t =
     (if can_transition s t then Inr ()
      else Inl (BadRequest (''invalid job state transition: '' @ status_debug s @ '' -> '' @ status_debug t)))"

definition FORCE_CANCEL_MARKER :: string where
  "FORCE_CANCEL_MARKER = ''force cancel requested''"

subsection \<open>Job records\<close>

record job_definition =
  jd_job_id :: string
  jd_node_id :: string
  jd_name :: string
  jd_executable :: string
  jd_arguments :: "string list"
  jd_working_directory :: string
  jd_environment :: "(string, string) kmap"
  jd_max_concurrent :: nat
  jd_created_at :: time
  jd_created_by :: string
  jd_description :: string
  jd_max_retries :: nat

record job =
  job_id :: string
  job_node_id :: string
  job_name :: string
  job_executable :: string
  job_arguments :: "string list"
  job_working_directory :: string
  job_environment :: "(string, string) kmap"
  job_state :: job_status
  job_pid :: "nat option"
  job_exit_code :: "int option"
  job_error_message :: "string option"
  job_created_at :: time
  job_started_at :: "time option"
  job_finished_at :: "time option"
  job_created_by :: string
  job_resource_quota :: string
  job_retry_count :: nat
  job_max_retries :: nat

record job_log_entry =
  log_job_id :: string
  log_data :: string
  log_is_stderr :: bool
  log_timestamp :: time
  log_offset :: int

text \<open>\<open>JobDefinition::new\<close>, with the generated identifier and the clock as arguments.\<close>

definition job_definition_new ::
  "string \<Rightarrow> time \<Rightarrow> string \<Rightarrow> string \<Rightarrow> string \<Rightarrow> string list \<Rightarrow> string \<Rightarrow> (string, string) kmap
    \<Rightarrow> string \<Rightarrow> string \<Rightarrow> nat \<Rightarrow> job_definition" where
  "job_definition_new uuid now node_id name executable arguments working_directory environment
      created_by description max_retries =
     \<lparr>jd_job_id = uuid, jd_node_id = node_id, jd_name = name, jd_executable = executable,
      jd_arguments = arguments, jd_working_directory = working_directory,
      jd_environment = environment, jd_max_concurrent = 1, jd_created_at = now,
      jd_created_by = created_by, jd_description = description, jd_max_retries = max_retries\<rparr>"

definition from_definition :: "job_definition \<Rightarrow> job" where
  "from_definition d =
     \<lparr>job_id = jd_job_id d, job_node_id = jd_node_id d, job_name = jd_name d,
      job_executable = jd_executable d, job_arguments = jd_arguments d,
      job_working_directory = jd_working_directory d, job_environment = jd_environment d,
      job_state = Queued, job_pid = None, job_exit_code = None, job_error_message = None,
      job_created_at = jd_created_at d, job_started_at = None, job_finished_at = None,
      job_created_by = jd_created_by d, job_resource_quota = [], job_retry_count = 0,
      job_max_retries = jd_max_retries d\<rparr>"

definition transition_to :: "time \<Rightarrow> job_status \<Rightarrow> job \<Rightarrow> app_error + job" where
  "transition_to now new_status j =
     (case validate_transition (job_state j) new_status of
        Inl e \<Rightarrow> Inl e
      | Inr _ \<Rightarrow>
          let j = j\<lparr>job_state := new_status\<rparr>
          in Inr (if new_status = Starting \<or> new_status = Running
                  then j\<lparr>job_started_at := Some now\<rparr>
                  else if is_terminal new_status
                  then j\<lparr>job_finished_at := Some now\<rparr>
                  else j))"

subsection \<open>Codecs\<close>

lemma status_to_str_from [simp]: "status_from_str (status_to_str s) = Some s"
  by (cases s) (simp_all add: status_from_str_def)

lemma status_from_str_Some: "status_from_str t = Some s \<Longrightarrow> t = status_to_str s"
  by (auto simp: status_from_str_def split: if_splits)

lemma status_to_u8_from [simp]: "status_from_u8 (status_to_u8 s) = Some s"
  by (cases s) (simp_all add: status_from_u8_def)

lemma status_from_u8_Some: "status_from_u8 v = Some s \<Longrightarrow> v = status_to_u8 s"
  by (auto simp: status_from_u8_def split: if_splits)

text \<open>Both codings of the job status are one-to-one with exact inverses: a byte or a database
  string decodes to a status exactly when it is the encoding of that status, so nothing else is
  ever accepted and no two statuses share a coding.\<close>

lemma status_codecs:
  "(status_from_u8 v = Some s \<longleftrightarrow> v = status_to_u8 s) \<and>
   (status_from_str t = Some s \<longleftrightarrow> t = status_to_str s)"
proof (intro conjI iffI)
  show "status_from_u8 v = Some s \<Longrightarrow> v = status_to_u8 s" by (rule status_from_u8_Some)
  show "status_from_str t = Some s \<Longrightarrow> t = status_to_str s" by (rule status_from_str_Some)
  show "v = status_to_u8 s \<Longrightarrow> status_from_u8 v = Some s" by (simp only: status_to_u8_from)
  show "t = status_to_str s \<Longrightarrow> status_from_str t = Some s" by (simp only: status_to_str_from)
qed

subsection \<open>The life cycle\<close>

lemmas transition_table = can_transition_def valid_transitions_def

lemma can_transition_target:
  "can_transition s t \<Longrightarrow> t = Running \<Longrightarrow> s = Starting"
  "can_transition s t \<Longrightarrow> t = Starting \<Longrightarrow> s = Queued"
  "can_transition s t \<Longrightarrow> t = Stopping \<Longrightarrow> s = Running"
  "can_transition s t \<Longrightarrow> is_terminal s \<Longrightarrow> t = Queued"
  by (auto simp: transition_table)

fun accepted_path :: "job_status list \<Rightarrow> bool" where
  "accepted_path (s # t # p) = (can_transition s t \<and> accepted_path (t # p))"
| "accepted_path _ = True"

lemma path_avoiding_running:
  assumes "accepted_path (s # p)" "s \<in> {Queued, Starting, Failed, Cancelled}" "Running \<notin> set p"
  shows "set p \<subseteq> {Queued, Starting, Failed, Cancelled}"
  using assms
proof (induction p arbitrary: s)
  case (Cons t p)
  then have "can_transition s t" "t \<noteq> Running" by auto
  then have t: "t \<in> {Queued, Starting, Failed, Cancelled}"
    using Cons.prems(2) by (cases t) (auto simp: transition_table)
  moreover have "accepted_path (t # p)" "Running \<notin> set p" using Cons.prems by auto
  ultimately show ?case using Cons.IH [of t] by simp
qed simp

text \<open>A job cannot be finished, stopped or lost without having run: on every sequence of
  accepted transitions from the queue, the states \<open>Succeeded\<close>, \<open>Stopping\<close> and \<open>Lost\<close> are preceded by
  \<open>Running\<close>. In particular a misbehaving agent cannot mark a queued job as succeeded.\<close>

lemma finished_jobs_ran:
  assumes "accepted_path (Queued # p @ [s])" and "s \<in> {Succeeded, Stopping, Lost}"
  shows "Running \<in> set p"
proof (rule ccontr)
  assume "Running \<notin> set p"
  then have "Running \<notin> set (p @ [s])" using assms(2) by auto
  with assms(1) have "set (p @ [s]) \<subseteq> {Queued, Starting, Failed, Cancelled}"
    by (intro path_avoiding_running) auto
  then show False using assms(2) by auto
qed

subsection \<open>Timestamps\<close>

text \<open>What every job that went through \<open>transition_to\<close> satisfies.\<close>

definition job_wf :: "job \<Rightarrow> bool" where
  "job_wf j \<longleftrightarrow>
     (is_running (job_state j) \<longrightarrow> job_started_at j \<noteq> None) \<and>
     (is_terminal (job_state j) \<longrightarrow> job_finished_at j \<noteq> None)"

inductive job_new :: "job \<Rightarrow> bool" where
  "job_new (from_definition d)"

inductive job_step :: "job \<Rightarrow> job \<Rightarrow> bool" where
  "transition_to now s j = Inr j' \<Longrightarrow> job_step j j'"

inductive_cases job_stepE: "job_step j j'"

lemma transition_to_Inr:
  "transition_to now s j = Inr j' \<longleftrightarrow> can_transition (job_state j) s \<and>
     j' = j\<lparr>job_state := s,
            job_started_at := (if s = Starting \<or> s = Running then Some now else job_started_at j),
            job_finished_at := (if is_terminal s then Some now else job_finished_at j)\<rparr>"
  by (cases s) (auto simp: transition_to_def validate_transition_def)

lemma job_wf_transition:
  assumes "job_wf j" "transition_to now s j = Inr j'"
  shows "job_wf j'"
proof -
  from assms(2) have c: "can_transition (job_state j) s" by (simp add: transition_to_Inr)
  have "s = Stopping \<Longrightarrow> is_running (job_state j)" 
    using c can_transition_target(3) [of "job_state j" s] by simp
  then show ?thesis using assms by (cases s) (auto simp: transition_to_Inr job_wf_def)
qed

interpretation job_cycle: safe_system job_new job_step job_wf
proof unfold_locales
  show "job_new j \<Longrightarrow> job_wf j" for j
    by (auto simp: job_wf_def from_definition_def elim: job_new.cases)
  show "job_wf j \<Longrightarrow> job_step j j' \<Longrightarrow> job_wf j'" for j j'
    by (auto elim!: job_stepE intro: job_wf_transition)
qed

text \<open>In every job built from a definition and driven by \<open>transition_to\<close>, a started, running or
  stopping job has a start time and a finished one has a finish time.\<close>

lemma reachable_job_timestamps:
  assumes "reach job_new job_step j"
  shows "(is_running (job_state j) \<longrightarrow> job_started_at j \<noteq> None) \<and>
         (is_terminal (job_state j) \<longrightarrow> job_finished_at j \<noteq> None)"
  using job_cycle.reach_inv [OF assms] by (simp add: job_wf_def)

end
