(* ===== verification/Auth.thy ===== *)
theory Auth
  imports Job
begin

text \<open>
  Authentication primitives of \<open>crates/common/src/auth.rs\<close>: roles and their permissions, password
  hashing, access tokens and the password rule. The hashing crate (\<open>argon2\<close>) and the token crate
  (\<open>jsonwebtoken\<close>) are a record of parameters (\<open>crypto\<close>); \<open>crypto_sound\<close> states the part of their
  documentation the program relies on.
\<close>

record claims =
  sub :: string
  role :: string
  exp_claim :: u64
  iat :: u64
  jti :: string

datatype user_role = Viewer | Operator | Admin

text \<open>\<open>from_str\<close> compares the lower-cased text. No character outside ASCII lower-cases to a letter of
  the three names, so the ASCII folding decides as the Unicode one does.\<close>

definition role_from_str :: "string \<Rightarrow> user_role option" where
  "role_from_str s =
     (let l = to_ascii_lowercase s
      in if l = ''viewer'' then Some Viewer else if l = ''operator'' then Some Operator
         else if l = ''admin'' then Some Admin else None)"

fun role_to_str :: "user_role \<Rightarrow> string" where
  "role_to_str Viewer = ''viewer''"
| "role_to_str Operator = ''operator''"
| "role_to_str Admin = ''admin''"

definition can_manage_jobs :: "user_role \<Rightarrow> bool" where
  "can_manage_jobs r \<longleftrightarrow> r = Operator \<or> r = Admin"

definition can_stop_jobs :: "user_role \<Rightarrow> bool" where
  "can_stop_jobs r \<longleftrightarrow> r = Operator \<or> r = Admin"

definition can_manage_nodes :: "user_role \<Rightarrow> bool" where "can_manage_nodes r \<longleftrightarrow> r = Admin"
definition can_manage_users :: "user_role \<Rightarrow> bool" where "can_manage_users r \<longleftrightarrow> r = Admin"
definition can_manage_rules :: "user_role \<Rightarrow> bool" where "can_manage_rules r \<longleftrightarrow> r = Admin"
definition can_read_metrics :: "user_role \<Rightarrow> bool" where "can_read_metrics r \<longleftrightarrow> True"
definition can_read_history :: "user_role \<Rightarrow> bool" where "can_read_history r \<longleftrightarrow> True"

lemmas permission_defs = can_manage_jobs_def can_stop_jobs_def can_manage_nodes_def
  can_manage_users_def can_manage_rules_def can_read_metrics_def can_read_history_def

text \<open>
  The crates: \<open>argon2_hash\<close> with the salt, \<open>phc_parse\<close> (\<open>PasswordHash::new\<close>), \<open>argon2_verify\<close>,
  \<open>jwt_encode\<close> and \<open>jwt_decode\<close> with the clock. \<open>Inl\<close> is the displayed error.
\<close>

record crypto =
  argon2_hash :: "string \<Rightarrow> string \<Rightarrow> string + string"
  phc_parse :: "string \<Rightarrow> string + string"
  argon2_verify :: "string \<Rightarrow> string \<Rightarrow> string + unit"
  jwt_encode :: "claims \<Rightarrow> string \<Rightarrow> string + string"
  jwt_decode :: "string \<Rightarrow> string \<Rightarrow> time \<Rightarrow> string + claims"

definition hash_password :: "crypto \<Rightarrow> string \<Rightarrow> string \<Rightarrow> app_error + string" where
  "hash_password C salt password =
     (case argon2_hash C password salt of
        Inl e \<Rightarrow> Inl (AuthError (''Failed to hash password: '' @ e))
      | Inr hash \<Rightarrow> Inr hash)"

definition verify_password :: "crypto \<Rightarrow> string \<Rightarrow> string \<Rightarrow> app_error + unit" where
  "verify_password C password hash =
     (case phc_parse C hash of
        Inl e \<Rightarrow> Inl (AuthError (''Invalid password hash: '' @ e))
      | Inr parsed \<Rightarrow>
          (case argon2_verify C password parsed of
             Inl e \<Rightarrow> Inl (AuthError (''Password verification failed: '' @ e))
           | Inr _ \<Rightarrow> Inr ()))"

text \<open>\<open>None\<close> is the panic of the instant arithmetic on an absurd expiry.\<close>

definition generate_jwt ::
  "crypto \<Rightarrow> string \<Rightarrow> time \<Rightarrow> string \<Rightarrow> string \<Rightarrow> string \<Rightarrow> u64 \<Rightarrow> (app_error + string) option" where
  "generate_jwt C uuid now user_id r secret access_expiry_secs =
     (case chrono_seconds (u64_as_i64 access_expiry_secs) of
        None \<Rightarrow> None
      | Some d \<Rightarrow>
          (case datetime_add now d of
             None \<Rightarrow> None
           | Some expires \<Rightarrow>
               let c = \<lparr>sub = user_id, role = r, exp_claim = i64_as_u64 (timestamp expires),
                        iat = i64_as_u64 (timestamp now), jti = uuid\<rparr>
               in Some (case jwt_encode C c secret of
                    Inl e \<Rightarrow> Inl (AuthError (''Failed to encode JWT: '' @ e))
                  | Inr token \<Rightarrow> Inr token)))"

definition verify_jwt :: "crypto \<Rightarrow> string \<Rightarrow> string \<Rightarrow> time \<Rightarrow> app_error + claims" where
  "verify_jwt C token secret now =
     (case jwt_decode C token secret now of
        Inl e \<Rightarrow> Inl (Unauthorized (''Invalid JWT: '' @ e))
      | Inr c \<Rightarrow> Inr c)"

definition MIN_PASSWORD_LEN :: nat where "MIN_PASSWORD_LEN = 8"

definition validate_password_strength :: "string \<Rightarrow> app_error + unit" where
  "validate_password_strength password =
     (if length password < MIN_PASSWORD_LEN
      then Inl (BadRequest (''password must be at least '' @ show_nat MIN_PASSWORD_LEN @ '' characters''))
      else Inr ())"

subsection \<open>Documented behaviour of the crates\<close>

text \<open>
  A token decodes, under the secret it was encoded with, to the claims it was encoded from, and
  does so until it expires; the default validation rejects it when the expiry is more than its
  leeway of sixty seconds in the past. A password verifies against its own hash.
\<close>

definition jwt_sound :: "crypto \<Rightarrow> bool" where
  "jwt_sound C \<longleftrightarrow>
     (\<forall>c s t now. jwt_encode C c s = Inr t \<and> timestamp now < uint (exp_claim c) \<longrightarrow>
        jwt_decode C t s now = Inr c) \<and>
     (\<forall>c s t now d. jwt_encode C c s = Inr t \<and> jwt_decode C t s now = Inr d \<longrightarrow> d = c) \<and>
     (\<forall>s t now c. jwt_decode C t s now = Inr c \<longrightarrow> timestamp now \<le> uint (exp_claim c) + 60)"

definition argon2_sound :: "crypto \<Rightarrow> bool" where
  "argon2_sound C \<longleftrightarrow>
     (\<forall>p salt h. argon2_hash C p salt = Inr h \<longrightarrow>
        (\<exists>ph. phc_parse C h = Inr ph \<and> argon2_verify C p ph = Inr ()))"

subsection \<open>Roles\<close>

lemma role_from_to_str [simp]: "role_from_str (role_to_str r) = Some r"
  by (cases r) (simp_all add: role_from_str_def to_ascii_lowercase_def ascii_lower_def code_def)

text \<open>The permissions grow with the role: whatever a viewer may do an operator may, and whatever
  an operator may do an administrator may; managing nodes, users and rules is the administrator's
  alone. The stored text of a role, in any case, denotes that role.\<close>

lemma roles_ordered:
  assumes "P \<in> {can_manage_jobs, can_stop_jobs, can_manage_nodes, can_manage_users, can_manage_rules,
                can_read_metrics, can_read_history}"
  shows "(P Viewer \<longrightarrow> P Operator) \<and> (P Operator \<longrightarrow> P Admin) \<and>
    (P \<in> {can_manage_nodes, can_manage_users, can_manage_rules} \<longrightarrow> (P r \<longleftrightarrow> r = Admin)) \<and>
    role_from_str (role_to_str r) = Some r"
  using assms by (auto simp: permission_defs)

subsection \<open>Tokens\<close>

lemma timestamp_add: "timestamp (t + seconds n) = timestamp t + n"
  by (simp add: timestamp_def)

text \<open>The expiry that \<open>generate_jwt\<close> writes, where the instant arithmetic does not panic.\<close>

lemma generate_jwt_claims:
  assumes "generate_jwt C uuid now user_id r secret expiry = Some (Inr token)"
    and "0 \<le> now" and "uint expiry < 2 ^ 63"
  shows "\<exists>c. jwt_encode C c secret = Inr token \<and> sub c = user_id \<and> role c = r \<and> jti c = uuid \<and>
    uint (exp_claim c) = timestamp now + uint expiry"
proof -
  have e: "u64_as_i64 expiry = uint expiry"
    using i64_u64_roundtrip [of "uint expiry"] assms(3) order_trans [OF _ uint_ge_0, of "- (2 ^ 63)" expiry]
    by (simp add: i64_as_u64_def)
  from assms(1) have small: "now + seconds (uint expiry) < seconds 8210266876800"
    and enc: "jwt_encode C \<lparr>sub = user_id, role = r,
        exp_claim = i64_as_u64 (timestamp (now + seconds (uint expiry))),
        iat = i64_as_u64 (timestamp now), jti = uuid\<rparr> secret = Inr token"
    by (auto simp: generate_jwt_def e chrono_seconds_def datetime_add_def Let_def
        split: option.splits if_splits sum.splits)
  have "0 \<le> timestamp now" "timestamp now + uint expiry < 8210266876800"
    using assms(2) small unfolding timestamp_def by linarith+
  then have "uint (i64_as_u64 (timestamp (now + seconds (uint expiry)))) = timestamp now + uint expiry"
    using uint_ge_0 [of expiry] unfolding timestamp_add by (intro uint_i64_as_u64) auto
  then show ?thesis using enc by (intro exI conjI) auto
qed

text \<open>A token the server issues verifies under the same secret, until it expires, to claims that
  carry the user and the role it was issued for, and stops verifying once the leeway of the token
  crate has passed.\<close>

lemma jwt_roundtrip:
  assumes "jwt_sound C"
    and "generate_jwt C uuid now user_id r secret expiry = Some (Inr token)"
    and "0 \<le> now" and "uint expiry < 2 ^ 63"
  shows "(timestamp later < timestamp now + uint expiry \<longrightarrow>
            (\<exists>c. verify_jwt C token secret later = Inr c \<and> sub c = user_id \<and> role c = r \<and> jti c = uuid)) \<and>
         (timestamp now + uint expiry + 60 < timestamp later \<longrightarrow>
            (\<exists>e. verify_jwt C token secret later = Inl (Unauthorized e)))"
proof -
  obtain c where c: "jwt_encode C c secret = Inr token" "sub c = user_id" "role c = r" "jti c = uuid"
    and x: "uint (exp_claim c) = timestamp now + uint expiry"
    using generate_jwt_claims [OF assms(2-4)] by blast
  have early: "timestamp later < uint (exp_claim c) \<Longrightarrow> jwt_decode C token secret later = Inr c"
    using assms(1) c(1) by (simp add: jwt_sound_def)
  have late: "timestamp later \<le> uint (exp_claim c) + 60" if "jwt_decode C token secret later = Inr d" for d
  proof -
    have "d = c" using assms(1) c(1) that unfolding jwt_sound_def by blast
    then show ?thesis using assms(1) that unfolding jwt_sound_def by blast
  qed
  show ?thesis
    using early late c(2-4) x
    by (cases "jwt_decode C token secret later") (auto simp: verify_jwt_def)
qed

text \<open>A crate instance with one key and one token, for the witness.\<close>

definition sample_claims :: claims where
  "sample_claims = \<lparr>sub = ''u1'', role = ''admin'', exp_claim = 3600, iat = 0, jti = ''t1''\<rparr>"

definition sample_crypto :: crypto where
  "sample_crypto =
     \<lparr>argon2_hash = (\<lambda>p salt. Inr (''$argon2$'' @ p)),
      phc_parse = (\<lambda>h. if take 8 h = ''$argon2$'' then Inr (drop 8 h) else Inl ''invalid''),
      argon2_verify = (\<lambda>p ph. if p = ph then Inr () else Inl ''mismatch''),
      jwt_encode = (\<lambda>c s. if c = sample_claims \<and> s = ''k'' then Inr ''tok'' else Inl ''key''),
      jwt_decode = (\<lambda>t s now. if t = ''tok'' \<and> s = ''k'' \<and> timestamp now \<le> 3660
                              then Inr sample_claims else Inl ''invalid'')\<rparr>"

lemma sample_crypto_sound: "jwt_sound sample_crypto \<and> argon2_sound sample_crypto"
  by (auto simp: jwt_sound_def argon2_sound_def sample_crypto_def sample_claims_def split: if_splits)

subsection \<open>Passwords\<close>

lemma password_roundtrip:
  assumes "argon2_sound C" and "hash_password C salt p = Inr h"
  shows "verify_password C p h = Inr ()"
  using assms by (force simp: argon2_sound_def hash_password_def verify_password_def split: sum.splits)

end
