(* ===== verification/Middleware.thy ===== *)
theory Middleware
  imports Config
begin

text \<open>
  Access control of the HTTP and gRPC interfaces: \<open>crates/server/src/auth_middleware.rs\<close>, the route
  table of \<open>build_http_router\<close> and the interceptor of \<open>lib.rs\<close>. A middleware is a function from the
  request to a rejection or to the request it passes on, with the claims it attached. Patterns of the
  table are resolved to the kind of route a request reaches; handlers are in the handler theories.
\<close>

datatype status_code = OK200 | BadRequest400 | Unauthorized401 | Forbidden403 | NotFound404 | Conflict409
  | TooMany429 | Internal500 | Unavailable503

datatype http_method = GET | HEAD | POST | PATCH | DELETE | OTHER

text \<open>\<open>req_authorization\<close> is the header when it is present and visible ASCII text.\<close>

record request =
  req_method :: http_method
  req_path :: string
  req_authorization :: "string option"
  req_claims :: "claims option"

definition extract_token :: "request \<Rightarrow> status_code + string option" where
  "extract_token r =
     (case req_authorization r of
        None \<Rightarrow> Inl Unauthorized401
      | Some h \<Rightarrow> if take 7 h = ''Bearer '' then Inr (Some (drop 7 h)) else Inl Unauthorized401)"

definition validate_token :: "crypto \<Rightarrow> string \<Rightarrow> string \<Rightarrow> time \<Rightarrow> claims option" where
  "validate_token C token secret now =
     (case verify_jwt C token secret now of Inr c \<Rightarrow> Some c | Inl _ \<Rightarrow> None)"

definition public_path :: "string \<Rightarrow> bool" where
  "public_path p \<longleftrightarrow> p = ''/api/health'' \<or> p = ''/api/login'' \<or> p = ''/api/refresh-token''"

definition auth_middleware :: "crypto \<Rightarrow> string \<Rightarrow> time \<Rightarrow> request \<Rightarrow> status_code + request" where
  "auth_middleware C secret now r =
     (if public_path (req_path r) then Inr r
      else case extract_token r of
             Inl e \<Rightarrow> Inl e
           | Inr None \<Rightarrow> Inl Unauthorized401
           | Inr (Some token) \<Rightarrow>
               (case validate_token C token secret now of
                  Some c \<Rightarrow> Inr (r\<lparr>req_claims := Some c\<rparr>)
                | None \<Rightarrow> Inl Unauthorized401))"

definition readonly_middleware :: "crypto \<Rightarrow> string \<Rightarrow> time \<Rightarrow> request \<Rightarrow> status_code + request" where
  "readonly_middleware C secret now r =
     (if public_path (req_path r) then Inr r
      else if req_method r = GET \<or> req_method r = HEAD then
        (case extract_token r of
           Inr (Some token) \<Rightarrow>
             if token = [] then Inr r
             else (case validate_token C token secret now of
                     Some c \<Rightarrow> Inr (r\<lparr>req_claims := Some c\<rparr>)
                   | None \<Rightarrow> Inl Unauthorized401)
         | _ \<Rightarrow> Inr r)
      else case extract_token r of
             Inl e \<Rightarrow> Inl e
           | Inr None \<Rightarrow> Inl Unauthorized401
           | Inr (Some token) \<Rightarrow>
               (case validate_token C token secret now of
                  Some c \<Rightarrow> Inr (r\<lparr>req_claims := Some c\<rparr>)
                | None \<Rightarrow> Inl Unauthorized401))"

definition require_role :: "string list \<Rightarrow> request \<Rightarrow> status_code + request" where
  "require_role allowed r =
     (case req_claims r of
        None \<Rightarrow> Inl Unauthorized401
      | Some c \<Rightarrow>
          let ro = (case role_from_str (role c) of Some x \<Rightarrow> x | None \<Rightarrow> Viewer)
          in if role_to_str ro \<in> set allowed then Inr r else Inl Forbidden403)"

definition require_admin_middleware :: "request \<Rightarrow> status_code + request" where
  "require_admin_middleware r = require_role [''admin''] r"

definition require_operator_middleware :: "request \<Rightarrow> status_code + request" where
  "require_operator_middleware r = require_role [''operator'', ''admin''] r"

text \<open>The groups of routes, and the layers a request to each passes.\<close>

datatype route_group = PublicRoute | AdminRoute | OperatorRoute | SelfRoute | ReadRoute

text \<open>The table of routes under \<open>/api\<close> (patterns with a parameter written with \<open>{}\<close>).\<close>

definition route_table :: "(http_method \<times> string \<times> route_group) list" where
  "route_table =
     [(GET, ''/users'', AdminRoute), (POST, ''/users'', AdminRoute), (GET, ''/users/{}'', AdminRoute),
      (PATCH, ''/users/{}'', AdminRoute), (DELETE, ''/users/{}'', AdminRoute),
      (POST, ''/servers/install'', AdminRoute), (POST, ''/alerts/rules'', AdminRoute),
      (DELETE, ''/alerts/rules/{}'', AdminRoute), (POST, ''/alerts/rules/{}/ack'', AdminRoute),
      (POST, ''/jobs'', OperatorRoute), (DELETE, ''/jobs/{}'', OperatorRoute),
      (POST, ''/me/password'', SelfRoute),
      (GET, ''/nodes'', ReadRoute), (GET, ''/nodes/{}'', ReadRoute), (GET, ''/nodes/{}/metrics'', ReadRoute),
      (GET, ''/metrics/history'', ReadRoute), (GET, ''/jobs'', ReadRoute), (GET, ''/jobs/{}'', ReadRoute),
      (GET, ''/jobs/{}/logs'', ReadRoute), (GET, ''/alerts/rules'', ReadRoute),
      (GET, ''/alerts/rules/{}/state'', ReadRoute), (GET, ''/alerts/events'', ReadRoute),
      (GET, ''/cluster/info'', ReadRoute), (GET, ''/audit-logs'', ReadRoute),
      (GET, ''/prometheus/metrics'', ReadRoute)]"

text \<open>\<open>HEAD\<close> is served by the \<open>GET\<close> handler.\<close>

definition route_of :: "http_method \<Rightarrow> string \<Rightarrow> route_group option" where
  "route_of meth pat =
     (case filter (\<lambda>(m', p', g). m' = (if meth = HEAD then GET else meth) \<and> p' = pat) route_table of
        [] \<Rightarrow> None | (_, _, g) # _ \<Rightarrow> Some g)"

definition admit :: "server_config \<Rightarrow> crypto \<Rightarrow> time \<Rightarrow> route_group \<Rightarrow> request \<Rightarrow> status_code + request" where
  "admit cfg C now g r =
     (let outer = (if sc_auth_required cfg then auth_middleware C (sc_jwt_secret cfg) now
                   else readonly_middleware C (sc_jwt_secret cfg) now)
      in case g of
           PublicRoute \<Rightarrow> Inr r
         | AdminRoute \<Rightarrow> (case outer r of Inl e \<Rightarrow> Inl e | Inr r' \<Rightarrow> require_admin_middleware r')
         | OperatorRoute \<Rightarrow> (case outer r of Inl e \<Rightarrow> Inl e | Inr r' \<Rightarrow> require_operator_middleware r')
         | SelfRoute \<Rightarrow> outer r
         | ReadRoute \<Rightarrow> outer r)"

text \<open>The gRPC interceptor: the \<open>authorization\<close> metadata against the configured token. The constant-time
  comparison decides equality.\<close>

definition grpc_auth_interceptor :: "string \<Rightarrow> string option \<Rightarrow> string + unit" where
  "grpc_auth_interceptor token authorization =
     (if token = [] then Inr ()
      else let expected = ''Bearer '' @ token
           in case authorization of
                Some v \<Rightarrow> if v = expected then Inr () else Inl ''missing or invalid gRPC token''
              | None \<Rightarrow> Inl ''missing or invalid gRPC token'')"

subsection \<open>Who gets in\<close>

definition bearer :: "crypto \<Rightarrow> string \<Rightarrow> time \<Rightarrow> request \<Rightarrow> claims option" where
  "bearer C secret now r =
     (case extract_token r of Inr (Some t) \<Rightarrow> validate_token C t secret now | _ \<Rightarrow> None)"

definition claimed_role :: "claims \<Rightarrow> user_role" where
  "claimed_role c = (case role_from_str (role c) of Some x \<Rightarrow> x | None \<Rightarrow> Viewer)"

lemma auth_middleware_eq:
  "\<not> public_path (req_path r) \<Longrightarrow>
   auth_middleware C s now r =
     (case bearer C s now r of Some c \<Rightarrow> Inr (r\<lparr>req_claims := Some c\<rparr>) | None \<Rightarrow> Inl Unauthorized401)"
  by (auto simp: auth_middleware_def bearer_def extract_token_def split: option.split)

lemma readonly_middleware_write:
  "\<not> public_path (req_path r) \<Longrightarrow> req_method r \<notin> {GET, HEAD} \<Longrightarrow>
   readonly_middleware C s now r =
     (case bearer C s now r of Some c \<Rightarrow> Inr (r\<lparr>req_claims := Some c\<rparr>) | None \<Rightarrow> Inl Unauthorized401)"
  by (auto simp: readonly_middleware_def bearer_def extract_token_def split: option.split)

lemma readonly_middleware_read:
  "\<not> public_path (req_path r) \<Longrightarrow> req_method r \<in> {GET, HEAD} \<Longrightarrow> req_claims r = None \<Longrightarrow>
   readonly_middleware C s now r = Inr r' \<Longrightarrow> req_claims r' = bearer C s now r \<or> req_claims r' = None"
  by (auto simp: readonly_middleware_def bearer_def extract_token_def split: option.splits if_splits)

lemma require_role_Inr:
  "require_role allowed r = Inr r' \<longleftrightarrow>
     r' = r \<and> (\<exists>c. req_claims r = Some c \<and> role_to_str (claimed_role c) \<in> set allowed)"
  by (auto simp: require_role_def claimed_role_def Let_def split: option.splits if_splits)

lemma role_to_str_eq: "role_to_str a = role_to_str b \<longleftrightarrow> a = b"
  by (metis option.inject role_from_to_str)

lemma role_strings [simp]:
  "role_to_str x = ''admin'' \<longleftrightarrow> x = Admin" "role_to_str x = ''operator'' \<longleftrightarrow> x = Operator"
  by (cases x; simp)+

lemma outer_claims:
  assumes "\<not> public_path (req_path r)" and "req_claims r = None"
    and "validate_token C [] s now = None"
    and "outer = auth_middleware C s now \<or> outer = readonly_middleware C s now"
    and "outer r = Inr r'" and "req_claims r' = Some c"
  shows "bearer C s now r = Some c"
  using assms
  by (cases "outer = auth_middleware C s now")
     (auto simp: auth_middleware_eq readonly_middleware_def bearer_def split: option.splits sum.splits if_splits)

lemma outer_bearer:
  assumes "\<not> public_path (req_path r)" and "validate_token C [] s now = None"
    and "outer = auth_middleware C s now \<or> outer = readonly_middleware C s now"
    and "bearer C s now r = Some c"
  shows "outer r = Inr (r\<lparr>req_claims := Some c\<rparr>)"
  using assms
  by (cases "outer = auth_middleware C s now")
     (auto simp: auth_middleware_eq readonly_middleware_def bearer_def split: option.splits sum.splits if_splits)

lemma role_gate:
  assumes "\<not> public_path (req_path r)" and "req_claims r = None" and "validate_token C [] s now = None"
    and "outer = auth_middleware C s now \<or> outer = readonly_middleware C s now"
  shows "(\<exists>r'. (case outer r of Inl e \<Rightarrow> Inl e | Inr q \<Rightarrow> require_role allowed q) = Inr r') \<longleftrightarrow>
         (\<exists>c. bearer C s now r = Some c \<and> role_to_str (claimed_role c) \<in> set allowed)"
    (is "?L = ?R")
proof
  assume ?L
  then obtain q c where "outer r = Inr q" "req_claims q = Some c" "role_to_str (claimed_role c) \<in> set allowed"
    by (auto simp: require_role_Inr split: sum.splits)
  then show ?R using outer_claims [OF assms] by blast
next
  assume ?R
  then show ?L using outer_bearer [OF assms(1,3,4)] by (fastforce simp: require_role_Inr)
qed


definition sample_request :: request where
  "sample_request = \<lparr>req_method = POST, req_path = ''/api/users'',
     req_authorization = Some ''Bearer tok'', req_claims = None\<rparr>"


end
