(* ===== verification/F64.thy ===== *)
theory F64
  imports Complex_Main Prelude
begin

text \<open>
  The IEEE-754 double precision numbers of the sources (\<open>f64\<close>): a finite value is the rational it
  denotes, and the arithmetic operations round the exact result to the nearest double, ties to
  even, with subnormals and overflow to infinity. The two zeros are one value: no operation of the
  sources tells them apart. Comparisons are exact and false on \<open>NaN\<close>. Every \<open>f32\<close> is an \<open>f64\<close>, so
  the conversion \<open>as f64\<close> is the identity of the model.
\<close>

datatype f64 = Fin rat | PInf | NInf | NaN

fun bit_length :: "nat \<Rightarrow> nat" where
  "bit_length n = (if n = 0 then 0 else Suc (bit_length (n div 2)))"

declare bit_length.simps [simp del]

text \<open>The exponent of a positive rational: the \<open>e\<close> with \<open>2\<^sup>e \<le> x < 2\<^sup>e\<^sup>+\<^sup>1\<close>.\<close>

definition exponent :: "rat \<Rightarrow> int" where
  "exponent x =
     (let (p, q) = quotient_of x;
          e = int (bit_length (nat p)) - int (bit_length (nat q))
      in if 2 powi e \<le> x then e else e - 1)"

definition round_half_even :: "rat \<Rightarrow> int" where
  "round_half_even x =
     (let f = \<lfloor>x\<rfloor>; d = x - of_int f
      in if d < 1 / 2 then f
         else if 1 / 2 < d then f + 1
         else if even f then f else f + 1)"

text \<open>Rounding of a non-negative magnitude, before the overflow check.\<close>

definition round_magnitude :: "rat \<Rightarrow> rat" where
  "round_magnitude x =
     (let u = 2 powi (max (exponent x) (-1022) - 52)
      in of_int (round_half_even (x / u)) * u)"

definition round64 :: "rat \<Rightarrow> f64" where
  "round64 x =
     (if x = 0 then Fin 0
      else let y = round_magnitude \<bar>x\<bar>
           in if 2 ^ 1024 \<le> y then (if 0 < x then PInf else NInf) else Fin (sgn x * y))"

text \<open>The single precision (\<open>f32\<close>) counterpart: 24 bits, exponents from -126 to 127.\<close>

definition round32 :: "rat \<Rightarrow> f64" where
  "round32 x =
     (if x = 0 then Fin 0
      else let u = 2 powi (max (exponent \<bar>x\<bar>) (-126) - 23);
               y = of_int (round_half_even (\<bar>x\<bar> / u)) * u
           in if 2 ^ 128 \<le> y then (if 0 < x then PInf else NInf) else Fin (sgn x * y))"

fun f64_neg :: "f64 \<Rightarrow> f64" where
  "f64_neg (Fin x) = Fin (- x)"
| "f64_neg PInf = NInf"
| "f64_neg NInf = PInf"
| "f64_neg NaN = NaN"

fun f64_abs :: "f64 \<Rightarrow> f64" where
  "f64_abs (Fin x) = Fin \<bar>x\<bar>"
| "f64_abs PInf = PInf"
| "f64_abs NInf = PInf"
| "f64_abs NaN = NaN"

fun f64_add :: "f64 \<Rightarrow> f64 \<Rightarrow> f64" where
  "f64_add (Fin x) (Fin y) = round64 (x + y)"
| "f64_add NaN b = NaN"
| "f64_add a NaN = NaN"
| "f64_add PInf NInf = NaN"
| "f64_add NInf PInf = NaN"
| "f64_add PInf b = PInf"
| "f64_add NInf b = NInf"
| "f64_add a PInf = PInf"
| "f64_add a NInf = NInf"

definition f64_sub :: "f64 \<Rightarrow> f64 \<Rightarrow> f64" where "f64_sub a b = f64_add a (f64_neg b)"

definition f64_sign_inf :: "bool \<Rightarrow> f64" where "f64_sign_inf pos = (if pos then PInf else NInf)"

fun f64_mul :: "f64 \<Rightarrow> f64 \<Rightarrow> f64" where
  "f64_mul (Fin x) (Fin y) = round64 (x * y)"
| "f64_mul NaN b = NaN"
| "f64_mul a NaN = NaN"
| "f64_mul (Fin x) PInf = (if x = 0 then NaN else f64_sign_inf (0 < x))"
| "f64_mul (Fin x) NInf = (if x = 0 then NaN else f64_sign_inf (x < 0))"
| "f64_mul PInf (Fin y) = (if y = 0 then NaN else f64_sign_inf (0 < y))"
| "f64_mul NInf (Fin y) = (if y = 0 then NaN else f64_sign_inf (y < 0))"
| "f64_mul PInf PInf = PInf"
| "f64_mul NInf NInf = PInf"
| "f64_mul PInf NInf = NInf"
| "f64_mul NInf PInf = NInf"

text \<open>Division by a non-zero finite number, the only division of the sources.\<close>

definition f64_div_fin :: "f64 \<Rightarrow> rat \<Rightarrow> f64" where
  "f64_div_fin a y =
     (case a of Fin x \<Rightarrow> round64 (x / y) | PInf \<Rightarrow> f64_sign_inf (0 < y)
      | NInf \<Rightarrow> f64_sign_inf (y < 0) | NaN \<Rightarrow> NaN)"

definition f32_add :: "f64 \<Rightarrow> f64 \<Rightarrow> f64" where
  "f32_add a b =
     (case a of Fin x \<Rightarrow> (case b of Fin y \<Rightarrow> round32 (x + y) | _ \<Rightarrow> b) | _ \<Rightarrow> f64_add a b)"

definition f32_div_fin :: "f64 \<Rightarrow> rat \<Rightarrow> f64" where
  "f32_div_fin a y = (case a of Fin x \<Rightarrow> round32 (x / y) | _ \<Rightarrow> f64_div_fin a y)"

fun f64_lt :: "f64 \<Rightarrow> f64 \<Rightarrow> bool" where
  "f64_lt (Fin x) (Fin y) = (x < y)"
| "f64_lt (Fin x) PInf = True"
| "f64_lt NInf (Fin y) = True"
| "f64_lt NInf PInf = True"
| "f64_lt a b = False"

definition f64_le :: "f64 \<Rightarrow> f64 \<Rightarrow> bool" where
  "f64_le a b \<longleftrightarrow> f64_lt a b \<or> a = b \<and> a \<noteq> NaN"

text \<open>\<open>f64::max\<close> and \<open>f64::min\<close> ignore a \<open>NaN\<close>.\<close>

definition f64_max :: "f64 \<Rightarrow> f64 \<Rightarrow> f64" where
  "f64_max a b = (if a = NaN then b else if b = NaN then a else if f64_lt a b then b else a)"

definition f64_min :: "f64 \<Rightarrow> f64 \<Rightarrow> f64" where
  "f64_min a b = (if a = NaN then b else if b = NaN then a else if f64_lt b a then b else a)"

subsection \<open>Laws\<close>

lemma round64_zero [simp]: "round64 0 = Fin 0"
  by (simp add: round64_def)

lemma round64_minus: "round64 (- x) = f64_neg (round64 x)"
  by (auto simp: round64_def Let_def)

lemma round_half_even_nonneg: "0 \<le> x \<Longrightarrow> 0 \<le> round_half_even x"
  by (simp add: round_half_even_def Let_def)

lemma round_half_even_int [simp]: "round_half_even (of_int n) = n"
  by (simp add: round_half_even_def)

lemma round_magnitude_nonneg: "0 \<le> x \<Longrightarrow> 0 \<le> round_magnitude x"
  unfolding round_magnitude_def Let_def
  by (intro mult_nonneg_nonneg) (simp_all add: round_half_even_nonneg)

lemma f64_le_Fin [simp]: "f64_le (Fin x) (Fin y) \<longleftrightarrow> x \<le> y"
  by (auto simp: f64_le_def)

lemma round64_nonneg: "0 \<le> x \<Longrightarrow> f64_le (Fin 0) (round64 x)"
  using round_magnitude_nonneg [of x]
  by (auto simp: round64_def Let_def f64_le_def sgn_if order_le_less)

lemma f64_abs_neg [simp]: "f64_abs (f64_neg a) = f64_abs a"
  by (cases a) auto

lemma f64_abs_round64_minus: "f64_abs (round64 (y - x)) = f64_abs (round64 (x - y))"
  using round64_minus [of "x - y"] by simp

lemma f64_abs_sub_commute: "f64_abs (f64_sub a b) = f64_abs (f64_sub b a)"
  by (cases a; cases b) (simp_all add: f64_sub_def f64_abs_round64_minus)

lemma f64_max_commute: "f64_max a b = f64_max b a"
  by (cases a; cases b) (auto simp: f64_max_def)

lemma f64_lt_not_le: "a \<noteq> NaN \<Longrightarrow> b \<noteq> NaN \<Longrightarrow> f64_lt a b \<longleftrightarrow> \<not> f64_le b a"
  by (cases a; cases b) (auto simp: f64_le_def)

lemma f64_le_refl: "a \<noteq> NaN \<Longrightarrow> f64_le a a"
  by (simp add: f64_le_def)

lemma f64_le_trans: "f64_le a b \<Longrightarrow> f64_le b c \<Longrightarrow> f64_le a c"
  by (cases a; cases b; cases c) (auto simp: f64_le_def)

lemma f64_le_antisym: "f64_le a b \<Longrightarrow> f64_le b a \<Longrightarrow> a = b"
  by (cases a; cases b) (auto simp: f64_le_def)

lemma f64_le_linear: "a \<noteq> NaN \<Longrightarrow> b \<noteq> NaN \<Longrightarrow> f64_le a b \<or> f64_le b a"
  by (cases a; cases b) (auto simp: f64_le_def)

lemma bit_length_upper: "n < 2 ^ bit_length n"
proof (induction n rule: bit_length.induct)
  case (1 n)
  then show ?case by (cases "n = 0") (auto simp: bit_length.simps [of n])
qed

lemma bit_length_lower: "0 < n \<Longrightarrow> 2 ^ (bit_length n - 1) \<le> n"
proof (induction n rule: bit_length.induct)
  case (1 n)
  show ?case
  proof (cases "n div 2 = 0")
    case True
    with "1.prems" have "n = 1" by linarith
    then show ?thesis by (simp add: bit_length.simps)
  next
    case False
    then have "bit_length (n div 2) = Suc (bit_length (n div 2) - 1)" by (simp add: bit_length.simps [of "n div 2"])
    then have "2 ^ bit_length (n div 2) = 2 * (2::nat) ^ (bit_length (n div 2) - 1)" by (metis power_Suc)
    with "1.IH" "1.prems" False show ?thesis by (simp add: bit_length.simps [of n])
  qed
qed

lemma exponent_le:
  assumes "0 < x"
  shows "2 powi exponent x \<le> x"
proof -
  obtain p q where pq: "quotient_of x = (p, q)" by (cases "quotient_of x")
  then have q: "0 < q" and x: "x = of_int p / of_int q" by (simp_all add: quotient_of_denom_pos quotient_of_div)
  with assms have p: "0 < p" by (simp add: zero_less_divide_iff)
  define a b where "a = bit_length (nat p)" and "b = bit_length (nat q)"
  have "0 < a" using p by (simp add: a_def bit_length.simps)
  have "of_nat (2 ^ (a - 1)) \<le> (of_nat (nat p) :: rat)"
    using bit_length_lower [of "nat p"] p unfolding a_def by (simp only: of_nat_le_iff zero_less_nat_eq)
  then have "(2::rat) ^ (a - 1) \<le> of_int p" using p by simp
  moreover have "of_nat (nat q) \<le> (of_nat (2 ^ b) :: rat)"
    using bit_length_upper [of "nat q"] unfolding b_def by (simp only: of_nat_le_iff less_imp_le)
  then have "of_int q \<le> (2::rat) ^ b" using q by simp
  ultimately have "(2::rat) ^ (a - 1) / 2 ^ b \<le> x"
    unfolding x using q p by (intro frac_le) auto
  moreover have "(2::rat) ^ (a - 1) / 2 ^ b = 2 powi (int a - int b - 1)"
    using \<open>0 < a\<close> by (simp add: power_int_diff of_nat_diff flip: power_int_of_nat)
  ultimately show ?thesis
    by (simp add: exponent_def pq Let_def a_def b_def)
qed

lemma half_floor:
  assumes "1 \<le> (y :: rat)"
  shows "y / 2 \<le> of_int \<lfloor>y\<rfloor>"
proof -
  from assms have "1 \<le> \<lfloor>y\<rfloor>" by simp
  then have "(1::rat) \<le> of_int \<lfloor>y\<rfloor>" by (simp only: of_int_1_le_iff)
  moreover have "y < of_int \<lfloor>y\<rfloor> + 1" using floor_correct [of y] by simp
  ultimately show ?thesis by linarith
qed

lemma round_magnitude_half:
  assumes "2 powi (-1074) \<le> x"
  shows "x / 2 \<le> round_magnitude x"
proof -
  define u :: rat where "u = 2 powi (max (exponent x) (-1022) - 52)"
  have "0 < (2::rat) powi (-1074)" by simp
  with assms have x: "0 < x" by linarith
  have "u \<le> x"
  proof (cases "-1022 \<le> exponent x")
    case True
    then have "u \<le> 2 powi exponent x" unfolding u_def by (intro power_int_increasing) auto
    with exponent_le [OF x] show ?thesis by simp
  qed (use assms in \<open>simp add: u_def\<close>)
  then have "1 \<le> x / u" by (simp add: u_def)
  then have "x / u / 2 \<le> of_int \<lfloor>x / u\<rfloor>" by (rule half_floor)
  also have "\<lfloor>x / u\<rfloor> \<le> round_half_even (x / u)" by (simp add: round_half_even_def Let_def)
  then have "(of_int \<lfloor>x / u\<rfloor> :: rat) \<le> of_int (round_half_even (x / u))" by simp
  finally have "x / u / 2 * u \<le> of_int (round_half_even (x / u)) * u"
    by (rule mult_right_mono) (simp add: u_def)
  moreover have "x / u / 2 * u = x / 2" by (simp add: u_def)
  ultimately show ?thesis by (simp add: round_magnitude_def u_def [symmetric] Let_def)
qed

lemma small_le_one: "2 powi (-1074) \<le> (1 :: rat)" "2 powi (-1074) \<le> (1 / 2000 :: rat)"
proof -
  have "(2::rat) powi (-1074) \<le> 2 powi (-11)" by (rule power_int_increasing) auto
  also have "(2::rat) powi (-11) = 1 / 2048" by (simp add: power_int_minus)
  finally show "2 powi (-1074) \<le> (1 :: rat)" "2 powi (-1074) \<le> (1 / 2000 :: rat)" by simp_all
qed

lemma round64_half:
  assumes "2 powi (-1074) \<le> x"
  shows "round64 x = PInf \<or> (\<exists>y. round64 x = Fin y \<and> x / 2 \<le> y \<and> 0 < y)"
proof -
  have "0 < (2::rat) powi (-1074)" by simp
  with assms have "0 < x" by linarith
  with round_magnitude_half [OF assms] show ?thesis by (auto simp: round64_def Let_def)
qed

lemma round64_nonpos: "x \<le> 0 \<Longrightarrow> f64_le (round64 x) (Fin 0)"
  using round64_nonneg [of "- x"] round64_minus [of x] by (cases "round64 x") (auto simp: f64_le_def)

lemma round32_nonneg: "0 \<le> x \<Longrightarrow> f64_le (Fin 0) (round32 x)"
proof -
  assume x: "0 \<le> x"
  have "0 \<le> of_int (round_half_even (x / u)) * u" if "0 < u" for u :: rat
    using x that by (simp add: round_half_even_nonneg)
  from this [of "2 powi (max (exponent x) (-126) - 23)"] x show ?thesis
    by (auto simp: round32_def Let_def f64_le_def sgn_if order_le_less)
qed

lemma f64_div_nonpos: "f64_le a (Fin 0) \<Longrightarrow> 0 < e \<Longrightarrow> f64_le (f64_div_fin a e) (Fin 0)"
proof (cases a)
  case (Fin x)
  assume "f64_le a (Fin 0)" "0 < e"
  with Fin have "x / e \<le> 0" by (simp add: divide_le_0_iff)
  with Fin show ?thesis by (simp add: f64_div_fin_def round64_nonpos)
qed (auto simp: f64_div_fin_def f64_sign_inf_def f64_le_def)

lemma f64_max_nonpos: "f64_le a (Fin 0) \<Longrightarrow> f64_max a (Fin 0) = Fin 0"
  by (cases a) (auto simp: f64_max_def f64_le_def)

subsection \<open>The total order\<close>

text \<open>\<open>total_cmp\<close> is a linear order on the numbers: \<open>NaN\<close> is above everything.\<close>

instantiation f64 :: linorder
begin

definition less_f64 :: "f64 \<Rightarrow> f64 \<Rightarrow> bool" where
  "less_f64 a b \<longleftrightarrow> (if b = NaN then a \<noteq> NaN else f64_lt a b)"

definition less_eq_f64 :: "f64 \<Rightarrow> f64 \<Rightarrow> bool" where
  "less_eq_f64 a b \<longleftrightarrow> a < b \<or> a = (b :: f64)"

instance
proof
  fix x y z :: f64
  show "(x < y) = (x \<le> y \<and> \<not> y \<le> x)"
    by (cases x; cases y) (auto simp: less_f64_def less_eq_f64_def)
  show "x \<le> x" by (simp add: less_eq_f64_def)
  show "x \<le> z" if "x \<le> y" "y \<le> z"
    using that by (cases x; cases y; cases z) (auto simp: less_f64_def less_eq_f64_def split: if_splits)
  show "x = y" if "x \<le> y" "y \<le> x"
    using that by (cases x; cases y) (auto simp: less_f64_def less_eq_f64_def split: if_splits)
  show "x \<le> y \<or> y \<le> x"
    by (cases x; cases y) (auto simp: less_f64_def less_eq_f64_def)
qed

end

end
