(* ===== verification/Json.thy ===== *)
theory Json
  imports F64 Store
begin

text \<open>
  JSON values (\<open>serde_json::Value\<close>) with the accessors the sources call on them. A number is an
  integer or a double, as the crate keeps it; objects keep their keys sorted.
\<close>

datatype json =
    JNull | JBool bool | JInt int | JFloat f64 | JStr string
  | JArr "json list" | JObj "(string \<times> json) list"

fun json_get :: "string \<Rightarrow> json \<Rightarrow> json option" where
  "json_get k (JObj m) = map_of m k"
| "json_get k _ = None"

fun as_str :: "json \<Rightarrow> string option" where
  "as_str (JStr s) = Some s"
| "as_str _ = None"

fun as_bool :: "json \<Rightarrow> bool option" where
  "as_bool (JBool b) = Some b"
| "as_bool _ = None"

fun as_i64 :: "json \<Rightarrow> int option" where
  "as_i64 (JInt i) = (if - (2 ^ 63) \<le> i \<and> i < 2 ^ 63 then Some i else None)"
| "as_i64 _ = None"

fun as_u64 :: "json \<Rightarrow> int option" where
  "as_u64 (JInt i) = (if 0 \<le> i \<and> i < 2 ^ 64 then Some i else None)"
| "as_u64 _ = None"

fun as_f64 :: "json \<Rightarrow> f64 option" where
  "as_f64 (JInt i) = Some (round64 (of_int i))"
| "as_f64 (JFloat x) = Some x"
| "as_f64 _ = None"

fun as_array :: "json \<Rightarrow> json list option" where
  "as_array (JArr l) = Some l"
| "as_array _ = None"

fun as_object :: "json \<Rightarrow> (string \<times> json) list option" where
  "as_object (JObj m) = Some m"
| "as_object _ = None"

definition get_str :: "string \<Rightarrow> json \<Rightarrow> string option" where
  "get_str k v = Option.bind (json_get k v) as_str"

text \<open>\<open>v.get(k).and_then(|v| v.as_str()).unwrap_or(d)\<close>.\<close>

definition get_str_or :: "string \<Rightarrow> string \<Rightarrow> json \<Rightarrow> string" where
  "get_str_or k d v = (case get_str k v of Some s \<Rightarrow> s | None \<Rightarrow> d)"

lemmas json_access = get_str_def get_str_or_def Option.bind_def

end
