(* ===== verification/Ws_Manager.thy ===== *)
theory Ws_Manager
  imports Middleware Json
begin

text \<open>
  The WebSocket manager of \<open>crates/server/src/ws_handler.rs\<close>: the table of connected clients, the
  connection counts per address, the broadcast, the gate of the upgrade and the subscription message.
  A client's channel is its queue of undelivered texts with the capacity and whether the receiving task
  still runs. JSON encoding and decoding are parameters. The two locks of the manager are always
  taken in the same order and released together, so every operation is one step.
\<close>

definition MAX_WS_CONNS_PER_IP :: nat where "MAX_WS_CONNS_PER_IP = 10"

record ws_message =
  wm_type :: string
  wm_node_id :: "string option"
  wm_job_id :: "string option"
  wm_payload :: "json option"

definition empty_message :: ws_message where
  "empty_message = \<lparr>wm_type = [], wm_node_id = None, wm_job_id = None, wm_payload = None\<rparr>"

text \<open>The serialisation of a message: absent fields are skipped.\<close>

definition message_json :: "ws_message \<Rightarrow> json" where
  "message_json w =
     JObj ([(''type'', JStr (wm_type w))]
       @ (case wm_node_id w of Some n \<Rightarrow> [(''node_id'', JStr n)] | None \<Rightarrow> [])
       @ (case wm_job_id w of Some j \<Rightarrow> [(''job_id'', JStr j)] | None \<Rightarrow> [])
       @ (case wm_payload w of Some p \<Rightarrow> [(''payload'', p)] | None \<Rightarrow> []))"

record client_handle =
  ch_queue :: "string list"
  ch_capacity :: nat
  ch_open :: bool
  ch_node_filter :: "string option"
  ch_ip :: "string option"

record ws_manager =
  ws_clients :: "(string, client_handle) kmap"
  ws_ip_counts :: "(string, nat) kmap"

definition ws_new :: ws_manager where "ws_new = \<lparr>ws_clients = [], ws_ip_counts = []\<rparr>"

text \<open>\<open>mpsc::channel\<close> and \<open>try_send\<close>.\<close>

datatype try_send_error = Full | Closed

definition try_send :: "string \<Rightarrow> client_handle \<Rightarrow> try_send_error + client_handle" where
  "try_send message c =
     (if \<not> ch_open c then Inl Closed
      else if ch_capacity c \<le> length (ch_queue c) then Inl Full
      else Inr (c\<lparr>ch_queue := ch_queue c @ [message]\<rparr>))"

definition ws_register :: "string \<Rightarrow> nat \<Rightarrow> string option \<Rightarrow> ws_manager \<Rightarrow> ws_manager" where
  "ws_register client_id capacity ip W =
     (let W = W\<lparr>ws_clients := kput client_id \<lparr>ch_queue = [], ch_capacity = capacity, ch_open = True,
                  ch_node_filter = None, ch_ip = ip\<rparr> (ws_clients W)\<rparr>
      in case ip of
           Some a \<Rightarrow> W\<lparr>ws_ip_counts := kput a (Suc (case kget (ws_ip_counts W) a of Some n \<Rightarrow> n | None \<Rightarrow> 0))
                         (ws_ip_counts W)\<rparr>
         | None \<Rightarrow> W)"

definition ws_unregister :: "string \<Rightarrow> ws_manager \<Rightarrow> ws_manager" where
  "ws_unregister client_id W =
     (case kget (ws_clients W) client_id of
        None \<Rightarrow> W
      | Some handle \<Rightarrow>
          let W = W\<lparr>ws_clients := kdel client_id (ws_clients W)\<rparr>
          in case ch_ip handle of
               None \<Rightarrow> W
             | Some a \<Rightarrow>
                 (case kget (ws_ip_counts W) a of
                    None \<Rightarrow> W
                  | Some c \<Rightarrow> if c - 1 = 0 then W\<lparr>ws_ip_counts := kdel a (ws_ip_counts W)\<rparr>
                              else W\<lparr>ws_ip_counts := kput a (c - 1) (ws_ip_counts W)\<rparr>))"

definition ip_conn_count :: "string \<Rightarrow> ws_manager \<Rightarrow> nat" where
  "ip_conn_count ip W = (case kget (ws_ip_counts W) ip of Some n \<Rightarrow> n | None \<Rightarrow> 0)"

definition ws_len :: "ws_manager \<Rightarrow> nat" where "ws_len W = length (ws_clients W)"

text \<open>The walk of \<open>broadcast\<close> over the clients, and the removal of the dead ones after it.\<close>

definition skipped :: "string option \<Rightarrow> client_handle \<Rightarrow> bool" where
  "skipped flt c \<longleftrightarrow>
     (case flt of Some node \<Rightarrow> (case ch_node_filter c of Some f \<Rightarrow> f \<noteq> node | None \<Rightarrow> False) | None \<Rightarrow> False)"

fun broadcast_loop ::
  "string \<Rightarrow> string option \<Rightarrow> (string, client_handle) kmap \<Rightarrow> (string, client_handle) kmap \<times> string list" where
  "broadcast_loop message flt [] = ([], [])"
| "broadcast_loop message flt ((i, c) # cs) =
     (let (cs', dead) = broadcast_loop message flt cs
      in if skipped flt c then ((i, c) # cs', dead)
         else case try_send message c of
                Inr c' \<Rightarrow> ((i, c') # cs', dead)
              | Inl _ \<Rightarrow> ((i, c) # cs', i # dead))"

definition broadcast :: "string \<Rightarrow> string option \<Rightarrow> ws_manager \<Rightarrow> ws_manager" where
  "broadcast message flt W =
     (let (clients, dead) = broadcast_loop message flt (ws_clients W)
      in W\<lparr>ws_clients := foldl (\<lambda>m i. kdel i m) clients dead\<rparr>)"

definition push_metrics :: "string \<Rightarrow> string \<Rightarrow> ws_manager \<Rightarrow> ws_manager" where
  "push_metrics node_id metrics W = broadcast metrics (Some node_id) W"

definition push_job_update :: "(json \<Rightarrow> string) \<Rightarrow> string \<Rightarrow> ws_manager \<Rightarrow> ws_manager" where
  "push_job_update to_string jid W =
     broadcast (to_string (message_json (empty_message\<lparr>wm_type := ''job_update'', wm_job_id := Some jid\<rparr>))) None W"

definition push_alert :: "string \<Rightarrow> ws_manager \<Rightarrow> ws_manager" where
  "push_alert alert W = broadcast alert None W"

text \<open>The gate of the upgrade: authorisation, the cap per address, the cap on all clients. The query
  parameter is consulted when there is no bearer header.\<close>

definition ws_upgrade ::
  "crypto \<Rightarrow> time \<Rightarrow> server_config \<Rightarrow> string \<Rightarrow> string option \<Rightarrow> string option \<Rightarrow> string \<Rightarrow> ws_manager
    \<Rightarrow> (status_code \<times> string) + unit" where
  "ws_upgrade C now cfg jwt_secret authorization token_param client_ip W =
     (let token = (case authorization of
                     Some h \<Rightarrow> if take 7 h = ''Bearer '' then Some (drop 7 h) else token_param
                   | None \<Rightarrow> token_param);
          authorized = (case token of Some t \<Rightarrow> validate_token C t jwt_secret now \<noteq> None | None \<Rightarrow> False)
      in if sc_auth_required cfg \<and> \<not> authorized then Inl (Unauthorized401, ''missing or invalid token'')
         else if MAX_WS_CONNS_PER_IP \<le> ip_conn_count client_ip W
         then Inl (TooMany429, ''too many websocket connections from this address'')
         else if 0 < sc_max_concurrent_ws_clients cfg \<and> unat (sc_max_concurrent_ws_clients cfg) \<le> ws_len W
         then Inl (Unavailable503, ''too many websocket clients'')
         else Inr ())"

text \<open>The start of the connection task, the delivery of a queued text to the socket, and the message
  that sets the filter of a client.\<close>

definition ws_connect :: "server_config \<Rightarrow> string \<Rightarrow> string \<Rightarrow> ws_manager \<Rightarrow> ws_manager" where
  "ws_connect cfg client_id client_ip W =
     ws_register client_id (max (unat (sc_ws_max_backlog cfg)) 1) (Some client_ip) W"

definition ws_deliver :: "string \<Rightarrow> ws_manager \<Rightarrow> string option \<times> ws_manager" where
  "ws_deliver client_id W =
     (case kget (ws_clients W) client_id of
        None \<Rightarrow> (None, W)
      | Some c \<Rightarrow>
          (case ch_queue c of
             [] \<Rightarrow> (None, W)
           | t # q \<Rightarrow> (Some t, W\<lparr>ws_clients := kput client_id (c\<lparr>ch_queue := q\<rparr>) (ws_clients W)\<rparr>)))"

definition handle_message ::
  "(json \<Rightarrow> string) \<Rightarrow> (string \<Rightarrow> string option option) \<Rightarrow> string \<Rightarrow> string \<Rightarrow> ws_manager \<Rightarrow> ws_manager" where
  "handle_message to_string from_str client_id txt W =
     (case from_str txt of
        None \<Rightarrow> W
      | Some node_id \<Rightarrow>
          (case kget (ws_clients W) client_id of
             None \<Rightarrow> W
           | Some c \<Rightarrow>
               let c = c\<lparr>ch_node_filter := (if node_id = Some [] then None else node_id)\<rparr>;
                   msg = to_string (message_json (empty_message\<lparr>wm_type := ''subscribed''\<rparr>));
                   c = (case try_send msg c of Inr c' \<Rightarrow> c' | Inl _ \<Rightarrow> c)
               in W\<lparr>ws_clients := kput client_id c (ws_clients W)\<rparr>))"

subsection \<open>What a broadcast does to each client\<close>

definition offered :: "string \<Rightarrow> string option \<Rightarrow> client_handle \<Rightarrow> client_handle option" where
  "offered message flt c =
     (if skipped flt c then Some c else case try_send message c of Inr c' \<Rightarrow> Some c' | Inl _ \<Rightarrow> None)"

lemma broadcast_loop_keys: "map fst (fst (broadcast_loop message flt cs)) = map fst cs"
  by (induction message flt cs rule: broadcast_loop.induct) (auto simp: split_beta Let_def split: sum.split)

lemma broadcast_loop_dead:
  "i \<in> set (snd (broadcast_loop message flt cs)) \<longleftrightarrow> (\<exists>c. (i, c) \<in> set cs \<and> offered message flt c = None)"
  by (induction message flt cs rule: broadcast_loop.induct)
     (auto simp: split_beta Let_def offered_def split: sum.split)

lemma broadcast_loop_get:
  "kget (fst (broadcast_loop message flt cs)) i =
     map_option (\<lambda>c. case offered message flt c of Some c' \<Rightarrow> c' | None \<Rightarrow> c) (kget cs i)"
  by (induction message flt cs rule: broadcast_loop.induct)
     (auto simp: split_beta Let_def offered_def kget_def split: sum.split)

lemma kget_foldl_kdel: "kget (foldl (\<lambda>m i. kdel i m) m ds) k = (if k \<in> set ds then None else kget m k)"
  by (induction ds arbitrary: m) (auto simp: kget_kdel)

lemma kwf_foldl_kdel: "kwf m \<Longrightarrow> kwf (foldl (\<lambda>m i. kdel i m) m ds)"
  by (induction ds arbitrary: m) auto

lemma broadcast_get:
  assumes "kwf (ws_clients W)"
  shows "kget (ws_clients (broadcast message flt W)) i = Option.bind (kget (ws_clients W) i) (offered message flt)"
  using assms
  by (cases "kget (ws_clients W) i")
     (auto simp: broadcast_def split_beta Let_def kget_foldl_kdel broadcast_loop_get broadcast_loop_dead
        kget_mem [symmetric] split: option.split)

lemma broadcast_wf:
  assumes "kwf (ws_clients W)"
  shows "kwf (ws_clients (broadcast message flt W))"
proof -
  have "kwf (fst (broadcast_loop message flt (ws_clients W)))"
    using assms by (simp add: kwf_def broadcast_loop_keys)
  then show ?thesis by (simp add: broadcast_def split_beta Let_def kwf_foldl_kdel)
qed

lemma broadcast_counts [simp]: "ws_ip_counts (broadcast message flt W) = ws_ip_counts W"
  by (simp add: broadcast_def split_beta Let_def)

text \<open>A broadcast reaches exactly the clients it is for: a client that filters on another node is left
  alone, one whose channel is open and has room gets the text once, behind the ones already queued,
  and one that is closed or full is taken off the table; nothing else of any client changes.\<close>

lemma broadcast_delivery:
  assumes "kwf (ws_clients W)"
  shows "kget (ws_clients (broadcast message flt W)) i =
    (case kget (ws_clients W) i of
       None \<Rightarrow> None
     | Some c \<Rightarrow>
         if (\<exists>node f. flt = Some node \<and> ch_node_filter c = Some f \<and> f \<noteq> node) then Some c
         else if ch_open c \<and> length (ch_queue c) < ch_capacity c
         then Some (c\<lparr>ch_queue := ch_queue c @ [message]\<rparr>) else None)"
proof (cases "kget (ws_clients W) i")
  case (Some c)
  have "skipped flt c \<longleftrightarrow> (\<exists>node f. flt = Some node \<and> ch_node_filter c = Some f \<and> f \<noteq> node)"
    by (auto simp: skipped_def split: option.splits)
  then show ?thesis using Some assms by (auto simp: broadcast_get offered_def try_send_def)
qed (simp add: broadcast_get [OF assms])

subsection \<open>Connections per address\<close>

definition from_ip :: "string \<Rightarrow> string \<times> client_handle \<Rightarrow> nat" where
  "from_ip a e = (if ch_ip (snd e) = Some a then 1 else 0)"

definition live :: "string \<Rightarrow> ws_manager \<Rightarrow> nat" where
  "live a W = sum_list (map (from_ip a) (ws_clients W))"

lemma weight_kput_same:
  "kwf m \<Longrightarrow> kget m k = Some v' \<Longrightarrow> w (k, v) = w (k, v') \<Longrightarrow>
   sum_list (map w (kput k v m)) = (sum_list (map w m) :: nat)"
  by (induction k v m rule: kput.induct) (force simp: kget_def kwf_Cons dest: map_of_SomeD split: if_splits)+

lemma weight_kdel_le: "sum_list (map w (kdel k m)) \<le> (sum_list (map w m) :: nat)"
  unfolding kdel_def by (induction m) auto

lemma weight_foldl_kdel_le: "sum_list (map w (foldl (\<lambda>m i. kdel i m) m ds)) \<le> (sum_list (map w m) :: nat)"
  by (induction ds arbitrary: m) (auto intro: le_trans [OF _ weight_kdel_le])

lemma try_send_ip: "try_send message c = Inr c' \<Longrightarrow> ch_ip c' = ch_ip c"
  by (auto simp: try_send_def split: if_splits)

lemma broadcast_loop_live:
  "map (from_ip a) (fst (broadcast_loop message flt cs)) = map (from_ip a) cs"
  by (induction message flt cs rule: broadcast_loop.induct)
     (auto simp: split_beta Let_def from_ip_def try_send_ip split: sum.split)

lemma live_broadcast: "live a (broadcast message flt W) \<le> live a W"
proof -
  have "live a (broadcast message flt W) \<le> sum_list (map (from_ip a) (fst (broadcast_loop message flt (ws_clients W))))"
    by (simp add: live_def broadcast_def split_beta Let_def weight_foldl_kdel_le)
  then show ?thesis by (simp add: broadcast_loop_live live_def)
qed

lemma live_put_same:
  assumes "kwf (ws_clients W)" "kget (ws_clients W) i = Some c" "ch_ip c' = ch_ip c"
  shows "live a (W\<lparr>ws_clients := kput i c' (ws_clients W)\<rparr>) = live a W"
  using weight_kput_same [OF assms(1,2), of "from_ip a" c'] assms(3) by (simp add: live_def from_ip_def)

lemma live_register:
  assumes "kwf (ws_clients W)" "kget (ws_clients W) i = None"
  shows "live a (ws_register i n (Some b) W) = (if a = b then 1 else 0) + live a W"
  using km.weight_put_fresh [OF assms, of "from_ip a"]
  by (simp add: live_def ws_register_def Let_def from_ip_def)

lemma count_register:
  "ip_conn_count a (ws_register i n (Some b) W) = (if a = b then 1 else 0) + ip_conn_count a W"
  by (simp add: ip_conn_count_def ws_register_def Let_def store_simps split: option.split)

lemma unregister_None [simp]: "kget (ws_clients W) i = None \<Longrightarrow> ws_unregister i W = W"
  by (simp add: ws_unregister_def)

lemma clients_unregister [simp]:
  "ws_clients (ws_unregister i W) = (if kget (ws_clients W) i = None then ws_clients W else kdel i (ws_clients W))"
  by (simp add: ws_unregister_def Let_def split: option.split)

lemma live_unregister:
  assumes "kwf (ws_clients W)" "kget (ws_clients W) i = Some c"
  shows "live a W = (if ch_ip c = Some a then 1 else 0) + live a (ws_unregister i W)"
  using km.weight_del [OF assms, of "from_ip a"] assms(2) by (simp add: live_def from_ip_def)

lemma count_unregister:
  assumes "kget (ws_clients W) i = Some c" "\<forall>b. ch_ip c = Some b \<longrightarrow> 0 < ip_conn_count b W"
  shows "ip_conn_count a (ws_unregister i W) = ip_conn_count a W - (if ch_ip c = Some a then 1 else 0)"
  using assms
  by (cases "ch_ip c")
     (auto simp: ws_unregister_def Let_def ip_conn_count_def store_simps split: option.splits)

text \<open>
  The connections as a system. An upgrade first passes the gate and registers later, when the
  handshake is done, so a state is the manager with the addresses of the upgrades in flight; at most
  \<open>K\<close> of one address are in flight at a time. A task may end, which closes its channel, before it
  unregisters.
\<close>

inductive ws_step :: "nat \<Rightarrow> server_config \<Rightarrow> ws_manager \<times> string list \<Rightarrow> ws_manager \<times> string list \<Rightarrow> bool"
  for K cfg where
  gate: "ws_upgrade C now cfg secret auth tok a W = Inr () \<Longrightarrow> count_list pend a < K \<Longrightarrow>
    ws_step K cfg (W, pend) (W, a # pend)"
| connect: "a \<in> set pend \<Longrightarrow> kget (ws_clients W) i = None \<Longrightarrow>
    ws_step K cfg (W, pend) (ws_connect cfg i a W, remove1 a pend)"
| abandon: "ws_step K cfg (W, pend) (W, remove1 a pend)"
| sent: "ws_step K cfg (W, pend) (broadcast m f W, pend)"
| delivered: "ws_step K cfg (W, pend) (snd (ws_deliver i W), pend)"
| subscribed: "ws_step K cfg (W, pend) (handle_message ts fs i txt W, pend)"
| ended: "kget (ws_clients W) i = Some c \<Longrightarrow>
    ws_step K cfg (W, pend) (W\<lparr>ws_clients := kput i (c\<lparr>ch_open := False\<rparr>) (ws_clients W)\<rparr>, pend)"
| left: "ws_step K cfg (W, pend) (ws_unregister i W, pend)"

definition client_ok :: "client_handle \<Rightarrow> bool" where
  "client_ok c \<longleftrightarrow> 0 < ch_capacity c \<and> length (ch_queue c) \<le> ch_capacity c"

definition ws_wf :: "ws_manager \<Rightarrow> bool" where
  "ws_wf W \<longleftrightarrow> kwf (ws_clients W) \<and> (\<forall>a. live a W \<le> ip_conn_count a W) \<and>
     (\<forall>i c. kget (ws_clients W) i = Some c \<longrightarrow> client_ok c)"

definition ws_inv :: "nat \<Rightarrow> ws_manager \<times> string list \<Rightarrow> bool" where
  "ws_inv K s \<longleftrightarrow> ws_wf (fst s) \<and> (\<forall>a. ip_conn_count a (fst s) + count_list (snd s) a \<le> 9 + K)"

lemma client_ok_send: "client_ok c \<Longrightarrow> try_send m c = Inr c' \<Longrightarrow> client_ok c'"
  by (auto simp: client_ok_def try_send_def split: if_splits)

lemma client_count_pos:
  assumes "ws_wf W" "kget (ws_clients W) i = Some c" "ch_ip c = Some b"
  shows "0 < ip_conn_count b W"
proof -
  have "0 < live b W" using live_unregister [of W i c b] assms by (simp add: ws_wf_def)
  then show ?thesis using assms(1) by (metis ws_wf_def less_le_trans)
qed

lemma put_client_wf:
  assumes "ws_wf W" "kget (ws_clients W) i = Some c" "ch_ip c' = ch_ip c" "client_ok c'"
  shows "ws_wf (W\<lparr>ws_clients := kput i c' (ws_clients W)\<rparr>)"
  using assms live_put_same [OF _ assms(2,3)]
  by (auto simp: ws_wf_def ip_conn_count_def store_simps)

lemma register_wf:
  assumes "ws_wf W" "kget (ws_clients W) i = None"
  shows "ws_wf (ws_connect cfg i a W)"
proof -
  have "\<forall>j c. kget (ws_clients (ws_connect cfg i a W)) j = Some c \<longrightarrow> client_ok c"
    using assms by (auto simp: ws_wf_def ws_connect_def ws_register_def Let_def store_simps client_ok_def)
  moreover have "kwf (ws_clients (ws_connect cfg i a W))"
    using assms by (auto simp: ws_wf_def ws_connect_def ws_register_def Let_def)
  ultimately show ?thesis
    using assms by (auto simp: ws_wf_def ws_connect_def live_register count_register)
qed

lemma count_broadcast [simp]: "ip_conn_count a (broadcast m f W) = ip_conn_count a W"
  by (simp add: ip_conn_count_def)

lemma broadcast_client_ok:
  assumes "ws_wf W" "kget (ws_clients (broadcast m f W)) i = Some c'"
  shows "client_ok c'"
proof -
  obtain c where "kget (ws_clients W) i = Some c" "offered m f c = Some c'"
    using assms by (auto simp: ws_wf_def broadcast_get bind_eq_Some_conv)
  then show ?thesis
    using assms(1) by (auto simp: ws_wf_def offered_def intro: client_ok_send split: if_splits sum.splits)
qed

lemma broadcast_ws_wf: "ws_wf W \<Longrightarrow> ws_wf (broadcast m f W)"
  using broadcast_client_ok [of W m f] le_trans [OF live_broadcast]
  by (auto simp: ws_wf_def broadcast_wf)

lemma count_unregister_wf:
  assumes "ws_wf W" "kget (ws_clients W) i = Some c"
  shows "ip_conn_count a (ws_unregister i W) = ip_conn_count a W - (if ch_ip c = Some a then 1 else 0)"
  using assms by (intro count_unregister) (auto intro: client_count_pos)

lemma unregister_wf:
  assumes "ws_wf W"
  shows "ws_wf (ws_unregister i W)"
proof (cases "kget (ws_clients W) i")
  case (Some c)
  have "live a (ws_unregister i W) \<le> ip_conn_count a (ws_unregister i W)" for a
  proof -
    have "live a W \<le> ip_conn_count a W" using assms by (simp add: ws_wf_def)
    then show ?thesis
      using assms live_unregister [OF _ Some, of a] count_unregister_wf [OF assms Some, of a]
      by (auto simp: ws_wf_def split: if_splits)
  qed
  then show ?thesis using assms Some by (auto simp: ws_wf_def store_simps)
qed (use assms in simp)

text \<open>Delivery, subscription and the end of a task replace a client by one from the same address.\<close>

definition client_swapped :: "ws_manager \<Rightarrow> ws_manager \<Rightarrow> bool" where
  "client_swapped W V \<longleftrightarrow> V = W \<or>
     (\<exists>i c c'. kget (ws_clients W) i = Some c \<and> ch_ip c' = ch_ip c \<and> (client_ok c \<longrightarrow> client_ok c') \<and>
        V = W\<lparr>ws_clients := kput i c' (ws_clients W)\<rparr>)"

lemma client_swappedI:
  "kget (ws_clients W) i = Some c \<Longrightarrow> ch_ip c' = ch_ip c \<Longrightarrow> (client_ok c \<Longrightarrow> client_ok c') \<Longrightarrow>
   client_swapped W (W\<lparr>ws_clients := kput i c' (ws_clients W)\<rparr>)"
  unfolding client_swapped_def by blast

lemma client_swapped_refl [simp]: "client_swapped W W"
  by (simp add: client_swapped_def)

lemma swapped_deliver: "client_swapped W (snd (ws_deliver i W))"
proof (cases "kget (ws_clients W) i")
  case (Some c)
  then show ?thesis
    by (cases "ch_queue c") (auto simp: ws_deliver_def client_ok_def intro: client_swappedI)
qed (simp add: ws_deliver_def)

lemma swapped_message: "client_swapped W (handle_message ts fs i txt W)"
proof (cases "fs txt = None \<or> kget (ws_clients W) i = None")
  case True
  then show ?thesis by (auto simp: client_swapped_def handle_message_def split: option.splits)
next
  case False
  then obtain n c where *: "fs txt = Some n" "kget (ws_clients W) i = Some c" by auto
  let ?c = "c\<lparr>ch_node_filter := (if n = Some [] then None else n)\<rparr>"
  let ?d = "case try_send (ts (message_json (empty_message\<lparr>wm_type := ''subscribed''\<rparr>))) ?c of Inr d \<Rightarrow> d | Inl _ \<Rightarrow> ?c"
  have "ch_ip ?d = ch_ip c" "client_ok c \<longrightarrow> client_ok ?d"
    by (auto simp: try_send_def client_ok_def)
  moreover have "handle_message ts fs i txt W = W\<lparr>ws_clients := kput i ?d (ws_clients W)\<rparr>"
    using * by (simp add: handle_message_def Let_def)
  ultimately show ?thesis using *(2) client_swappedI by metis
qed

lemma swapped_ended:
  "kget (ws_clients W) i = Some c \<Longrightarrow>
   client_swapped W (W\<lparr>ws_clients := kput i (c\<lparr>ch_open := False\<rparr>) (ws_clients W)\<rparr>)"
  by (rule client_swappedI) (auto simp: client_ok_def)

lemma swapped_wf: "client_swapped W V \<Longrightarrow> ws_wf W \<Longrightarrow> ws_wf V"
  unfolding client_swapped_def by (metis put_client_wf ws_wf_def)

lemma swapped_live: "client_swapped W V \<Longrightarrow> ws_wf W \<Longrightarrow> live a V = live a W"
  unfolding client_swapped_def by (metis live_put_same ws_wf_def)

lemma swapped_count: "client_swapped W V \<Longrightarrow> ip_conn_count a V = ip_conn_count a W"
  by (auto simp: client_swapped_def ip_conn_count_def)

lemma count_list_remove1: "count_list (remove1 x xs) a = count_list xs a - (if a = x then 1 else 0)"
proof (induction xs)
  case (Cons y xs)
  show ?case
  proof (cases "x \<in> set xs")
    case True
    then have "0 < count_list xs x" by (metis count_list_0_iff gr0I)
    with Cons show ?thesis by auto
  next
    case False
    then show ?thesis by (auto simp: remove1_idem)
  qed
qed simp

lemma ws_inv_swapped: "ws_inv K (W, pend) \<Longrightarrow> client_swapped W V \<Longrightarrow> ws_inv K (V, pend)"
  by (simp add: ws_inv_def swapped_wf swapped_count)

lemma ws_inv_less:
  assumes "ws_inv K (W, pend)" "ws_wf V"
    and "\<And>a. ip_conn_count a V + count_list pend' a \<le> ip_conn_count a W + count_list pend a"
  shows "ws_inv K (V, pend')"
proof -
  have "ip_conn_count a V + count_list pend' a \<le> 9 + K" for a
    using assms(1) assms(3) [of a] by (auto simp: ws_inv_def intro: le_trans)
  with assms(2) show ?thesis by (simp add: ws_inv_def)
qed

lemma ws_step_inv:
  assumes "ws_step K cfg s t" "ws_inv K s"
  shows "ws_inv K t"
  using assms
proof cases
  case (gate C now secret auth tok a W pend)
  then have "ip_conn_count a W \<le> 9"
    by (simp add: ws_upgrade_def Let_def MAX_WS_CONNS_PER_IP_def split: if_splits)
  then show ?thesis using gate assms(2) by (auto simp: ws_inv_def)
next
  case (connect a pend W i)
  then have "0 < count_list pend a" by (metis count_list_0_iff gr0I)
  then have "ip_conn_count b (ws_connect cfg i a W) + count_list (remove1 a pend) b
      \<le> ip_conn_count b W + count_list pend b" for b
    by (auto simp: count_register ws_connect_def count_list_remove1)
  moreover have "ws_wf (ws_connect cfg i a W)" using connect assms(2) by (simp add: ws_inv_def register_wf)
  ultimately show ?thesis using connect(1,2) assms(2) ws_inv_less by blast
next
  case (abandon W pend a)
  moreover have "ip_conn_count b W + count_list (remove1 a pend) b \<le> ip_conn_count b W + count_list pend b" for b
    by (simp add: count_list_remove1)
  ultimately show ?thesis using assms(2) ws_inv_less [of K W pend W "remove1 a pend"] by (simp add: ws_inv_def)
next
  case (sent W pend m f)
  then show ?thesis using assms(2) broadcast_ws_wf by (auto simp: ws_inv_def)
next
  case (left W pend i)
  have "ip_conn_count a (ws_unregister i W) \<le> ip_conn_count a W" for a
    using left assms(2) count_unregister_wf [of W i _ a]
    by (cases "kget (ws_clients W) i") (auto simp: ws_inv_def)
  moreover have "ws_wf (ws_unregister i W)" using left assms(2) by (simp add: ws_inv_def unregister_wf)
  ultimately show ?thesis using left(1,2) assms(2) ws_inv_less [of K W pend _ pend] by simp
qed (use assms(2) in \<open>auto intro: ws_inv_swapped swapped_deliver swapped_message swapped_ended\<close>)

interpretation ws: safe_system "\<lambda>s. s = (ws_new, [])" "ws_step K cfg" "ws_inv K" for K cfg
proof unfold_locales
  show "ws_inv K s" if "s = (ws_new, [])" for s
    using that by (simp add: ws_inv_def ws_wf_def ws_new_def live_def ip_conn_count_def store_simps)
qed (rule ws_step_inv)

text \<open>C40. Connections per address. However connections open, close, fall behind or fail, while at most \<open>K\<close> upgrades
  of one address are in flight at a time no address ever holds more than \<open>9 + K\<close> live
  connections (ten, when upgrades of an address do not overlap), counted by the manager with the
  upgrades in flight, and no client's queue exceeds its capacity.\<close>

theorem ws_connections_bounded:
  assumes "reach (\<lambda>s. s = (ws_new, [])) (ws_step K cfg) (W, pend)"
  shows "live a W \<le> ip_conn_count a W \<and> ip_conn_count a W + count_list pend a \<le> 9 + K \<and>
    (\<forall>i c. kget (ws_clients W) i = Some c \<longrightarrow> length (ch_queue c) \<le> ch_capacity c)"
  using ws.reach_inv [OF assms] by (auto simp: ws_inv_def ws_wf_def client_ok_def)

subsection \<open>Slots that never come back\<close>

definition leaked :: "string \<Rightarrow> ws_manager \<Rightarrow> nat" where "leaked a W = ip_conn_count a W - live a W"

lemma leaked_swapped: "client_swapped W V \<Longrightarrow> ws_wf W \<Longrightarrow> leaked a V = leaked a W"
  by (simp add: leaked_def swapped_live swapped_count)

lemma leaked_mono:
  assumes "ws_step K cfg s t" "ws_inv K s"
  shows "leaked a (fst s) \<le> leaked a (fst t)"
  using assms(1)
proof cases
  case (connect b pend W i)
  then show ?thesis using assms(2)
    by (simp add: leaked_def ws_inv_def ws_wf_def ws_connect_def live_register count_register)
next
  case (sent W pend m f)
  then show ?thesis using live_broadcast [of a m f W] by (simp add: leaked_def)
next
  case (left W pend i)
  then show ?thesis using assms(2) live_unregister [of W i _ a] count_unregister_wf [of W i _ a]
    by (cases "kget (ws_clients W) i") (auto simp: leaked_def ws_inv_def ws_wf_def)
qed (use assms(2) leaked_swapped [OF swapped_deliver] leaked_swapped [OF swapped_message]
      leaked_swapped [OF swapped_ended] in \<open>auto simp: ws_inv_def\<close>)

lemma leaked_run_mono:
  assumes "(ws_step K cfg)\<^sup>*\<^sup>* s t" "ws_inv K s"
  shows "leaked a (fst s) \<le> leaked a (fst t)"
  using assms
proof (induction rule: rtranclp_induct)
  case (step u v)
  then show ?case using leaked_mono [of K cfg u v a] ws.run_inv [of K cfg s u] le_trans by blast
qed simp

definition drained :: "string \<Rightarrow> nat \<Rightarrow> ws_manager" where
  "drained a n = \<lparr>ws_clients = [], ws_ip_counts = (if n = 0 then [] else [(a, n)])\<rparr>"

text \<open>One client of the address connects, its task ends, and a broadcast finds the channel closed before
  the task has unregistered.\<close>

lemma leak_one:
  assumes "\<not> sc_auth_required cfg" "n < 10"
    and "reach (\<lambda>s. s = (ws_new, [])) (ws_step 1 cfg) (drained a n, [])"
  shows "reach (\<lambda>s. s = (ws_new, [])) (ws_step 1 cfg) (drained a (Suc n), [])"
proof -
  define c where "c = \<lparr>ch_queue = [], ch_capacity = max (unat (sc_ws_max_backlog cfg)) 1, ch_open = True,
    ch_node_filter = None, ch_ip = Some a\<rparr>"
  define V where "V = \<lparr>ws_clients = [(''c'', c)], ws_ip_counts = [(a, Suc n)]\<rparr>"
  have "ws_upgrade C now cfg s None None a (drained a n) = Inr ()" for C now s
    using assms(1,2) unat_gt_0 [of "sc_max_concurrent_ws_clients cfg"] word_gt_0
    by (auto simp: ws_upgrade_def Let_def drained_def ip_conn_count_def kget_def ws_len_def MAX_WS_CONNS_PER_IP_def)
  then have "ws_step 1 cfg (drained a n, []) (drained a n, [a])" by (intro ws_step.gate) simp_all
  moreover have "ws_connect cfg ''c'' a (drained a n) = V"
    by (simp add: ws_connect_def ws_register_def drained_def V_def c_def kget_def)
  then have "ws_step 1 cfg (drained a n, [a]) (V, [])"
    using ws_step.connect [of a "[a]" "drained a n" "''c''" 1 cfg] by (simp add: drained_def kget_def)
  moreover have "ws_step 1 cfg (V, []) (V\<lparr>ws_clients := [(''c'', c\<lparr>ch_open := False\<rparr>)]\<rparr>, [])"
    using ws_step.ended [of V "''c''" c 1 cfg "[]"] by (simp add: V_def kget_def)
  moreover have "broadcast [] None (V\<lparr>ws_clients := [(''c'', c\<lparr>ch_open := False\<rparr>)]\<rparr>) = drained a (Suc n)"
    by (simp add: broadcast_def skipped_def try_send_def V_def drained_def kdel_def)
  then have "ws_step 1 cfg (V\<lparr>ws_clients := [(''c'', c\<lparr>ch_open := False\<rparr>)]\<rparr>, []) (drained a (Suc n), [])"
    by (metis ws_step.sent)
  ultimately show ?thesis using assms(3) ws.reach_next by metis
qed

lemma drained_reachable:
  "\<not> sc_auth_required cfg \<Longrightarrow> n \<le> 10 \<Longrightarrow>
   reach (\<lambda>s. s = (ws_new, [])) (ws_step 1 cfg) (drained a n, [])"
proof (induction n)
  case 0
  then show ?case by (intro ws.reach_start) (simp add: drained_def ws_new_def)
next
  case (Suc n)
  then show ?case using leak_one [of cfg n a] by simp
qed

text \<open>A client that a broadcast drops keeps its slot for ever: the count of its address is decremented
  only by an unregistration that still finds the client. Ten such drops shut an address out: a
  state with no connection at all is reachable from the start in which, whatever happens afterwards,
  every further upgrade from that address is refused.\<close>

lemma dropped_clients_shut_address_out:
  assumes "\<not> sc_auth_required cfg"
  shows "\<exists>W. reach (\<lambda>s. s = (ws_new, [])) (ws_step 1 cfg) (W, []) \<and> ws_clients W = [] \<and>
    (\<forall>t C now secret auth tok. (ws_step 1 cfg)\<^sup>*\<^sup>* (W, []) t \<longrightarrow>
       ws_upgrade C now cfg secret auth tok a (fst t) \<noteq> Inr ())"
proof (intro exI conjI allI impI)
  let ?W = "drained a 10"
  show r: "reach (\<lambda>s. s = (ws_new, [])) (ws_step 1 cfg) (?W, [])" using drained_reachable [OF assms] by simp
  show "ws_clients ?W = []" by (simp add: drained_def)
  fix t C now secret auth tok
  assume "(ws_step 1 cfg)\<^sup>*\<^sup>* (?W, []) t"
  then have "leaked a ?W \<le> leaked a (fst t)" using leaked_run_mono [OF _ ws.reach_inv [OF r], where t = t and a = a] by simp
  moreover have "leaked a ?W = 10" by (simp add: leaked_def drained_def ip_conn_count_def kget_def live_def)
  ultimately have "10 \<le> ip_conn_count a (fst t)" by (simp add: leaked_def)
  then show "ws_upgrade C now cfg secret auth tok a (fst t) \<noteq> Inr ()"
    by (auto simp: ws_upgrade_def Let_def MAX_WS_CONNS_PER_IP_def)
qed

theorem ws_connections_bounded_witness:
  "ip_conn_count ''10.0.0.1'' (drained ''10.0.0.1'' 3) \<le> 10"
  using drained_reachable [of "default_server_config\<lparr>sc_auth_required := False\<rparr>" 3 "''10.0.0.1''"]
    ws_connections_bounded [of 1 "default_server_config\<lparr>sc_auth_required := False\<rparr>"
      "drained ''10.0.0.1'' 3" "[]" "''10.0.0.1''"]
  by simp

end
