(* ===== verification/Limiter.thy ===== *)
theory Limiter
  imports Rust_Text Store
begin

text \<open>
  The login rate limiter of \<open>crates/server/src/handlers.rs\<close>: a queue of failures per (address,
  account) pair and one queue of all attempts. \<open>sliding_window\<close> is the contract both queues satisfy;
  its client lemma bounds what any window of time can contain. Instants are arguments.
\<close>

definition LOGIN_WINDOW_SECS :: int where "LOGIN_WINDOW_SECS = 60"
definition LOGIN_MAX_ATTEMPTS :: nat where "LOGIN_MAX_ATTEMPTS = 10"
definition GLOBAL_LOGIN_WINDOW_SECS :: int where "GLOBAL_LOGIN_WINDOW_SECS = 60"
definition GLOBAL_LOGIN_MAX_ATTEMPTS :: nat where "GLOBAL_LOGIN_MAX_ATTEMPTS = 300"

text \<open>The separator is the unit separator character (1F).\<close>

definition login_key :: "string \<Rightarrow> string \<Rightarrow> string" where
  "login_key ip username = ip @ [CHR 0x1F] @ username"

record login_limiter =
  lim_attempts :: "(string, time list) kmap"
  lim_global :: "time list"

definition limiter_new :: login_limiter where "limiter_new = \<lparr>lim_attempts = [], lim_global = []\<rparr>"

text \<open>\<open>Instant::duration_since\<close> is zero for a later instant.\<close>

definition duration_since :: "time \<Rightarrow> time \<Rightarrow> int" where "duration_since now t = max 0 (now - t)"

text \<open>The loop that drops expired entries from the front of a queue.\<close>

definition expire_front :: "int \<Rightarrow> time \<Rightarrow> time list \<Rightarrow> time list" where
  "expire_front window now q = dropWhile (\<lambda>t. window < duration_since now t) q"

definition allowed :: "time \<Rightarrow> string \<Rightarrow> string \<Rightarrow> login_limiter \<Rightarrow> bool \<times> login_limiter" where
  "allowed now ip username L =
     (let key = login_key ip username;
          queue = (case kget (lim_attempts L) key of Some q \<Rightarrow> q | None \<Rightarrow> []);
          queue = expire_front (seconds LOGIN_WINDOW_SECS) now queue
      in (length queue < LOGIN_MAX_ATTEMPTS, L\<lparr>lim_attempts := kput key queue (lim_attempts L)\<rparr>))"

definition record_failure :: "time \<Rightarrow> string \<Rightarrow> string \<Rightarrow> login_limiter \<Rightarrow> login_limiter" where
  "record_failure now ip username L =
     (let key = login_key ip username;
          queue = (case kget (lim_attempts L) key of Some q \<Rightarrow> q | None \<Rightarrow> [])
      in L\<lparr>lim_attempts := kput key (queue @ [now]) (lim_attempts L)\<rparr>)"

definition global_allowed :: "time \<Rightarrow> login_limiter \<Rightarrow> bool \<times> login_limiter" where
  "global_allowed now L =
     (let attempts = expire_front (seconds GLOBAL_LOGIN_WINDOW_SECS) now (lim_global L)
      in (length attempts < GLOBAL_LOGIN_MAX_ATTEMPTS, L\<lparr>lim_global := attempts\<rparr>))"

definition record_attempt :: "time \<Rightarrow> login_limiter \<Rightarrow> login_limiter" where
  "record_attempt now L = L\<lparr>lim_global := lim_global L @ [now]\<rparr>"

definition prune_limiter :: "time \<Rightarrow> login_limiter \<Rightarrow> login_limiter" where
  "prune_limiter now L =
     L\<lparr>lim_attempts := kretain (\<lambda>_ q. q \<noteq> [] \<and> duration_since now (last q) \<le> seconds LOGIN_WINDOW_SECS)
         (lim_attempts L)\<rparr>"

subsection \<open>Sliding windows\<close>

text \<open>
  A log of instants with a check that drops what is older than the window and admits while fewer
  than the cap remain, and a recording that appends.
\<close>

locale sliding_window =
  fixes window :: int
    and cap :: nat
    and check :: "time \<Rightarrow> 's \<Rightarrow> bool \<times> 's"
    and note_one :: "time \<Rightarrow> 's \<Rightarrow> 's"
    and log_of :: "'s \<Rightarrow> time list"
  assumes window_nonneg: "0 \<le> window"
    and cap_pos: "0 < cap"
    and check_result: "fst (check now s) \<longleftrightarrow> length (expire_front window now (log_of s)) < cap"
    and check_log: "log_of (snd (check now s)) = expire_front window now (log_of s)"
    and note_log: "log_of (note_one now s) = log_of s @ [now]"
begin

text \<open>A caller that checks and, when admitted, records.\<close>

definition attempt :: "time \<Rightarrow> 's \<Rightarrow> bool \<times> 's" where
  "attempt now s = (let (ok, s') = check now s in (ok, if ok then note_one now s' else s'))"

fun admitted :: "time list \<Rightarrow> 's \<Rightarrow> time list" where
  "admitted [] s = []"
| "admitted (now # ts) s =
     (let (ok, s') = attempt now s in if ok then now # admitted ts s' else admitted ts s')"

text \<open>The log holds every admitted instant that is still inside the window of some later instant.\<close>

definition log_covers :: "time list \<Rightarrow> time \<Rightarrow> 's \<Rightarrow> bool" where
  "log_covers acc now s \<longleftrightarrow> sorted (log_of s) \<and> (\<forall>t \<in> set (log_of s). t \<le> now) \<and>
     (\<forall>lo. now - window \<le> lo \<longrightarrow> filter (\<lambda>a. lo \<le> a) acc = filter (\<lambda>a. lo \<le> a) (log_of s))"

lemma expire_filter:
  assumes "sorted q" "\<forall>t \<in> set q. t \<le> now"
  shows "expire_front window now q = filter (\<lambda>t. now - window \<le> t) q"
  using assms
proof (induction q)
  case (Cons t q)
  show ?case
  proof (cases "window < duration_since now t")
    case True
    then have "t < now - window" using window_nonneg by (auto simp: duration_since_def max_def split: if_splits)
    then show ?thesis using Cons True by (simp add: expire_front_def)
  next
    case False
    then have "now - window \<le> t" by (simp add: duration_since_def)
    moreover then have "\<forall>s \<in> set q. now - window \<le> s" using Cons.prems by auto
    ultimately show ?thesis using False by (simp add: expire_front_def)
  qed
qed (simp add: expire_front_def)

lemma covers_attempt:
  assumes "log_covers acc old s" "old \<le> now"
  shows "log_covers (if fst (attempt now s) then acc @ [now] else acc) now (snd (attempt now s))"
proof -
  have q: "expire_front window now (log_of s) = filter (\<lambda>t. now - window \<le> t) (log_of s)"
    using assms by (intro expire_filter) (auto simp: log_covers_def)
  have kept: "filter (\<lambda>a. lo \<le> a) acc = filter (\<lambda>a. lo \<le> a) (filter (\<lambda>t. now - window \<le> t) (log_of s))"
    if "now - window \<le> lo" for lo
  proof -
    have "filter (\<lambda>a. lo \<le> a) acc = filter (\<lambda>a. lo \<le> a) (log_of s)"
      using assms that by (auto simp: log_covers_def)
    also have "\<dots> = filter (\<lambda>a. lo \<le> a) (filter (\<lambda>t. now - window \<le> t) (log_of s))"
      using that by (auto simp: intro!: filter_cong)
    finally show ?thesis .
  qed
  have srt: "sorted (filter (\<lambda>t. now - window \<le> t) (log_of s))"
    and le: "\<forall>t \<in> set (log_of s). t \<le> now"
    using assms by (auto simp: log_covers_def sorted_filter [where f = id, simplified])
  show ?thesis
    using srt le kept check_log [of now s] note_log [of now] window_nonneg
    by (cases "check now s") (auto simp: attempt_def log_covers_def q sorted_append)
qed

lemma attempt_bound:
  assumes "log_covers acc old s" "old \<le> now" "fst (attempt now s)"
  shows "length (filter (\<lambda>a. now - window \<le> a) acc) < cap"
proof -
  have "expire_front window now (log_of s) = filter (\<lambda>t. now - window \<le> t) (log_of s)"
    using assms by (intro expire_filter) (auto simp: log_covers_def)
  moreover have "filter (\<lambda>a. now - window \<le> a) acc = filter (\<lambda>a. now - window \<le> a) (log_of s)"
    using assms(1,2) by (auto simp: log_covers_def)
  moreover have "fst (check now s)" using assms(3) by (auto simp: attempt_def split: prod.splits)
  ultimately show ?thesis using check_result by simp
qed

lemma admitted_bound:
  assumes "log_covers acc old s" "sorted (old # ts)" "\<forall>a \<in> set acc. a \<le> old"
    and "\<forall>t. length (filter (\<lambda>a. t - window \<le> a \<and> a \<le> t) acc) \<le> cap"
  shows "length (filter (\<lambda>a. t - window \<le> a \<and> a \<le> t) (acc @ admitted ts s)) \<le> cap"
  using assms
proof (induction ts arbitrary: acc old s)
  case (Cons now ts)
  obtain ok s' where at: "attempt now s = (ok, s')" by (cases "attempt now s")
  let ?acc = "if ok then acc @ [now] else acc"
  have le: "old \<le> now" "sorted (now # ts)" using Cons.prems(2) by auto
  have cov: "log_covers ?acc now s'" using covers_attempt [OF Cons.prems(1) le(1)] by (simp add: at)
  have "length (filter (\<lambda>a. u - window \<le> a \<and> a \<le> u) ?acc) \<le> cap" for u
  proof (cases "ok \<and> u - window \<le> now \<and> now \<le> u")
    case True
    have "length (filter (\<lambda>a. u - window \<le> a \<and> a \<le> u) acc) \<le> length (filter (\<lambda>a. now - window \<le> a) acc)"
      using True by (induction acc) auto
    also have "\<dots> < cap" using attempt_bound [OF Cons.prems(1) le(1)] True by (simp add: at)
    finally show ?thesis using True by simp
  next
    case False
    then show ?thesis using Cons.prems(4) by auto
  qed
  moreover have "\<forall>a \<in> set ?acc. a \<le> now" using Cons.prems(3) le(1) by (auto split: if_splits)
  ultimately have "length (filter (\<lambda>a. t - window \<le> a \<and> a \<le> t) (?acc @ admitted ts s')) \<le> cap"
    using Cons.IH [OF cov le(2)] by blast
  moreover have "acc @ admitted (now # ts) s = ?acc @ admitted ts s'" by (simp add: at)
  ultimately show ?case by (simp only:)
qed simp

lemma window_bound:
  assumes "log_of s = []" "sorted ts"
  shows "length (filter (\<lambda>a. t - window \<le> a \<and> a \<le> t) (admitted ts s)) \<le> cap"
proof (cases ts)
  case (Cons now ts')
  have "log_covers [] now s" using assms(1) by (simp add: log_covers_def)
  from admitted_bound [OF this, of ts t] show ?thesis using assms(2) Cons by simp
qed simp

end

subsection \<open>Both queues are sliding windows\<close>

definition failures_of :: "string \<Rightarrow> string \<Rightarrow> login_limiter \<Rightarrow> time list" where
  "failures_of ip username L = (case kget (lim_attempts L) (login_key ip username) of Some q \<Rightarrow> q | None \<Rightarrow> [])"

interpretation global_window: sliding_window "seconds GLOBAL_LOGIN_WINDOW_SECS" GLOBAL_LOGIN_MAX_ATTEMPTS
  global_allowed record_attempt lim_global
  by unfold_locales (simp_all add: GLOBAL_LOGIN_WINDOW_SECS_def GLOBAL_LOGIN_MAX_ATTEMPTS_def
      global_allowed_def record_attempt_def Let_def)

interpretation address_window: sliding_window "seconds LOGIN_WINDOW_SECS" LOGIN_MAX_ATTEMPTS
  "\<lambda>now. allowed now ip username" "\<lambda>now. record_failure now ip username" "failures_of ip username"
  for ip username
  by unfold_locales (simp_all add: LOGIN_WINDOW_SECS_def LOGIN_MAX_ATTEMPTS_def allowed_def
      record_failure_def failures_of_def store_simps Let_def)

text \<open>The attempts a brute force gets through: each one checks the global budget and the window of its
  address and account, and fails.\<close>

fun global_logins :: "time list \<Rightarrow> login_limiter \<Rightarrow> time list" where
  "global_logins [] L = []"
| "global_logins (now # ts) L =
     (let (ok, L) = global_allowed now L
      in if ok then now # global_logins ts (record_attempt now L) else global_logins ts L)"

fun failed_logins :: "string \<Rightarrow> string \<Rightarrow> time list \<Rightarrow> login_limiter \<Rightarrow> time list" where
  "failed_logins ip username [] L = []"
| "failed_logins ip username (now # ts) L =
     (let (ok, L) = allowed now ip username L
      in if ok then now # failed_logins ip username ts (record_failure now ip username L)
         else failed_logins ip username ts L)"

lemma global_logins_admitted: "global_logins ts L = global_window.admitted ts L"
  by (induction ts arbitrary: L) (simp_all add: global_window.attempt_def Let_def split: prod.split)

lemma failed_logins_admitted: "failed_logins ip username ts L = address_window.admitted ip username ts L"
  by (induction ts arbitrary: L) (simp_all add: address_window.attempt_def Let_def split: prod.split)



lemma allowed_keys: "L' = snd (allowed now ip username L) \<Longrightarrow> key \<noteq> login_key ip username \<Longrightarrow>
    kget (lim_attempts L') key = kget (lim_attempts L) key"
  by (simp add: allowed_def Let_def store_simps)

lemma login_key_inject:
  assumes "CHR 0x1F \<notin> set ip" "CHR 0x1F \<notin> set ip'" "login_key ip u = login_key ip' u'"
  shows "ip = ip' \<and> u = u'"
  using assms by (auto simp: login_key_def append_eq_append_conv2 append_eq_Cons_conv Cons_eq_append_conv)

text \<open>Windows do not interfere: a failure recorded for one address and account leaves what every
  other pair is allowed unchanged, so a brute force against one account does not lock out the other
  accounts behind the same address. (Addresses do not contain the separator.)\<close>

lemma windows_independent:
  assumes "CHR 0x1F \<notin> set ip" and "CHR 0x1F \<notin> set ip'" and "(ip, u) \<noteq> (ip', u')"
  shows "fst (allowed now ip' u' (record_failure t ip u L)) = fst (allowed now ip' u' L) \<and>
    fst (allowed now ip' u' (snd (allowed t ip u L))) = fst (allowed now ip' u' L)"
proof -
  have "login_key ip' u' \<noteq> login_key ip u" using login_key_inject assms by blast
  then show ?thesis by (simp add: allowed_def record_failure_def Let_def store_simps)
qed

text \<open>Pruning never admits more: what it drops has left the window.\<close>

lemma prune_keeps_answer:
  assumes "kwf (lim_attempts L)" "sorted (failures_of ip u L)" "t \<le> now"
  shows "fst (allowed now ip u (prune_limiter t L)) = fst (allowed now ip u L)"
proof (cases "kget (lim_attempts L) (login_key ip u)")
  case (Some q)
  have "expire_front (seconds LOGIN_WINDOW_SECS) now q = []"
    if "q \<noteq> []" "\<not> duration_since t (last q) \<le> seconds LOGIN_WINDOW_SECS"
  proof -
    have "x \<le> last q" if "x \<in> set q" for x
      using that assms(2) Some \<open>q \<noteq> []\<close> by (auto simp: failures_of_def sorted_iff_nth_mono in_set_conv_nth last_conv_nth)
    then have "seconds LOGIN_WINDOW_SECS < duration_since now x" if "x \<in> set q" for x
      using that assms(3) \<open>\<not> duration_since t (last q) \<le> _\<close> by (fastforce simp: duration_since_def)
    then show ?thesis by (auto simp: expire_front_def dropWhile_eq_Nil_conv)
  qed
  then have "q = [] \<or> duration_since t (last q) \<le> seconds LOGIN_WINDOW_SECS \<or>
      expire_front (seconds LOGIN_WINDOW_SECS) now q = []" by blast
  moreover have "expire_front w now [] = []" for w by (simp add: expire_front_def)
  ultimately show ?thesis
    using Some assms(1) by (auto simp: allowed_def prune_limiter_def kget_kretain Let_def)
qed (simp add: allowed_def prune_limiter_def kget_kretain [OF assms(1)] Let_def)

end
