(* ===== verification/Scheduler.thy ===== *)
theory Scheduler
  imports Job
begin

text \<open>
  The GPU scheduler of \<open>crates/scheduler/src/lib.rs\<close>: the FIFO queue, the running set and the GPU
  capacity of the nodes, each behind its own lock. One definition per method; \<open>schedule\<close> holds the
  queue lock for the whole walk. GPU counts are \<open>u32\<close> and their sums wrap. The lemmas show that a
  cycle never over-commits a node, leaves behind only jobs that fit nowhere, and neither loses nor
  duplicates a job.
\<close>

record scheduler =
  sch_queue :: "job list"
  sch_running :: "(string, job) kmap"
  sch_capacity :: "(string, u32) kmap"

definition scheduler_new :: scheduler where
  "scheduler_new = \<lparr>sch_queue = [], sch_running = [], sch_capacity = []\<rparr>"

definition parse_gpu_requirement :: "string \<Rightarrow> u32" where
  "parse_gpu_requirement quota =
     (let s = to_ascii_lowercase (trim quota)
      in if s = [] then 1
         else let digits = takeWhile is_ascii_digit (dropWhile (\<lambda>c. \<not> is_ascii_digit c) s)
              in if digits = [] then 1
                 else max (case parse_u32 digits of Some n \<Rightarrow> of_nat n | None \<Rightarrow> 1) 1)"

abbreviation gpu_requirement :: "job \<Rightarrow> u32" where
  "gpu_requirement j \<equiv> parse_gpu_requirement (job_resource_quota j)"

definition remove_queued :: "string \<Rightarrow> scheduler \<Rightarrow> bool \<times> scheduler" where
  "remove_queued jid S =
     (let before = length (sch_queue S);
          queue = filter (\<lambda>j. job_id j \<noteq> jid) (sch_queue S)
      in (length queue \<noteq> before, S\<lparr>sch_queue := queue\<rparr>))"

definition drop_job :: "string \<Rightarrow> scheduler \<Rightarrow> bool \<times> scheduler" where
  "drop_job jid S = (kget (sch_running S) jid \<noteq> None, S\<lparr>sch_running := kdel jid (sch_running S)\<rparr>)"

definition enqueue :: "job \<Rightarrow> scheduler \<Rightarrow> bool \<times> scheduler" where
  "enqueue j S =
     (if kget (sch_running S) (job_id j) \<noteq> None \<or> (\<exists>q \<in> set (sch_queue S). job_id q = job_id j)
      then (False, S)
      else (True, S\<lparr>sch_queue := sch_queue S @ [j]\<rparr>))"

definition gpus_in_use :: "string \<Rightarrow> scheduler \<Rightarrow> u32" where
  "gpus_in_use node_id S =
     sum_list (map gpu_requirement (filter (\<lambda>j. job_node_id j = node_id) (kvalues (sch_running S))))"

definition get_available_gpu_count :: "string \<Rightarrow> scheduler \<Rightarrow> u32" where
  "get_available_gpu_count node_id S =
     (let capacity = (case kget (sch_capacity S) node_id of Some c \<Rightarrow> c | None \<Rightarrow> 0)
      in saturating_sub capacity (gpus_in_use node_id S))"

definition find_node_for_job :: "u32 \<Rightarrow> string option \<Rightarrow> scheduler \<Rightarrow> string option" where
  "find_node_for_job gpu_required preferred S =
     (let candidates = map fst (filter (\<lambda>(node, cap).
            gpu_required \<le> saturating_sub cap (gpus_in_use node S)) (sch_capacity S))
      in case (case preferred of Some p \<Rightarrow> if p \<in> set candidates then Some p else None | None \<Rightarrow> None) of
           Some p \<Rightarrow> Some p
         | None \<Rightarrow> (case sort candidates of [] \<Rightarrow> None | n # _ \<Rightarrow> Some n))"

text \<open>The loop of \<open>schedule\<close> over the drained queue: scheduled jobs, remaining jobs, state.\<close>

fun schedule_loop :: "job list \<Rightarrow> scheduler \<Rightarrow> job list \<times> job list \<times> scheduler" where
  "schedule_loop [] S = ([], [], S)"
| "schedule_loop (j # js) S =
     (let preferred = (if job_node_id j = [] then None else Some (job_node_id j))
      in case find_node_for_job (gpu_requirement j) preferred S of
           Some node_id \<Rightarrow>
             let j = j\<lparr>job_node_id := node_id, job_state := Starting\<rparr>;
                 (scheduled, remaining, S') =
                   schedule_loop js (S\<lparr>sch_running := kput (job_id j) j (sch_running S)\<rparr>)
             in (j # scheduled, remaining, S')
         | None \<Rightarrow>
             let (scheduled, remaining, S') = schedule_loop js S
             in (scheduled, j # remaining, S'))"

definition schedule :: "scheduler \<Rightarrow> job list \<times> scheduler" where
  "schedule S =
     (let (scheduled, remaining, S') = schedule_loop (sch_queue S) S
      in (scheduled, S'\<lparr>sch_queue := remaining\<rparr>))"

definition get_running_jobs :: "scheduler \<Rightarrow> job list" where
  "get_running_jobs S = kvalues (sch_running S)"

text \<open>The transition on the removed copy has no effect that outlives the call.\<close>

definition complete_job :: "string \<Rightarrow> job_status \<Rightarrow> scheduler \<Rightarrow> scheduler" where
  "complete_job jid st S = S\<lparr>sch_running := kdel jid (sch_running S)\<rparr>"

definition remove_running :: "string \<Rightarrow> scheduler \<Rightarrow> scheduler" where
  "remove_running jid S = S\<lparr>sch_running := kdel jid (sch_running S)\<rparr>"

definition restore_running :: "job list \<Rightarrow> scheduler \<Rightarrow> scheduler" where
  "restore_running jobs S =
     S\<lparr>sch_running := foldl (\<lambda>m j. if is_running (job_state j) then kput (job_id j) j m else m)
                        (sch_running S) jobs\<rparr>"

definition set_node_gpu_capacity :: "string \<Rightarrow> u32 \<Rightarrow> scheduler \<Rightarrow> scheduler" where
  "set_node_gpu_capacity node_id capacity S = S\<lparr>sch_capacity := kput node_id capacity (sch_capacity S)\<rparr>"

subsection \<open>GPU requirements\<close>

lemma ascii_lower_digit [simp]: "is_ascii_digit c \<Longrightarrow> ascii_lower c = c"
  by (simp add: is_ascii_digit_def ascii_lower_def)

lemma lowercase_digits: "list_all is_ascii_digit s \<Longrightarrow> to_ascii_lowercase s = s"
  by (induction s) (simp_all add: to_ascii_lowercase_def)

lemma parse_gpu_requirement_pos: "0 < unat (parse_gpu_requirement q)"
proof -
  have "1 \<le> parse_gpu_requirement q" by (simp add: parse_gpu_requirement_def Let_def)
  then show ?thesis by (simp add: word_le_nat_alt)
qed

subsection \<open>Demand on a node\<close>

definition gpu_demand :: "string \<Rightarrow> (string, job) kmap \<Rightarrow> nat" where
  "gpu_demand n m =
     sum_list (map (\<lambda>e. if job_node_id (snd e) = n then unat (gpu_requirement (snd e)) else 0) m)"

lemma gpu_demand_filter:
  "gpu_demand n m = sum_list (map (\<lambda>j. unat (gpu_requirement j)) (filter (\<lambda>j. job_node_id j = n) (kvalues m)))"
  by (induction m) (simp_all add: gpu_demand_def kvalues_def)

lemma unat_gpus_in_use:
  assumes "gpu_demand n (sch_running S) < 2 ^ 32"
  shows "unat (gpus_in_use n S) = gpu_demand n (sch_running S)"
  using assms unat_sum_list_words [of "map gpu_requirement (filter (\<lambda>j. job_node_id j = n) (kvalues (sch_running S)))"]
  by (simp add: gpus_in_use_def gpu_demand_filter comp_def)

definition fits :: "scheduler \<Rightarrow> string \<Rightarrow> u32 \<Rightarrow> u32 \<Rightarrow> bool" where
  "fits S n cap req \<longleftrightarrow> gpu_demand n (sch_running S) + unat req \<le> unat cap"

lemma saturating_fits:
  assumes "gpu_demand n (sch_running S) < 2 ^ 32" "0 < unat req"
  shows "req \<le> saturating_sub cap (gpus_in_use n S) \<longleftrightarrow> fits S n cap req"
  using assms by (auto simp: fits_def word_le_nat_alt unat_saturating_sub unat_gpus_in_use)

subsection \<open>Node selection\<close>

definition candidates :: "u32 \<Rightarrow> scheduler \<Rightarrow> string list" where
  "candidates req S =
     map fst (filter (\<lambda>(node, cap). req \<le> saturating_sub cap (gpus_in_use node S)) (sch_capacity S))"

lemma find_node_cases:
  "find_node_for_job req pref S =
     (if \<exists>p \<in> set (candidates req S). pref = Some p then pref
      else if candidates req S = [] then None else Some (Min (set (candidates req S))))"
proof -
  have "(case sort c of [] \<Rightarrow> None | n # _ \<Rightarrow> Some n) = (if c = [] then None else Some (Min (set c)))"
    for c :: "string list"
  proof (cases "sort c")
    case (Cons n ns)
    then have "sorted (n # ns)" "set c = set (n # ns)" by (metis sorted_sort, metis set_sort)
    then have "Min (set c) = n" by (auto intro!: Min_eqI)
    with Cons show ?thesis by auto
  qed (metis set_empty set_sort list.simps(4))
  then show ?thesis
    by (auto simp: find_node_for_job_def candidates_def [symmetric] Let_def split: option.split)
qed

lemma candidates_mem:
  assumes "kwf (sch_capacity S)" "\<And>n. gpu_demand n (sch_running S) < 2 ^ 32" "0 < unat req"
  shows "n \<in> set (candidates req S) \<longleftrightarrow> (\<exists>cap. kget (sch_capacity S) n = Some cap \<and> fits S n cap req)"
  using assms by (force simp: candidates_def saturating_fits kget_mem)

subsection \<open>The loop\<close>

abbreviation started :: "job \<Rightarrow> string \<Rightarrow> job" where
  "started j n \<equiv> j\<lparr>job_node_id := n, job_state := Starting\<rparr>"

abbreviation placed :: "scheduler \<Rightarrow> job \<Rightarrow> string \<Rightarrow> scheduler" where
  "placed S j n \<equiv> S\<lparr>sch_running := kput (job_id j) (started j n) (sch_running S)\<rparr>"

abbreviation preferred_node :: "job \<Rightarrow> string option" where
  "preferred_node j \<equiv> (if job_node_id j = [] then None else Some (job_node_id j))"

lemma schedule_loop_induct [consumes 1, case_names drained scheduled kept]:
  assumes "schedule_loop js S = (sc, rm, S')"
    and "\<And>S. P [] S [] [] S"
    and "\<And>j js S n sc rm S'. find_node_for_job (gpu_requirement j) (preferred_node j) S = Some n \<Longrightarrow>
           schedule_loop js (placed S j n) = (sc, rm, S') \<Longrightarrow>
           P js (placed S j n) sc rm S' \<Longrightarrow> P (j # js) S (started j n # sc) rm S'"
    and "\<And>j js S sc rm S'. find_node_for_job (gpu_requirement j) (preferred_node j) S = None \<Longrightarrow>
           schedule_loop js S = (sc, rm, S') \<Longrightarrow>
           P js S sc rm S' \<Longrightarrow> P (j # js) S sc (j # rm) S'"
  shows "P js S sc rm S'"
  using assms(1)
proof (induction js arbitrary: S sc rm S')
  case Nil
  then show ?case using assms(2) by simp
next
  case (Cons j js)
  then show ?case
    by (cases "find_node_for_job (gpu_requirement j) (preferred_node j) S")
      (auto simp: Let_def split: prod.splits intro: assms(3,4))
qed

text \<open>What holds of the state whenever the loop is about to look at the jobs \<open>js\<close>.\<close>

definition ready :: "job list \<Rightarrow> scheduler \<Rightarrow> bool" where
  "ready js S \<longleftrightarrow>
     kwf (sch_running S) \<and> kwf (sch_capacity S) \<and> distinct (map job_id js) \<and>
     (\<forall>j \<in> set js. kget (sch_running S) (job_id j) = None) \<and>
     (\<forall>n. gpu_demand n (sch_running S) < 2 ^ 32)"

lemma gpu_demand_placed:
  assumes "ready (j # js) S"
  shows "gpu_demand m (sch_running (placed S j n)) =
    (if n = m then unat (gpu_requirement j) else 0) + gpu_demand m (sch_running S)"
  using assms by (simp add: ready_def gpu_demand_def km.weight_put_fresh)

lemma find_node_Some:
  assumes "ready js S" "find_node_for_job (gpu_requirement j) pref S = Some n"
  shows "\<exists>cap. kget (sch_capacity S) n = Some cap \<and> fits S n cap (gpu_requirement j)"
proof -
  have "n \<in> set (candidates (gpu_requirement j) S)"
    using assms(2) by (auto simp: find_node_cases split: if_splits)
  then show ?thesis using assms(1) candidates_mem parse_gpu_requirement_pos by (simp add: ready_def)
qed

lemma find_node_None:
  assumes "ready js S" "find_node_for_job (gpu_requirement j) pref S = None"
    and "kget (sch_capacity S) n = Some cap"
  shows "\<not> fits S n cap (gpu_requirement j)"
proof -
  have "candidates (gpu_requirement j) S = []"
    using assms(2) by (auto simp: find_node_cases split: if_splits)
  then show ?thesis
    using assms(1,3) candidates_mem [of S "gpu_requirement j" n] parse_gpu_requirement_pos
    by (auto simp: ready_def)
qed

lemma ready_placed:
  assumes "ready (j # js) S" "find_node_for_job (gpu_requirement j) pref S = Some n"
  shows "ready js (placed S j n)"
proof -
  obtain cap :: u32 where "gpu_demand n (sch_running S) + unat (gpu_requirement j) \<le> unat cap"
    using find_node_Some [OF assms] by (auto simp: fits_def)
  moreover have "unat cap < 2 ^ 32" using unsigned_less [of cap] by simp
  ultimately have "gpu_demand m (sch_running (placed S j n)) < 2 ^ 32" for m
    using assms(1) gpu_demand_placed [OF assms(1), of m n] by (auto simp: ready_def)
  moreover have "job_id q \<noteq> job_id j" if "q \<in> set js" for q
    using assms(1) that unfolding ready_def by (metis distinct.simps(2) imageI list.simps(9) set_map)
  ultimately show ?thesis using assms(1) by (auto simp: ready_def store_simps)
qed

lemma ready_tail: "ready (j # js) S \<Longrightarrow> ready js S"
  by (simp add: ready_def)

lemma schedule_loop_frame:
  "schedule_loop js S = (sc, rm, S') \<Longrightarrow>
     sch_capacity S' = sch_capacity S \<and> sch_queue S' = sch_queue S"
  by (induction rule: schedule_loop_induct) auto

lemma schedule_loop_ready:
  "schedule_loop js S = (sc, rm, S') \<Longrightarrow> ready js S \<Longrightarrow> ready [] S'"
  by (induction rule: schedule_loop_induct) (auto simp: ready_placed ready_tail)

lemma schedule_loop_demand_mono:
  "schedule_loop js S = (sc, rm, S') \<Longrightarrow> ready js S \<Longrightarrow>
     gpu_demand n (sch_running S) \<le> gpu_demand n (sch_running S')"
proof (induction rule: schedule_loop_induct)
  case (scheduled j js S m sc rm S')
  then have "gpu_demand n (sch_running (placed S j m)) \<le> gpu_demand n (sch_running S')"
    using ready_placed by blast
  then show ?case using gpu_demand_placed [OF scheduled.prems, of n m] by simp
qed (auto simp: ready_tail)

text \<open>A node that received no job keeps its demand; one that did stays within its capacity.\<close>

lemma schedule_loop_demand:
  "schedule_loop js S = (sc, rm, S') \<Longrightarrow> ready js S \<Longrightarrow>
     (if \<exists>j \<in> set sc. job_node_id j = n
      then \<exists>cap. kget (sch_capacity S) n = Some cap \<and> gpu_demand n (sch_running S') \<le> unat cap
      else gpu_demand n (sch_running S') = gpu_demand n (sch_running S))"
proof (induction rule: schedule_loop_induct)
  case (scheduled j js S m sc rm S')
  note ih = scheduled.IH [OF ready_placed [OF scheduled.prems scheduled.hyps(1)]]
  obtain cap where cap: "kget (sch_capacity S) m = Some cap" "fits S m cap (gpu_requirement j)"
    using find_node_Some [OF scheduled.prems scheduled.hyps(1)] by blast
  show ?case
    using ih cap gpu_demand_placed [OF scheduled.prems, of n m] by (auto simp: fits_def split: if_splits)
qed (auto simp: ready_tail split: if_splits)

lemma schedule_loop_kept:
  "schedule_loop js S = (sc, rm, S') \<Longrightarrow> ready js S \<Longrightarrow> j \<in> set rm \<Longrightarrow>
     kget (sch_capacity S) n = Some cap \<Longrightarrow> \<not> fits S' n cap (gpu_requirement j)"
proof (induction rule: schedule_loop_induct)
  case (scheduled i js S m sc rm S')
  then show ?case using ready_placed [OF scheduled.prems(1) scheduled.hyps(1)] by simp
next
  case (kept i js S sc rm S')
  note r = ready_tail [OF kept.prems(1)]
  show ?case
  proof (cases "j = i")
    case True
    then have no: "\<not> fits S n cap (gpu_requirement j)"
      using find_node_None [OF kept.prems(1) kept.hyps(1) kept.prems(3)] by simp
    have "gpu_demand n (sch_running S) \<le> gpu_demand n (sch_running S')"
      using schedule_loop_demand_mono [OF kept.hyps(2) r] .
    with no show ?thesis by (simp add: fits_def)
  qed (use kept r in auto)
qed simp

text \<open>The jobs of the walk are split in order into scheduled and remaining ones; the scheduled ones
  are entered in the running set and nothing else is.\<close>

lemma schedule_loop_jobs:
  "schedule_loop js S = (sc, rm, S') \<Longrightarrow> distinct (map job_id js) \<Longrightarrow>
     (\<exists>keep. rm = filter (\<lambda>j. job_id j \<in> keep) js \<and>
             map job_id sc = map job_id (filter (\<lambda>j. job_id j \<notin> keep) js))"
proof (induction rule: schedule_loop_induct)
  case (scheduled j js S n sc rm S')
  then obtain keep where k: "rm = filter (\<lambda>j. job_id j \<in> keep) js"
    "map job_id sc = map job_id (filter (\<lambda>j. job_id j \<notin> keep) js)" by auto
  have "filter (\<lambda>q. job_id q \<in> keep - {job_id j}) js = filter (\<lambda>q. job_id q \<in> keep) js"
    "filter (\<lambda>q. job_id q \<notin> keep - {job_id j}) js = filter (\<lambda>q. job_id q \<notin> keep) js"
    using scheduled.prems by (auto intro!: filter_cong simp: image_iff)
  then show ?case using k by (intro exI [of _ "keep - {job_id j}"]) simp
next
  case (kept j js S sc rm S')
  then obtain keep where k: "rm = filter (\<lambda>j. job_id j \<in> keep) js"
    "map job_id sc = map job_id (filter (\<lambda>j. job_id j \<notin> keep) js)" by auto
  have "filter (\<lambda>q. job_id q \<in> insert (job_id j) keep) js = filter (\<lambda>q. job_id q \<in> keep) js"
    "filter (\<lambda>q. job_id q \<notin> insert (job_id j) keep) js = filter (\<lambda>q. job_id q \<notin> keep) js"
    using kept.prems by (auto intro!: filter_cong simp: image_iff)
  then show ?case using k by (intro exI [of _ "insert (job_id j) keep"]) simp
qed simp

lemma schedule_loop_ids:
  "schedule_loop js S = (sc, rm, S') \<Longrightarrow> job_id ` set sc \<union> job_id ` set rm = job_id ` set js"
  by (induction rule: schedule_loop_induct) auto

lemma schedule_loop_running:
  "schedule_loop js S = (sc, rm, S') \<Longrightarrow> distinct (map job_id js) \<Longrightarrow>
     kget (sch_running S') k =
       (case find_by job_id k sc of Some j \<Rightarrow> Some j | None \<Rightarrow> kget (sch_running S) k)"
proof (induction rule: schedule_loop_induct)
  case (scheduled j js S n sc rm S')
  then have "job_id j \<notin> job_id ` set sc"
    using schedule_loop_ids [OF scheduled.hyps(2)] by auto
  then have "find_by job_id (job_id j) sc = None" by (simp add: find_by_None)
  then show ?case using scheduled by (auto simp: store_simps split: option.split)
qed (auto split: option.split)

lemma schedule_loop_state: "schedule_loop js S = (sc, rm, S') \<Longrightarrow> j \<in> set sc \<Longrightarrow> job_state j = Starting"
  by (induction rule: schedule_loop_induct) auto

subsection \<open>The scheduler as a transition system\<close>

definition keyed_by_id :: "(string, job) kmap \<Rightarrow> bool" where
  "keyed_by_id m \<longleftrightarrow> (\<forall>k j. kget m k = Some j \<longrightarrow> job_id j = k)"

definition sched_wf :: "scheduler \<Rightarrow> bool" where
  "sched_wf S \<longleftrightarrow> ready (sch_queue S) S \<and> keyed_by_id (sch_running S)"

text \<open>The server starts with the jobs it finds active in the database, and then calls any method in
  any order. (The requirements of the jobs found active on one node are assumed to fit a \<open>u32\<close>.)\<close>

inductive sched_init :: "scheduler \<Rightarrow> bool" where
  "(\<forall>n. gpu_demand n (sch_running (restore_running jobs scheduler_new)) < 2 ^ 32) \<Longrightarrow>
   sched_init (restore_running jobs scheduler_new)"

inductive sched_step :: "scheduler \<Rightarrow> scheduler \<Rightarrow> bool" where
  enqueued: "sched_step S (snd (enqueue j S))"
| dequeued: "sched_step S (snd (remove_queued jid S))"
| dropped: "sched_step S (snd (drop_job jid S))"
| cycled: "sched_step S (snd (schedule S))"
| completed: "sched_step S (complete_job jid st S)"
| removed: "sched_step S (remove_running jid S)"
| resized: "sched_step S (set_node_gpu_capacity n cap S)"

lemma gpu_demand_kdel: "gpu_demand n (kdel k m) \<le> gpu_demand n m"
  by (induction m) (auto simp: gpu_demand_def kdel_def)

lemma sched_wf_forget:
  assumes "sched_wf S"
  shows "sched_wf (S\<lparr>sch_running := kdel k (sch_running S)\<rparr>)"
proof -
  have "gpu_demand n (kdel k (sch_running S)) < 2 ^ 32" for n
    using assms order_le_less_trans [OF gpu_demand_kdel] by (auto simp: sched_wf_def ready_def)
  then show ?thesis using assms by (auto simp: sched_wf_def ready_def keyed_by_id_def store_simps)
qed

lemma sched_wf_enqueue: "sched_wf S \<Longrightarrow> sched_wf (snd (enqueue j S))"
  by (auto simp: enqueue_def sched_wf_def ready_def)

lemma sched_wf_dequeue: "sched_wf S \<Longrightarrow> sched_wf (snd (remove_queued jid S))"
  by (auto simp: remove_queued_def Let_def sched_wf_def ready_def distinct_map_filter)

lemma sched_wf_capacity: "sched_wf S \<Longrightarrow> sched_wf (set_node_gpu_capacity n cap S)"
  by (auto simp: set_node_gpu_capacity_def sched_wf_def ready_def)

lemma ready_queue_irrelevant: "ready js (S\<lparr>sch_queue := q\<rparr>) = ready js S"
  by (simp add: ready_def)

lemma sched_wf_schedule:
  assumes "sched_wf S"
  shows "sched_wf (snd (schedule S))"
proof -
  obtain sc rm S' where loop: "schedule_loop (sch_queue S) S = (sc, rm, S')"
    by (cases "schedule_loop (sch_queue S) S")
  have r: "ready (sch_queue S) S" and d: "distinct (map job_id (sch_queue S))"
    using assms by (auto simp: sched_wf_def ready_def)
  obtain keep where keep: "rm = filter (\<lambda>j. job_id j \<in> keep) (sch_queue S)"
    "map job_id sc = map job_id (filter (\<lambda>j. job_id j \<notin> keep) (sch_queue S))"
    using schedule_loop_jobs [OF loop d] by blast
  have "job_id j \<notin> set (map job_id sc)" if "j \<in> set rm" for j
    using that keep by auto
  then have "kget (sch_running S') (job_id j) = None" if "j \<in> set rm" for j
    using that r keep(1) by (auto simp: schedule_loop_running [OF loop d] find_by_None [THEN iffD2] ready_def)
  moreover have "distinct (map job_id rm)" using d keep(1) by (simp add: distinct_map_filter)
  ultimately have "ready rm S'" using schedule_loop_ready [OF loop r] by (simp add: ready_def)
  moreover have "keyed_by_id (sch_running S')"
    using assms find_by_Some [of job_id _ sc]
    by (fastforce simp: keyed_by_id_def sched_wf_def schedule_loop_running [OF loop d] split: option.splits)
  ultimately show ?thesis
    by (simp add: schedule_def loop sched_wf_def ready_queue_irrelevant)
qed

lemma restore_running_wf:
  "kwf (sch_running S) \<and> keyed_by_id (sch_running S) \<Longrightarrow>
   kwf (sch_running (restore_running jobs S)) \<and> keyed_by_id (sch_running (restore_running jobs S))"
proof (induction jobs arbitrary: S)
  case (Cons j jobs)
  let ?S = "if is_running (job_state j) then S\<lparr>sch_running := kput (job_id j) j (sch_running S)\<rparr> else S"
  have "restore_running (j # jobs) S = restore_running jobs ?S" by (simp add: restore_running_def)
  moreover have "kwf (sch_running ?S) \<and> keyed_by_id (sch_running ?S)"
    using Cons.prems by (auto simp: keyed_by_id_def store_simps)
  ultimately show ?case using Cons.IH [of ?S] by simp
qed (simp add: restore_running_def)

lemma sched_wf_init: "sched_init S \<Longrightarrow> sched_wf S"
proof (induction rule: sched_init.induct)
  case (1 jobs)
  let ?S = "restore_running jobs scheduler_new"
  have "kwf (sch_running ?S) \<and> keyed_by_id (sch_running ?S)"
    by (rule restore_running_wf) (simp add: scheduler_new_def keyed_by_id_def km.get_emp)
  then show ?case using 1 by (simp add: sched_wf_def ready_def) (simp add: restore_running_def scheduler_new_def)
qed

interpretation sched: safe_system sched_init sched_step sched_wf
proof unfold_locales
  show "sched_wf S'" if "sched_wf S" "sched_step S S'" for S S'
    using that(2,1)
    by cases (simp_all add: sched_wf_enqueue sched_wf_dequeue sched_wf_schedule sched_wf_capacity
        sched_wf_forget drop_job_def complete_job_def remove_running_def)
qed (rule sched_wf_init)

subsection \<open>Properties of the scheduler\<close>

text \<open>Whatever sequence of calls the server makes after restoring its running set, a job is in
  one place only: no two entries of the queue have the same identifier, no queued job is also in the
  running set, and the running set is keyed by the identifiers of its jobs.\<close>

lemma jobs_in_one_place:
  assumes "reach sched_init sched_step S"
  shows "distinct (map job_id (sch_queue S)) \<and>
    (\<forall>j \<in> set (sch_queue S). kget (sch_running S) (job_id j) = None) \<and>
    (\<forall>k j. kget (sch_running S) k = Some j \<longrightarrow> job_id j = k)"
  using sched.reach_inv [OF assms] by (simp add: sched_wf_def ready_def keyed_by_id_def)

definition sample_job :: "string \<Rightarrow> string \<Rightarrow> string \<Rightarrow> job" where
  "sample_job i n quota =
     (from_definition (job_definition_new i 0 n ''train'' ''/bin/sh'' [] ''/'' [] ''admin'' [] 0))
       \<lparr>job_resource_quota := quota\<rparr>"

definition sample_sched :: scheduler where
  "sample_sched = snd (enqueue (sample_job ''j2'' ''n1'' ''gpu:2'') (snd (enqueue (sample_job ''j1'' [] ''gpu:3'')
     (set_node_gpu_capacity ''n1'' 4 scheduler_new))))"

lemma sched_init_new: "sched_init scheduler_new"
proof -
  have "restore_running [] scheduler_new = scheduler_new" by (simp add: restore_running_def)
  moreover have "gpu_demand n (sch_running scheduler_new) < 2 ^ 32" for n
    by (simp add: scheduler_new_def gpu_demand_def)
  ultimately show ?thesis using sched_init.intros [of "[]"] by simp
qed

lemma sample_sched_reach: "reach sched_init sched_step sample_sched"
  unfolding sample_sched_def
  by (intro sched.reach_next [OF _ sched_step.enqueued] sched.reach_next [OF _ sched_step.resized]
      sched.reach_start sched_init_new)

lemma sample_requirements:
  "parse_gpu_requirement ''gpu:3'' = 3" "parse_gpu_requirement ''gpu:2'' = 2"
  by (simp_all add: parse_gpu_requirement_def trim_visible_all text_eval)

lemmas sched_eval = sample_sched_def sample_job_def enqueue_def set_node_gpu_capacity_def scheduler_new_def
  from_definition_def job_definition_new_def kget_def schedule_def find_node_for_job_def gpus_in_use_def
  kvalues_def Let_def saturating_sub_def sample_requirements

lemma sample_cycle:
  "schedule sample_sched =
     ([started (sample_job ''j1'' [] ''gpu:3'') ''n1''],
      placed (sample_sched\<lparr>sch_queue := [sample_job ''j2'' ''n1'' ''gpu:2'']\<rparr>) (sample_job ''j1'' [] ''gpu:3'') ''n1'')"
  by (simp add: sched_eval word_le_nat_alt)

text \<open>A scheduling cycle never over-commits a node: after it, on every node that received a job
  the GPUs of all its running jobs, counted without overflow, are within the capacity of the node;
  on every other node nothing changed. This holds in every state the server can reach, whatever the
  capacities were set to meanwhile.\<close>

lemma schedule_no_overcommit:
  assumes "reach sched_init sched_step S" and "schedule S = (scheduled, S')"
  shows "(\<forall>j \<in> set scheduled. \<exists>cap. kget (sch_capacity S') (job_node_id j) = Some cap \<and>
            gpu_demand (job_node_id j) (sch_running S') \<le> unat cap) \<and>
         (\<forall>n. n \<notin> job_node_id ` set scheduled \<longrightarrow>
            gpu_demand n (sch_running S') = gpu_demand n (sch_running S)) \<and>
         (\<forall>n. unat (gpus_in_use n S') = gpu_demand n (sch_running S'))"
proof -
  have wf: "sched_wf S" using sched.reach_inv [OF assms(1)] .
  obtain rm L where loop: "schedule_loop (sch_queue S) S = (scheduled, rm, L)"
    and S': "S' = L\<lparr>sch_queue := rm\<rparr>"
    using assms(2) by (auto simp: schedule_def split: prod.splits)
  have r: "ready (sch_queue S) S" using wf by (simp add: sched_wf_def)
  have "sch_capacity L = sch_capacity S" using schedule_loop_frame [OF loop] by simp
  moreover have "gpu_demand n (sch_running S') < 2 ^ 32" for n
    using schedule_loop_ready [OF loop r] by (simp add: S' ready_def)
  moreover have "gpu_demand n (sch_running L) = gpu_demand n (sch_running S)"
    if "n \<notin> job_node_id ` set scheduled" for n
    using that schedule_loop_demand [OF loop r, of n] by (auto split: if_splits)
  moreover have "\<exists>cap. kget (sch_capacity S) (job_node_id j) = Some cap \<and>
      gpu_demand (job_node_id j) (sch_running L) \<le> unat cap" if "j \<in> set scheduled" for j
    using that schedule_loop_demand [OF loop r, of "job_node_id j"] by (auto split: if_splits)
  ultimately show ?thesis by (simp add: S' unat_gpus_in_use)
qed

text \<open>A cycle leaves no job waiting that could run: for every job still in the queue after it and
  every node, the GPUs in use on the node and the ones the job needs exceed the capacity.\<close>

lemma schedule_work_conserving:
  assumes "reach sched_init sched_step S" and "schedule S = (scheduled, S')"
    and "j \<in> set (sch_queue S')" and "kget (sch_capacity S') n = Some cap"
  shows "unat cap < gpu_demand n (sch_running S') + unat (parse_gpu_requirement (job_resource_quota j))"
proof -
  have r: "ready (sch_queue S) S" using sched.reach_inv [OF assms(1)] by (simp add: sched_wf_def)
  obtain rm L where loop: "schedule_loop (sch_queue S) S = (scheduled, rm, L)"
    and S': "S' = L\<lparr>sch_queue := rm\<rparr>"
    using assms(2) by (auto simp: schedule_def split: prod.splits)
  have "\<not> fits L n cap (gpu_requirement j)"
    using schedule_loop_kept [OF loop r] schedule_loop_frame [OF loop] assms(3,4) by (simp add: S')
  then show ?thesis by (simp add: fits_def S')
qed

text \<open>A cycle neither loses nor duplicates a job and keeps the order: the queue splits into the
  jobs it schedules and the jobs it keeps, both in queue order; the kept jobs are unchanged, and a
  scheduled job is in the running set in state \<open>Starting\<close> exactly as it is returned, while every
  other entry of the running set stays as it was.\<close>

lemma schedule_conserves_jobs:
  assumes "reach sched_init sched_step S" and "schedule S = (scheduled, S')"
  shows "(\<exists>kept. sch_queue S' = filter (\<lambda>j. job_id j \<in> kept) (sch_queue S) \<and>
            map job_id scheduled = map job_id (filter (\<lambda>j. job_id j \<notin> kept) (sch_queue S))) \<and>
         (\<forall>j \<in> set scheduled. job_state j = Starting \<and> kget (sch_running S') (job_id j) = Some j) \<and>
         (\<forall>k. k \<notin> job_id ` set scheduled \<longrightarrow> kget (sch_running S') k = kget (sch_running S) k)"
proof -
  have d: "distinct (map job_id (sch_queue S))"
    using sched.reach_inv [OF assms(1)] by (simp add: sched_wf_def ready_def)
  obtain rm L where loop: "schedule_loop (sch_queue S) S = (scheduled, rm, L)"
    and S': "S' = L\<lparr>sch_queue := rm\<rparr>"
    using assms(2) by (auto simp: schedule_def split: prod.splits)
  note split = schedule_loop_jobs [OF loop d]
  then have "distinct (map job_id scheduled)" using d by (metis distinct_map_filter)
  then have "kget (sch_running S') (job_id j) = Some j" if "j \<in> set scheduled" for j
    using that by (simp add: S' schedule_loop_running [OF loop d] find_by_unique)
  moreover have "kget (sch_running S') k = kget (sch_running S) k" if "k \<notin> job_id ` set scheduled" for k
    using that by (simp add: S' schedule_loop_running [OF loop d] find_by_None [THEN iffD2])
  ultimately show ?thesis using split schedule_loop_state [OF loop] by (simp add: S')
qed

text \<open>The node chosen for a job: the preferred one if it is among the nodes with enough free GPUs,
  otherwise the alphabetically first of them, and none exactly when there is no such node.\<close>

lemma find_node_choice:
  assumes "reach sched_init sched_step S" and "0 < unat req"
    and "able = {n. \<exists>cap. kget (sch_capacity S) n = Some cap \<and>
                   gpu_demand n (sch_running S) + unat req \<le> unat cap}"
  shows "find_node_for_job req pref S =
    (if able = {} then None
     else case pref of Some p \<Rightarrow> if p \<in> able then Some p else Some (Min able) | None \<Rightarrow> Some (Min able))"
proof -
  have wf: "kwf (sch_capacity S)" "\<And>n. gpu_demand n (sch_running S) < 2 ^ 32"
    using sched.reach_inv [OF assms(1)] by (auto simp: sched_wf_def ready_def)
  have able: "able = set (candidates req S)"
    using candidates_mem [OF wf assms(2)] assms(3) by (auto simp: fits_def)
  show ?thesis by (auto simp: find_node_cases able split: option.split)
qed

subsection \<open>Quotas\<close>

lemma ascii_lower_nondigit: "is_ascii_digit (ascii_lower c) \<longleftrightarrow> is_ascii_digit c"
  by (auto simp: is_ascii_digit_def ascii_lower_def code_def)

lemma digit_run_lowercase:
  assumes "list_all (\<lambda>c. \<not> is_ascii_digit c) pre" "list_all is_ascii_digit ds"
  shows "takeWhile is_ascii_digit (dropWhile (\<lambda>c. \<not> is_ascii_digit c) (to_ascii_lowercase (pre @ ds))) = ds"
proof -
  have low: "to_ascii_lowercase (pre @ ds) = to_ascii_lowercase pre @ ds"
    using lowercase_digits [OF assms(2)] by (simp add: to_ascii_lowercase_def)
  have "list_all (\<lambda>c. \<not> is_ascii_digit c) (to_ascii_lowercase pre)"
    using assms(1) by (simp add: to_ascii_lowercase_def list_all_iff ascii_lower_nondigit)
  then have "dropWhile (\<lambda>c. \<not> is_ascii_digit c) (to_ascii_lowercase pre @ ds) = dropWhile (\<lambda>c. \<not> is_ascii_digit c) ds"
    by (simp add: dropWhile_append2 list_all_iff)
  also have "\<dots> = ds" using assms(2) by (cases ds) auto
  finally show ?thesis using assms(2) by (simp add: low takeWhile_eq_all_conv list_all_iff)
qed

text \<open>The GPU requirement of a quota is the number written in it, for every prefix without digits
  such as \<open>gpu:\<close>, \<open>GPU=\<close> or nothing at all; a number that is zero or does not fit 32 bits counts as
  one, as does a quota without a number. A job always needs at least one GPU.\<close>

lemma gpu_requirement_of_quota:
  assumes "list_all visible_ascii pre" and "list_all (\<lambda>c. \<not> is_ascii_digit c) pre"
  shows "parse_gpu_requirement (pre @ show_nat n) = (if 1 \<le> n \<and> n < 2 ^ 32 then of_nat n else 1) \<and>
         parse_gpu_requirement pre = 1 \<and> 1 \<le> parse_gpu_requirement quota"
proof (intro conjI)
  have t: "trim (pre @ show_nat n) = pre @ show_nat n" "trim pre = pre"
    using assms(1) show_nat_visible [of n] by (simp_all add: trim_visible_all)
  have run: "takeWhile is_ascii_digit (dropWhile (\<lambda>c. \<not> is_ascii_digit c) (to_ascii_lowercase (pre @ show_nat n))) = show_nat n"
    using digit_run_lowercase [OF assms(2)] show_nat_digits by blast
  have "takeWhile is_ascii_digit (dropWhile (\<lambda>c. \<not> is_ascii_digit c) (to_ascii_lowercase pre)) = []"
    using digit_run_lowercase [OF assms(2), of "[]"] by simp
  then show "parse_gpu_requirement pre = 1" by (simp add: parse_gpu_requirement_def t Let_def)
  have ne: "show_nat n \<noteq> []" "to_ascii_lowercase (pre @ show_nat n) \<noteq> []"
    using show_nat_digits [of n] by (simp_all add: to_ascii_lowercase_def)
  have "parse_u32 (show_nat n) = (if n < 2 ^ 32 then Some n else None)"
    by (auto simp: parse_unsigned_def show_nat_unsigned parse_digits_def show_nat_digits digits_value_show)
  moreover have "1 \<le> n \<Longrightarrow> n < 2 ^ 32 \<Longrightarrow> max (of_nat n) (1 :: u32) = of_nat n"
    by (simp add: max_def word_le_nat_alt unat_of_nat)
  moreover have "\<not> 1 \<le> n \<Longrightarrow> max (of_nat n) (1 :: u32) = 1"
    by (cases n) simp_all
  ultimately show "parse_gpu_requirement (pre @ show_nat n) = (if 1 \<le> n \<and> n < 2 ^ 32 then of_nat n else 1)"
    using ne by (auto simp: parse_gpu_requirement_def t run Let_def)
  show "1 \<le> parse_gpu_requirement quota"
    using parse_gpu_requirement_pos [of quota] by (simp add: word_le_nat_alt)
qed

end
