(* ===== verification/Registry.thy ===== *)
theory Registry
  imports Job
begin

text \<open>
  The node registry of \<open>crates/common/src/node_registry.rs\<close>: the in-memory table of known nodes
  with their liveness status and the periodic check that derives the status from the time a node
  was last seen. The registry is its state record; each lock section is one operation.
\<close>

datatype node_status = Online | Degraded | Offline

fun node_status_to_u8 :: "node_status \<Rightarrow> u8" where
  "node_status_to_u8 Online = 0"
| "node_status_to_u8 Degraded = 1"
| "node_status_to_u8 Offline = 2"

definition node_status_from_u8 :: "u8 \<Rightarrow> node_status option" where
  "node_status_from_u8 v =
     (if v = 0 then Some Online else if v = 1 then Some Degraded
      else if v = 2 then Some Offline else None)"

record node_entry =
  ne_node_id :: string
  ne_hostname :: string
  ne_ip_address :: string
  ne_agent_version :: string
  ne_os_info :: string
  ne_kernel_version :: string
  ne_cpu_model :: string
  ne_cpu_cores :: u32
  ne_memory_total_bytes :: u64
  ne_registered_at :: time
  ne_last_seen :: time
  ne_status :: node_status
  ne_labels :: "(string, string) kmap"
  ne_gpu_count :: u32

record node_thresholds =
  online_secs :: u64
  degraded_secs :: u64
  offline_secs :: u64

definition default_thresholds :: node_thresholds where
  "default_thresholds = \<lparr>online_secs = 10, degraded_secs = 30, offline_secs = 60\<rparr>"

record registry_manager =
  reg_nodes :: "(string, node_entry) kmap"
  reg_thresholds :: node_thresholds

definition registry_new :: registry_manager where
  "registry_new = \<lparr>reg_nodes = [], reg_thresholds = default_thresholds\<rparr>"

definition with_thresholds :: "node_thresholds \<Rightarrow> registry_manager" where
  "with_thresholds th = \<lparr>reg_nodes = [], reg_thresholds = th\<rparr>"

definition register :: "node_entry \<Rightarrow> registry_manager \<Rightarrow> registry_manager" where
  "register node R = R\<lparr>reg_nodes := kput (ne_node_id node) node (reg_nodes R)\<rparr>"

definition update_last_seen :: "string \<Rightarrow> time \<Rightarrow> registry_manager \<Rightarrow> bool \<times> registry_manager" where
  "update_last_seen node_id now R =
     (case kget (reg_nodes R) node_id of
        Some entry \<Rightarrow>
          (True, R\<lparr>reg_nodes :=
             kmodify node_id (\<lambda>e. e\<lparr>ne_last_seen := now, ne_status := Online\<rparr>) (reg_nodes R)\<rparr>)
      | None \<Rightarrow> (False, R))"

definition update_status :: "string \<Rightarrow> node_status \<Rightarrow> registry_manager \<Rightarrow> registry_manager" where
  "update_status node_id st R =
     R\<lparr>reg_nodes := kmodify node_id (\<lambda>e. e\<lparr>ne_status := st\<rparr>) (reg_nodes R)\<rparr>"

definition update_gpu_count :: "string \<Rightarrow> u32 \<Rightarrow> registry_manager \<Rightarrow> registry_manager" where
  "update_gpu_count node_id n R =
     R\<lparr>reg_nodes := kmodify node_id (\<lambda>e. e\<lparr>ne_gpu_count := n\<rparr>) (reg_nodes R)\<rparr>"

definition registry_get :: "string \<Rightarrow> registry_manager \<Rightarrow> node_entry option" where
  "registry_get node_id R = kget (reg_nodes R) node_id"

definition registry_list :: "registry_manager \<Rightarrow> node_entry list" where
  "registry_list R = kvalues (reg_nodes R)"

definition list_online :: "registry_manager \<Rightarrow> node_entry list" where
  "list_online R = filter (\<lambda>n. ne_status n = Online) (kvalues (reg_nodes R))"

definition exists_node :: "string \<Rightarrow> registry_manager \<Rightarrow> bool" where
  "exists_node node_id R \<longleftrightarrow> kget (reg_nodes R) node_id \<noteq> None"

definition remove_node :: "string \<Rightarrow> registry_manager \<Rightarrow> registry_manager" where
  "remove_node node_id R = R\<lparr>reg_nodes := kdel node_id (reg_nodes R)\<rparr>"

definition count_nodes :: "registry_manager \<Rightarrow> nat" where
  "count_nodes R = length (reg_nodes R)"

definition set_thresholds :: "node_thresholds \<Rightarrow> registry_manager \<Rightarrow> registry_manager" where
  "set_thresholds th R = R\<lparr>reg_thresholds := th\<rparr>"

text \<open>The body of the loop: the elapsed seconds, cast to \<open>u64\<close>, against the thresholds.\<close>

definition status_at :: "node_thresholds \<Rightarrow> time \<Rightarrow> time \<Rightarrow> node_status" where
  "status_at th now last_seen =
     (let elapsed = i64_as_u64 (num_seconds (now - last_seen))
      in if elapsed \<le> online_secs th then Online
         else if elapsed \<le> degraded_secs th then Degraded
         else Offline)"

definition check_node_status :: "time \<Rightarrow> registry_manager \<Rightarrow> registry_manager" where
  "check_node_status now R =
     R\<lparr>reg_nodes :=
         kmap_values (\<lambda>e. e\<lparr>ne_status := status_at (reg_thresholds R) now (ne_last_seen e)\<rparr>) (reg_nodes R)\<rparr>"

subsection \<open>The invariant\<close>

definition registry_wf :: "registry_manager \<Rightarrow> bool" where
  "registry_wf R \<longleftrightarrow> kwf (reg_nodes R) \<and> (\<forall>k e. kget (reg_nodes R) k = Some e \<longrightarrow> ne_node_id e = k)"

text \<open>Every lock section that writes.\<close>

inductive registry_step :: "registry_manager \<Rightarrow> registry_manager \<Rightarrow> bool" where
  "registry_step R (register node R)"
| "registry_step R (snd (update_last_seen node_id now R))"
| "registry_step R (update_status node_id st R)"
| "registry_step R (update_gpu_count node_id n R)"
| "registry_step R (remove_node node_id R)"
| "registry_step R (set_thresholds th R)"
| "registry_step R (check_node_status now R)"

lemma kget_check_node_status:
  "kget (reg_nodes (check_node_status now R)) k =
     map_option (\<lambda>e. e\<lparr>ne_status := status_at (reg_thresholds R) now (ne_last_seen e)\<rparr>) (kget (reg_nodes R) k)"
  by (simp add: check_node_status_def kget_kmap_values)

lemma kwf_check_node_status [simp]: "kwf (reg_nodes (check_node_status now R)) \<longleftrightarrow> kwf (reg_nodes R)"
  by (simp add: check_node_status_def)

lemmas registry_ops = register_def update_last_seen_def update_status_def update_gpu_count_def
  remove_node_def set_thresholds_def

interpretation registry: safe_system "\<lambda>R. reg_nodes R = []" registry_step registry_wf
proof unfold_locales
  show "registry_wf R'" if "registry_wf R" "registry_step R R'" for R R'
    using that(2,1)
    by cases (auto simp: registry_wf_def kget_check_node_status registry_ops store_simps
        split: option.splits if_splits)
qed (simp add: registry_wf_def km.get_emp)

lemma list_online_member:
  assumes "registry_wf R"
  shows "e \<in> set (list_online R) \<longleftrightarrow> registry_get (ne_node_id e) R = Some e \<and> ne_status e = Online"
proof -
  have "e \<in> set (kvalues (reg_nodes R)) \<longleftrightarrow> kget (reg_nodes R) (ne_node_id e) = Some e"
    using assms by (metis kvalues_mem registry_wf_def)
  then show ?thesis by (auto simp: list_online_def registry_get_def)
qed

subsection \<open>Liveness of nodes\<close>

lemma status_at_past:
  assumes "last_seen \<le> now" "now - last_seen < seconds (2 ^ 63)"
  shows "status_at th now last_seen =
    (if now - last_seen < seconds (uint (online_secs th) + 1) then Online
     else if now - last_seen < seconds (uint (degraded_secs th) + 1) then Degraded else Offline)"
proof -
  let ?d = "now - last_seen"
  have d: "0 \<le> ?d" using assms(1) by simp
  have n: "0 \<le> num_seconds ?d" using d by (rule num_seconds_nonneg)
  have "num_seconds ?d \<le> 2 ^ 63" using assms(2) by (simp add: num_seconds_le_iff [OF d])
  then have m: "num_seconds ?d < 2 ^ 64" by simp
  have "i64_as_u64 (num_seconds ?d) \<le> w \<longleftrightarrow> ?d < seconds (uint w + 1)" for w
    using num_seconds_le_iff [OF d] by (simp add: word_le_def uint_i64_as_u64 [OF n m])
  then show ?thesis by (simp add: status_at_def)
qed

lemma status_at_future:
  assumes "now + seconds 1 \<le> last_seen" "last_seen - now < seconds (2 ^ 62)"
    and "uint (online_secs th) < 2 ^ 63" "uint (degraded_secs th) < 2 ^ 63"
  shows "status_at th now last_seen = Offline"
proof -
  let ?s = "num_seconds (now - last_seen)"
  have neg: "?s < 0" using num_seconds_neg [of "now - last_seen"] assms(1) by simp
  have "- ?s < 2 ^ 62" using assms(1,2) by (simp add: num_seconds_def)
  then have low: "- (2 ^ 63) \<le> ?s" by simp
  have "uint (i64_as_u64 ?s) = ?s + 2 ^ 64" using neg low by (rule uint_i64_as_u64_neg)
  then have "2 ^ 63 \<le> uint (i64_as_u64 ?s)" using low by simp
  then have "\<not> i64_as_u64 ?s \<le> w" if "uint w < 2 ^ 63" for w
    using that unfolding word_le_def by linarith
  then show ?thesis using assms(3,4) by (simp add: status_at_def)
qed

text \<open>After the periodic check, in every registry the server can reach, a node seen in the past
  is online, degraded or offline exactly by the whole seconds since it was last seen: online up to
  the first threshold, degraded up to the second, offline beyond; the third threshold plays no part.
  Nothing else of the entry changes and no node appears or disappears.\<close>

lemma check_node_status_spec:
  assumes "reach (\<lambda>R. reg_nodes R = []) registry_step R"
    and "registry_get n R = Some e" and "ne_last_seen e \<le> now" and "now - ne_last_seen e < seconds (2 ^ 63)"
  shows "registry_get n (check_node_status now R) = Some (e\<lparr>ne_status :=
      (if now - ne_last_seen e < seconds (uint (online_secs (reg_thresholds R)) + 1) then Online
       else if now - ne_last_seen e < seconds (uint (degraded_secs (reg_thresholds R)) + 1) then Degraded
       else Offline)\<rparr>) \<and> ne_node_id e = n \<and>
    map fst (reg_nodes (check_node_status now R)) = map fst (reg_nodes R)"
  using assms(2) registry.reach_inv [OF assms(1)]
  by (simp add: registry_get_def kget_check_node_status status_at_past [OF assms(3,4)] registry_wf_def)
    (simp add: check_node_status_def)

definition sample_node :: "string \<Rightarrow> time \<Rightarrow> node_entry" where
  "sample_node n seen =
     \<lparr>ne_node_id = n, ne_hostname = ''host'', ne_ip_address = ''10.0.0.1'', ne_agent_version = ''0.1.0'',
      ne_os_info = [], ne_kernel_version = [], ne_cpu_model = [], ne_cpu_cores = 8,
      ne_memory_total_bytes = 0, ne_registered_at = seen, ne_last_seen = seen, ne_status = Online,
      ne_labels = [], ne_gpu_count = 4\<rparr>"

text \<open>A node whose clock is ahead of the server's is reported offline: when the last-seen time
  lies a second or more in the future, the negative difference becomes a huge unsigned number and no
  threshold below \<open>2\<^sup>6\<^sup>3\<close> is reached.\<close>

lemma future_node_is_offline:
  assumes "registry_get n R = Some e"
    and "now + seconds 1 \<le> ne_last_seen e" and "ne_last_seen e - now < seconds (2 ^ 62)"
    and "uint (online_secs (reg_thresholds R)) < 2 ^ 63" and "uint (degraded_secs (reg_thresholds R)) < 2 ^ 63"
  shows "registry_get n (check_node_status now R) = Some (e\<lparr>ne_status := Offline\<rparr>)"
  using assms(1) by (simp add: registry_get_def kget_check_node_status status_at_future [OF assms(2-5)])

end
