(* ===== verification/Alert.thy ===== *)
theory Alert
  imports F64 Rust_Text Store
begin

text \<open>
  The alert engine of \<open>crates/common/src/alert.rs\<close>: operators, rules, and the per-key state machine
  Normal, Pending, Firing, Resolved over a map from (rule, node, GPU) to instances. The lemmas show
  the invariant of the instances, that keys do not interfere, and that an alert fires exactly when
  its condition has held without interruption for the duration of the rule.
\<close>

subsection \<open>Data\<close>

datatype alert_state = Normal | Pending | Firing | Resolved

fun alert_state_to_u8 :: "alert_state \<Rightarrow> u8" where
  "alert_state_to_u8 Normal = 0"
| "alert_state_to_u8 Pending = 1"
| "alert_state_to_u8 Firing = 2"
| "alert_state_to_u8 Resolved = 3"

definition alert_state_from_u8 :: "u8 \<Rightarrow> alert_state option" where
  "alert_state_from_u8 v =
     (if v = 0 then Some Normal else if v = 1 then Some Pending
      else if v = 2 then Some Firing else if v = 3 then Some Resolved else None)"

datatype alert_operator = Gt | Gte | Lt | Lte | Eq | Neq

definition EPSILON :: f64 where "EPSILON = Fin (1 / 2 ^ 52)"

definition approx_eq :: "f64 \<Rightarrow> f64 \<Rightarrow> bool" where
  "approx_eq a b \<longleftrightarrow>
     f64_le (f64_abs (f64_sub a b)) (f64_mul EPSILON (f64_max (f64_abs a) (f64_abs b)))"

fun operator_evaluate :: "alert_operator \<Rightarrow> f64 \<Rightarrow> f64 \<Rightarrow> bool" where
  "operator_evaluate Gt actual threshold = f64_lt threshold actual"
| "operator_evaluate Gte actual threshold = f64_le threshold actual"
| "operator_evaluate Lt actual threshold = f64_lt actual threshold"
| "operator_evaluate Lte actual threshold = f64_le actual threshold"
| "operator_evaluate Eq actual threshold = approx_eq actual threshold"
| "operator_evaluate Neq actual threshold = (\<not> approx_eq actual threshold)"

datatype alert_severity = Info | Warning | Critical

record alert_rule =
  rule_id :: string
  rule_name :: string
  rule_description :: string
  rule_metric :: string
  rule_operator :: alert_operator
  rule_threshold :: f64
  rule_duration_seconds :: u64
  rule_severity :: alert_severity
  rule_node_id :: string
  rule_gpu_uuids :: "string list"
  rule_labels :: "(string, string) kmap"
  rule_enabled :: bool
  rule_created_at :: time
  rule_updated_at :: time
  rule_created_by :: string

datatype alert_key = AlertKey (key_rule_id: string) (key_node_id: string) (key_gpu_uuid: string)

text \<open>Keys are ordered lexicographically, so that maps keyed by them are keyed stores.\<close>

instantiation alert_key :: linorder
begin

definition key_triple :: "alert_key \<Rightarrow> string list" where
  "key_triple k = [key_rule_id k, key_node_id k, key_gpu_uuid k]"

definition less_eq_alert_key :: "alert_key \<Rightarrow> alert_key \<Rightarrow> bool" where
  "less_eq_alert_key a b \<longleftrightarrow> key_triple a \<le> key_triple b"

definition less_alert_key :: "alert_key \<Rightarrow> alert_key \<Rightarrow> bool" where
  "less_alert_key a b \<longleftrightarrow> key_triple a < key_triple b"

instance
proof
  have inj: "key_triple a = key_triple b \<Longrightarrow> a = b" for a b
    by (cases a; cases b) (simp add: key_triple_def)
  show "a \<le> b \<Longrightarrow> b \<le> a \<Longrightarrow> a = b" for a b :: alert_key
    by (auto simp: less_eq_alert_key_def intro: inj)
qed (auto simp: less_eq_alert_key_def less_alert_key_def)

end

record alert_instance =
  inst_key :: alert_key
  inst_state :: alert_state
  inst_current_value :: "f64 option"
  inst_threshold :: f64
  inst_consecutive_count :: u32
  inst_triggered_at :: "time option"
  inst_resolved_at :: "time option"
  inst_last_updated :: time

record alert_event =
  ev_event_id :: string
  ev_rule_id :: string
  ev_node_id :: string
  ev_gpu_uuid :: string
  ev_old_state :: alert_state
  ev_new_state :: alert_state
  ev_current_value :: "f64 option"
  ev_threshold :: f64
  ev_timestamp :: time

type_synonym alert_engine = "(alert_key, alert_instance) kmap"

subsection \<open>Evaluation\<close>

definition required_duration :: "alert_rule \<Rightarrow> int option" where
  "required_duration r = chrono_seconds (u64_as_i64 (min (rule_duration_seconds r) (2 ^ 63 - 1)))"

definition make_event ::
  "string \<Rightarrow> alert_rule \<Rightarrow> string \<Rightarrow> string \<Rightarrow> alert_state \<Rightarrow> alert_state \<Rightarrow> f64 \<Rightarrow> time \<Rightarrow> alert_event" where
  "make_event uuid rule node_id gpu_uuid old new v now =
     \<lparr>ev_event_id = uuid, ev_rule_id = rule_id rule, ev_node_id = node_id, ev_gpu_uuid = gpu_uuid,
      ev_old_state = old, ev_new_state = new, ev_current_value = Some v,
      ev_threshold = rule_threshold rule, ev_timestamp = now\<rparr>"

definition fresh_instance :: "alert_rule \<Rightarrow> alert_key \<Rightarrow> time \<Rightarrow> alert_instance" where
  "fresh_instance rule key now =
     \<lparr>inst_key = key, inst_state = Normal, inst_current_value = None,
      inst_threshold = rule_threshold rule, inst_consecutive_count = 0, inst_triggered_at = None,
      inst_resolved_at = None, inst_last_updated = now\<rparr>"

text \<open>
  The \<open>match instance.state\<close> of \<open>evaluate\<close>. \<open>Inl\<close> is the instance as a panic of the duration
  conversion leaves it; \<open>Inr\<close> is the instance before \<open>last_updated\<close> is set, with the event.
\<close>

definition match_state ::
  "string \<Rightarrow> alert_rule \<Rightarrow> string \<Rightarrow> string \<Rightarrow> f64 \<Rightarrow> time \<Rightarrow> alert_instance
    \<Rightarrow> alert_instance + (alert_instance \<times> alert_event option)" where
  "match_state uuid rule node_id gpu_uuid v now i =
     (let condition_met = operator_evaluate (rule_operator rule) v (rule_threshold rule);
          event = (\<lambda>old new. Some (make_event uuid rule node_id gpu_uuid old new v now))
      in case inst_state i of
        Normal \<Rightarrow>
          if condition_met then
            let i = i\<lparr>inst_consecutive_count := inst_consecutive_count i + 1,
                      inst_current_value := Some v\<rparr>
            in if inst_consecutive_count i = 1
               then Inr (i\<lparr>inst_state := Pending, inst_triggered_at := Some now\<rparr>, event Normal Pending)
               else Inr (i, None)
          else Inr (i, None)
      | Pending \<Rightarrow>
          if condition_met then
            let i = i\<lparr>inst_consecutive_count := inst_consecutive_count i + 1,
                      inst_current_value := Some v\<rparr>;
                held_for = (case inst_triggered_at i of Some t \<Rightarrow> now - t | None \<Rightarrow> 0)
            in case required_duration rule of
                 None \<Rightarrow> Inl i
               | Some required \<Rightarrow>
                   if required \<le> held_for
                   then Inr (i\<lparr>inst_state := Firing\<rparr>, event Pending Firing)
                   else Inr (i, None)
          else Inr (i\<lparr>inst_consecutive_count := 0, inst_state := Normal, inst_triggered_at := None\<rparr>, None)
      | Firing \<Rightarrow>
          if \<not> condition_met
          then Inr (i\<lparr>inst_state := Resolved, inst_resolved_at := Some now, inst_current_value := Some v\<rparr>,
                    event Firing Resolved)
          else Inr (i\<lparr>inst_current_value := Some v\<rparr>, None)
      | Resolved \<Rightarrow>
          if condition_met
          then Inr (i\<lparr>inst_state := Pending, inst_resolved_at := None, inst_consecutive_count := 1,
                      inst_triggered_at := Some now, inst_current_value := Some v\<rparr>,
                    event Resolved Pending)
          else Inr (i, None))"

text \<open>The guards of \<open>evaluate\<close>: the rule is enabled and applies to this node and this GPU.\<close>

definition rule_applies :: "alert_rule \<Rightarrow> string \<Rightarrow> string \<Rightarrow> bool" where
  "rule_applies rule node_id gpu_uuid \<longleftrightarrow>
     rule_enabled rule
     \<and> \<not> (rule_node_id rule \<noteq> [] \<and> rule_node_id rule \<noteq> node_id)
     \<and> \<not> (rule_gpu_uuids rule \<noteq> [] \<and> gpu_uuid \<notin> set (rule_gpu_uuids rule))"

text \<open>\<open>AlertEngine::evaluate\<close>; \<open>Inl\<close> is the engine after a panic, whose lock is not poisoned.\<close>

definition evaluate ::
  "string \<Rightarrow> alert_rule \<Rightarrow> string \<Rightarrow> string \<Rightarrow> f64 \<Rightarrow> time \<Rightarrow> alert_engine
    \<Rightarrow> alert_engine + (alert_event option \<times> alert_engine)" where
  "evaluate uuid rule node_id gpu_uuid v now eng =
     (if \<not> rule_applies rule node_id gpu_uuid then Inr (None, eng)
      else
        let key = AlertKey (rule_id rule) node_id gpu_uuid;
            i = (case kget eng key of Some i \<Rightarrow> i | None \<Rightarrow> fresh_instance rule key now)
        in case match_state uuid rule node_id gpu_uuid v now i of
             Inl i \<Rightarrow> Inl (kput key i eng)
           | Inr (i, event) \<Rightarrow> Inr (event, kput key (i\<lparr>inst_last_updated := now\<rparr>) eng))"

definition get_state :: "alert_key \<Rightarrow> alert_engine \<Rightarrow> alert_state option" where
  "get_state key eng = map_option inst_state (kget eng key)"

definition get_all_states :: "alert_engine \<Rightarrow> alert_instance list" where
  "get_all_states eng = kvalues eng"

definition reset_state :: "alert_key \<Rightarrow> alert_engine \<Rightarrow> alert_engine" where
  "reset_state key eng =
     kmodify key (\<lambda>i. i\<lparr>inst_state := Normal, inst_consecutive_count := 0, inst_triggered_at := None,
                         inst_resolved_at := None, inst_current_value := None\<rparr>) eng"

definition remove_rule_instances :: "string \<Rightarrow> alert_engine \<Rightarrow> alert_engine" where
  "remove_rule_instances rid eng = kretain (\<lambda>key _. key_rule_id key \<noteq> rid) eng"

definition clear_engine :: "alert_engine \<Rightarrow> alert_engine" where "clear_engine eng = []"

subsection \<open>Operators\<close>

lemma approx_eq_commute: "approx_eq a b \<longleftrightarrow> approx_eq b a"
  by (simp add: approx_eq_def f64_abs_sub_commute [of a b] f64_max_commute)

lemma approx_eq_refl: "approx_eq (Fin x) (Fin x)"
  by (simp add: approx_eq_def f64_sub_def f64_max_def EPSILON_def round64_nonneg)

lemma approx_eq_NaN: "\<not> approx_eq NaN b"
  by (cases b) (simp_all add: approx_eq_def f64_sub_def f64_le_def EPSILON_def)

lemma f64_lt_NaN [simp]: "\<not> f64_lt NaN b" "\<not> f64_lt a NaN"
  by (cases a; cases b; simp)+

text \<open>The comparison operators of alert rules. On numbers the four orderings are complementary
  and the tolerant equality is reflexive and symmetric; a reading that is not a number satisfies no
  operator but \<open>Neq\<close>, which it always satisfies.\<close>

lemma operator_laws:
  "(a \<noteq> NaN \<and> b \<noteq> NaN \<longrightarrow>
      (operator_evaluate Gt a b \<longleftrightarrow> \<not> operator_evaluate Lte a b) \<and>
      (operator_evaluate Lt a b \<longleftrightarrow> \<not> operator_evaluate Gte a b)) \<and>
   operator_evaluate Eq (Fin x) (Fin x) \<and>
   (operator_evaluate Eq a b \<longleftrightarrow> operator_evaluate Eq b a) \<and>
   (operator_evaluate op NaN b \<longleftrightarrow> op = Neq)"
proof -
  have "operator_evaluate op NaN b \<longleftrightarrow> op = Neq"
    by (cases op) (simp_all add: approx_eq_NaN f64_le_def)
  moreover have "operator_evaluate Eq a b \<longleftrightarrow> operator_evaluate Eq b a"
    unfolding operator_evaluate.simps by (rule approx_eq_commute)
  ultimately show ?thesis by (simp only: operator_evaluate.simps) (simp add: f64_lt_not_le approx_eq_refl)
qed

subsection \<open>The invariant of the instances\<close>

definition instance_wf :: "alert_key \<Rightarrow> alert_instance \<Rightarrow> bool" where
  "instance_wf key i \<longleftrightarrow>
     inst_key i = key \<and>
     (inst_state i = Normal \<longrightarrow> inst_consecutive_count i = 0) \<and>
     (inst_triggered_at i = None \<longleftrightarrow> inst_state i = Normal) \<and>
     (inst_resolved_at i = None \<longleftrightarrow> inst_state i \<noteq> Resolved)"

definition engine_wf :: "alert_engine \<Rightarrow> bool" where
  "engine_wf eng \<longleftrightarrow> kwf eng \<and> (\<forall>key i. kget eng key = Some i \<longrightarrow> instance_wf key i)"

lemma fresh_instance_wf: "instance_wf key (fresh_instance rule key now)"
  by (simp add: instance_wf_def fresh_instance_def)

lemma match_state_wf:
  assumes "instance_wf key i"
  shows "(match_state u r n g v now i = Inl i' \<longrightarrow> instance_wf key i') \<and>
         (match_state u r n g v now i = Inr (i', ev) \<longrightarrow> instance_wf key i')"
  using assms unfolding match_state_def instance_wf_def Let_def
  by (cases "inst_state i") (auto split: if_splits option.splits)

lemma engine_wf_put: "engine_wf eng \<Longrightarrow> instance_wf key i \<Longrightarrow> engine_wf (kput key i eng)"
  by (auto simp: engine_wf_def store_simps)

lemma instance_of_wf:
  "engine_wf eng \<Longrightarrow>
   instance_wf key (case kget eng key of Some i \<Rightarrow> i | None \<Rightarrow> fresh_instance rule key now)"
  by (auto simp: engine_wf_def fresh_instance_wf split: option.split)

lemma evaluate_wf:
  assumes "engine_wf eng"
  shows "(evaluate u r n g v now eng = Inl eng' \<longrightarrow> engine_wf eng') \<and>
         (evaluate u r n g v now eng = Inr (ev, eng') \<longrightarrow> engine_wf eng')"
proof -
  let ?key = "AlertKey (rule_id r) n g"
  let ?i = "case kget eng ?key of Some i \<Rightarrow> i | None \<Rightarrow> fresh_instance r ?key now"
  have "instance_wf ?key ?i" using assms by (rule instance_of_wf)
  note step = match_state_wf [OF this, of u r n g v now]
  show ?thesis
  proof (cases "match_state u r n g v now ?i")
    case (Inl i)
    then have "instance_wf ?key i" using step by simp
    then show ?thesis using Inl assms by (auto simp: evaluate_def Let_def engine_wf_put)
  next
    case (Inr p)
    obtain i ev' where p: "p = (i, ev')" by (cases p)
    then have "instance_wf ?key i" using step Inr by simp
    then have "instance_wf ?key (i\<lparr>inst_last_updated := now\<rparr>)" by (simp add: instance_wf_def)
    then show ?thesis using Inr p assms by (auto simp: evaluate_def Let_def engine_wf_put)
  qed
qed

text \<open>Every operation of the engine as one step.\<close>

inductive engine_step :: "alert_engine \<Rightarrow> alert_engine \<Rightarrow> bool" where
  evaluated: "evaluate u r n g v now eng = Inr (ev, eng') \<Longrightarrow> engine_step eng eng'"
| panicked: "evaluate u r n g v now eng = Inl eng' \<Longrightarrow> engine_step eng eng'"
| reset: "engine_step eng (reset_state key eng)"
| rule_deleted: "engine_step eng (remove_rule_instances rid eng)"
| cleared: "engine_step eng (clear_engine eng)"

lemma reset_state_wf: "engine_wf eng \<Longrightarrow> engine_wf (reset_state key eng)"
  by (auto simp: engine_wf_def reset_state_def store_simps instance_wf_def split: if_splits)

lemma remove_rule_wf: "engine_wf eng \<Longrightarrow> engine_wf (remove_rule_instances rid eng)"
  by (auto simp: engine_wf_def remove_rule_instances_def kget_kretain split: option.splits if_splits)
    (simp add: kretain_def kwf_filter)

interpretation engine: safe_system "\<lambda>eng. eng = []" engine_step engine_wf
proof unfold_locales
  show "engine_wf eng'" if "engine_wf eng" "engine_step eng eng'" for eng eng'
    using that(2,1)
  proof cases
    case evaluated
    then show ?thesis using evaluate_wf [OF that(1)] by blast
  next
    case panicked
    then show ?thesis using evaluate_wf [OF that(1)] by blast
  next
    case cleared
    then show ?thesis by (simp add: clear_engine_def engine_wf_def km.get_emp)
  qed (use that(1) in \<open>simp_all add: reset_state_wf remove_rule_wf\<close>)
qed (simp add: engine_wf_def km.get_emp)

text \<open>In every state the engine can reach by evaluations, panics, resets, rule deletions and
  clears: an instance in state \<open>Normal\<close> has a zero count, so its next met condition always starts a
  pending window; the trigger time is set exactly outside \<open>Normal\<close> and the resolution time exactly
  in \<open>Resolved\<close>.\<close>

lemma engine_invariant:
  assumes "reach (\<lambda>eng. eng = []) engine_step eng" and "kget eng key = Some i"
  shows "inst_key i = key \<and>
    (inst_state i = Normal \<longrightarrow> inst_consecutive_count i = 0) \<and>
    (inst_triggered_at i = None \<longleftrightarrow> inst_state i = Normal) \<and>
    (inst_resolved_at i = None \<longleftrightarrow> inst_state i \<noteq> Resolved)"
  using engine.reach_inv [OF assms(1)] assms(2) by (simp add: engine_wf_def instance_wf_def)

definition sample_rule :: alert_rule where
  "sample_rule =
     \<lparr>rule_id = ''r1'', rule_name = ''hot'', rule_description = [], rule_metric = ''gpu_temperature'',
      rule_operator = Gt, rule_threshold = Fin 80, rule_duration_seconds = 30, rule_severity = Critical,
      rule_node_id = [], rule_gpu_uuids = [], rule_labels = [], rule_enabled = True,
      rule_created_at = 0, rule_updated_at = 0, rule_created_by = ''admin''\<rparr>"

lemmas evaluate_eval = evaluate_def match_state_def rule_applies_def fresh_instance_def
  sample_rule_def required_duration_def chrono_seconds_def u64_as_i64_def kget_def make_event_def Let_def

subsection \<open>Keys do not interfere\<close>

lemma evaluate_frame:
  assumes "key \<noteq> AlertKey (rule_id r) n g"
  shows "evaluate u r n g v now eng = Inl eng' \<Longrightarrow> kget eng' key = kget eng key"
    and "evaluate u r n g v now eng = Inr (ev, eng') \<Longrightarrow> kget eng' key = kget eng key"
  using assms
  by (auto simp: evaluate_def Let_def store_simps split: if_splits sum.splits)

subsection \<open>When an alert fires\<close>

type_synonym reading = "f64 \<times> time"

definition met :: "alert_rule \<Rightarrow> reading \<Rightarrow> bool" where
  "met r rd \<longleftrightarrow> operator_evaluate (rule_operator r) (fst rd) (rule_threshold r)"

text \<open>A sequence of readings given to \<open>evaluate\<close> in order; \<open>None\<close> is a panic.\<close>

fun feed :: "string \<Rightarrow> alert_rule \<Rightarrow> string \<Rightarrow> string \<Rightarrow> reading list \<Rightarrow> alert_engine \<Rightarrow> alert_engine option" where
  "feed u r n g [] eng = Some eng"
| "feed u r n g (rd # rds) eng =
     (case evaluate u r n g (fst rd) (snd rd) eng of
        Inl _ \<Rightarrow> None
      | Inr (_, eng') \<Rightarrow> feed u r n g rds eng')"

text \<open>The readings at the end of the history that met the condition without interruption.\<close>

definition streak :: "alert_rule \<Rightarrow> reading list \<Rightarrow> reading list" where
  "streak r rds = rev (takeWhile (met r) (rev rds))"

lemma streak_Nil [simp]: "streak r [] = []"
  by (simp add: streak_def)

lemma streak_snoc [simp]: "streak r (rds @ [rd]) = (if met r rd then streak r rds @ [rd] else [])"
  by (simp add: streak_def)

lemma streak_suffix: "\<exists>pre. rds = pre @ streak r rds"
proof -
  have "rev rds = takeWhile (met r) (rev rds) @ dropWhile (met r) (rev rds)" by simp
  then have "rds = rev (dropWhile (met r) (rev rds)) @ streak r rds"
    unfolding streak_def by (metis rev_append rev_rev_ident)
  then show ?thesis by blast
qed

lemma feed_append:
  "feed u r n g (rds @ rds') eng = Option.bind (feed u r n g rds eng) (feed u r n g rds')"
  by (induction rds arbitrary: eng) (auto split: sum.split)

text \<open>One reading, seen from the instance it reaches.\<close>

definition held_enough :: "int \<Rightarrow> reading list \<Rightarrow> bool" where
  "held_enough d h \<longleftrightarrow> 2 \<le> length h \<and> d \<le> snd (last h) - snd (hd h)"

definition instance_tracks :: "int \<Rightarrow> reading list \<Rightarrow> alert_instance \<Rightarrow> bool" where
  "instance_tracks d h i \<longleftrightarrow>
     (if h = [] then inst_state i = Normal \<or> inst_state i = Resolved
      else if held_enough d h then inst_state i = Firing
      else inst_state i = Pending \<and> inst_triggered_at i = Some (snd (hd h)))"

lemma match_state_tracks:
  assumes "instance_wf key i" "required_duration r = Some d" "instance_tracks d h i"
    and "\<forall>rd \<in> set h. snd rd \<le> now"
  shows "\<exists>i' ev. match_state u r n g v now i = Inr (i', ev) \<and>
    instance_tracks d (if met r (v, now) then h @ [(v, now)] else []) i'"
proof (cases "h = []")
  case True
  then show ?thesis
    using assms
    by (cases "inst_state i")
      (auto simp: match_state_def Let_def met_def instance_wf_def instance_tracks_def held_enough_def)
next
  case False
  then have le: "snd (last h) \<le> now" and len: "Suc 0 \<le> length h"
    using assms(4) by (auto simp: Suc_le_eq)
  have "held_enough d h \<Longrightarrow> held_enough d (h @ [(v, now)])"
    using le False by (auto simp: held_enough_def)
  moreover have "held_enough d (h @ [(v, now)]) \<longleftrightarrow> d \<le> now - snd (hd h)"
    using len False by (auto simp: held_enough_def)
  ultimately show ?thesis
    using False assms(2,3)
    by (cases "held_enough d h")
      (auto simp: match_state_def Let_def met_def instance_tracks_def)
qed

lemma feed_tracks:
  assumes "rule_applies r n g" "required_duration r = Some d"
    and "kget eng (AlertKey (rule_id r) n g) = None" "sorted (map snd rds)"
  shows "\<exists>eng'. feed u r n g rds eng = Some eng' \<and>
    (case kget eng' (AlertKey (rule_id r) n g) of
       None \<Rightarrow> rds = []
     | Some i \<Rightarrow> instance_wf (AlertKey (rule_id r) n g) i \<and> instance_tracks d (streak r rds) i)"
  using assms(4)
proof (induction rds rule: rev_induct)
  case Nil
  then show ?case using assms(3) by simp
next
  case (snoc rd rds)
  obtain v now where rd: "rd = (v, now)" by (cases rd)
  let ?key = "AlertKey (rule_id r) n g"
  from snoc.prems have srt: "sorted (map snd rds)" and late: "\<forall>x \<in> set rds. snd x \<le> now"
    by (auto simp: rd sorted_append)
  obtain eng' where eng': "feed u r n g rds eng = Some eng'"
    and st: "case kget eng' ?key of None \<Rightarrow> rds = []
      | Some i \<Rightarrow> instance_wf ?key i \<and> instance_tracks d (streak r rds) i"
    using snoc.IH [OF srt] by blast
  define i where "i = (case kget eng' ?key of Some i \<Rightarrow> i | None \<Rightarrow> fresh_instance r ?key now)"
  have wf: "instance_wf ?key i" and tr: "instance_tracks d (streak r rds) i"
    using st by (auto simp: i_def instance_wf_def instance_tracks_def fresh_instance_def split: option.splits)
  have "\<forall>x \<in> set (streak r rds). snd x \<le> now"
    using late streak_suffix [of rds r] by (metis UnCI set_append)
  from match_state_tracks [OF wf assms(2) tr this, of u n g v] obtain i' ev where
    i': "match_state u r n g v now i = Inr (i', ev)"
    and tr': "instance_tracks d (streak r (rds @ [rd])) i'" by (auto simp only: rd streak_snoc)
  have wf': "instance_wf ?key i'" using match_state_wf [OF wf] i' by blast
  have "feed u r n g (rds @ [rd]) eng = Some (kput ?key (i'\<lparr>inst_last_updated := now\<rparr>) eng')"
    using i' assms(1) by (simp add: feed_append eng' rd evaluate_def Let_def i_def)
  then show ?case
    using wf' tr' by (simp add: store_simps instance_wf_def instance_tracks_def)
qed

lemma required_duration_small:
  assumes "unat (rule_duration_seconds r) \<le> 9223372036854775"
  shows "required_duration r = Some (seconds (int (unat (rule_duration_seconds r))))"
proof -
  let ?d = "rule_duration_seconds r"
  have u: "uint ?d \<le> 9223372036854775" unfolding uint_nat using assms by linarith
  have "?d \<le> 2 ^ 63 - 1" using u by (simp add: word_le_def)
  then have m: "min ?d (2 ^ 63 - 1) = ?d" by (rule min_absorb1)
  have "- (2 ^ 63) \<le> uint ?d" by (rule order_trans [OF _ uint_ge_0]) simp
  then have "u64_as_i64 ?d = uint ?d"
    using i64_u64_roundtrip [of "uint ?d"] u by (simp add: i64_as_u64_def)
  then show ?thesis unfolding required_duration_def m chrono_seconds_def using u by simp
qed

text \<open>C9. An alert is firing exactly when its condition has held without interruption for the duration
  of the rule. For any history of readings in time order, from an engine that does not know the
  key: no evaluation panics, and the state is \<open>Firing\<close> if and only if the readings that met the
  condition at the end of the history are at least two and span the duration. It does not depend on
  how often readings arrive. (Durations up to the limit of the duration type; rules read from the
  database are below \<open>2\<^sup>3\<^sup>1\<close>.)\<close>

theorem alert_fires_iff_held:
  assumes "rule_applies r n g" and "unat (rule_duration_seconds r) \<le> 9223372036854775"
    and "kget eng (AlertKey (rule_id r) n g) = None" and "sorted (map snd rds)"
  shows "\<exists>eng'. feed u r n g rds eng = Some eng' \<and>
    (get_state (AlertKey (rule_id r) n g) eng' = Some Firing \<longleftrightarrow>
       2 \<le> length (streak r rds) \<and>
       seconds (int (unat (rule_duration_seconds r)))
         \<le> snd (last (streak r rds)) - snd (hd (streak r rds)))"
  using feed_tracks [OF assms(1) required_duration_small [OF assms(2)] assms(3,4), of u]
  by (auto simp: get_state_def instance_tracks_def held_enough_def split: option.splits if_splits)

theorem alert_fires_iff_held_witness:
  "\<exists>eng'. feed ''e'' sample_rule ''n1'' ''g1''
       [(Fin 70, seconds 0), (Fin 90, seconds 10), (Fin 85, seconds 25), (Fin 91, seconds 40)] [] = Some eng' \<and>
     get_state (AlertKey ''r1'' ''n1'' ''g1'') eng' = Some Firing"
proof -
  let ?rds = "[(Fin 70, seconds 0), (Fin 90, seconds 10), (Fin 85, seconds 25), (Fin 91, seconds 40)]"
  have "streak sample_rule ?rds = [(Fin 90, seconds 10), (Fin 85, seconds 25), (Fin 91, seconds 40)]"
    by (simp add: streak_def met_def sample_rule_def)
  moreover have "rule_applies sample_rule ''n1'' ''g1''" "rule_id sample_rule = ''r1''"
    "rule_duration_seconds sample_rule = 30"
    by (simp_all add: rule_applies_def sample_rule_def)
  ultimately show ?thesis
    using alert_fires_iff_held [of sample_rule "''n1''" "''g1''" "[]" ?rds "''e''"]
    by (simp add: km.get_emp)
qed

end
