(* ===== verification/Job_Queries.thy ===== *)
theory Job_Queries
  imports Job Json "HOL-Library.Multiset"
begin

text \<open>
  The \<open>jobs\<close> table and its statements: \<open>JobRow\<close> of \<open>crates/storage/src/models.rs\<close> and
  \<open>job_queries.rs\<close>. A row is a record whose \<open>node_id\<close> is nullable in the table and empty instead of
  null in what a query returns (\<open>COALESCE\<close>), so the record has the type of that column as its
  parameter. Every statement is a function of the table, its bound values and the statement's
  \<open>NOW()\<close>. The conditional updates are interpretations of \<open>guarded_update\<close>.
\<close>

record 'n job_row =
  jr_job_id :: string
  jr_node_id :: 'n
  jr_name :: string
  jr_executable :: string
  jr_arguments :: json
  jr_working_directory :: string
  jr_environment :: json
  jr_status :: string
  jr_pid :: "int option"
  jr_exit_code :: "int option"
  jr_error_message :: "string option"
  jr_created_at :: time
  jr_started_at :: "time option"
  jr_finished_at :: "time option"
  jr_created_by :: string
  jr_resource_quota :: "string option"
  jr_retry_count :: int
  jr_max_retries :: int

type_synonym stored_job = "string option job_row"
type_synonym job_table = "stored_job list"

definition with_node :: "'m \<Rightarrow> 'n job_row \<Rightarrow> 'm job_row" where
  "with_node n r =
     \<lparr>jr_job_id = jr_job_id r, jr_node_id = n, jr_name = jr_name r, jr_executable = jr_executable r,
      jr_arguments = jr_arguments r, jr_working_directory = jr_working_directory r,
      jr_environment = jr_environment r, jr_status = jr_status r, jr_pid = jr_pid r,
      jr_exit_code = jr_exit_code r, jr_error_message = jr_error_message r,
      jr_created_at = jr_created_at r, jr_started_at = jr_started_at r,
      jr_finished_at = jr_finished_at r, jr_created_by = jr_created_by r,
      jr_resource_quota = jr_resource_quota r, jr_retry_count = jr_retry_count r,
      jr_max_retries = jr_max_retries r\<rparr>"

text \<open>\<open>COALESCE(node_id, '')\<close>.\<close>

definition fetched :: "stored_job \<Rightarrow> string job_row" where
  "fetched r = with_node (case jr_node_id r of Some n \<Rightarrow> n | None \<Rightarrow> []) r"

text \<open>Errors a statement raises by itself; connection faults are arguments of the callers.\<close>

datatype db_error = UniqueViolation | ForeignKeyViolation | InvalidArgument | Unavailable

text \<open>\<open>node_ids\<close> are the keys of \<open>node_info\<close>, which \<open>jobs.node_id\<close> references.\<close>

definition insert_job :: "string list \<Rightarrow> string job_row \<Rightarrow> job_table \<Rightarrow> db_error + job_table" where
  "insert_job node_ids j t =
     (if jr_job_id j \<in> jr_job_id ` set t then Inl UniqueViolation
      else if jr_node_id j \<noteq> [] \<and> jr_node_id j \<notin> set node_ids then Inl ForeignKeyViolation
      else Inr (t @ [with_node (if jr_node_id j = [] then None else Some (jr_node_id j)) j]))"

definition get_job :: "string \<Rightarrow> job_table \<Rightarrow> string job_row option" where
  "get_job jid t = map_option fetched (find_by jr_job_id jid t)"

text \<open>The listing of the API: newest first, one page, with the total. The total is a statement of its
  own whose failure counts as zero. A negative limit or offset is an error of the database; the
  product wraps as an \<open>i64\<close>.\<close>

definition job_filter :: "string option \<Rightarrow> string option \<Rightarrow> string option \<Rightarrow> stored_job \<Rightarrow> bool" where
  "job_filter node_id status created_by r \<longleftrightarrow>
     (case node_id of Some n \<Rightarrow> jr_node_id r = Some n | None \<Rightarrow> True) \<and>
     (case status of Some s \<Rightarrow> jr_status r = s | None \<Rightarrow> True) \<and>
     (case created_by of Some c \<Rightarrow> jr_created_by r = c | None \<Rightarrow> True)"

definition list_jobs ::
  "bool \<Rightarrow> string option \<Rightarrow> string option \<Rightarrow> string option \<Rightarrow> int \<Rightarrow> int \<Rightarrow> job_table
    \<Rightarrow> db_error + (string job_row list \<times> nat)" where
  "list_jobs count_ok node_id status created_by page page_size t =
     (let offset = u64_as_i64 (i64_as_u64 (page * page_size));
          rows = select_where (job_filter node_id status created_by) t;
          total = (if count_ok then length rows else 0)
      in if page_size < 0 \<or> offset < 0 then Inl InvalidArgument
         else Inr (map fetched (take (nat page_size) (drop (nat offset)
                     (sort_key (\<lambda>r. - jr_created_at r) rows))), total))"

definition list_queued_jobs_for_scheduling :: "job_table \<Rightarrow> string job_row list" where
  "list_queued_jobs_for_scheduling t =
     map fetched (sort_key jr_created_at (select_where (\<lambda>r. jr_status r = ''queued'') t))"

definition get_jobs_for_node :: "string \<Rightarrow> job_table \<Rightarrow> string job_row list" where
  "get_jobs_for_node n t =
     map fetched (sort_key jr_created_at (select_where
       (\<lambda>r. jr_node_id r = Some n \<and> jr_status r \<in> {''starting'', ''stopping''}) t))"

subsection \<open>Conditional updates\<close>

definition queued_job :: "string \<Rightarrow> stored_job \<Rightarrow> bool" where
  "queued_job jid r \<longleftrightarrow> jr_job_id r = jid \<and> jr_status r = ''queued''"

definition assign_effect :: "string \<Rightarrow> time \<Rightarrow> stored_job \<Rightarrow> stored_job" where
  "assign_effect n now r = r\<lparr>jr_node_id := Some n, jr_status := ''starting'', jr_started_at := Some now\<rparr>"

definition assign_job_to_node ::
  "string list \<Rightarrow> time \<Rightarrow> string \<Rightarrow> string \<Rightarrow> job_table \<Rightarrow> db_error + (bool \<times> job_table)" where
  "assign_job_to_node node_ids now jid n t =
     (if 0 < rows_affected (queued_job jid) t \<and> n \<notin> set node_ids then Inl ForeignKeyViolation
      else Inr (0 < rows_affected (queued_job jid) t, update_where (queued_job jid) (assign_effect n now) t))"

definition list_stale_starting_jobs :: "time \<Rightarrow> job_table \<Rightarrow> (string \<times> string) list" where
  "list_stale_starting_jobs cutoff t =
     map (\<lambda>r. (jr_job_id r, case jr_node_id r of Some n \<Rightarrow> n | None \<Rightarrow> []))
       (select_where (\<lambda>r. jr_status r = ''starting'' \<and>
          (case jr_started_at r of Some s \<Rightarrow> s < cutoff | None \<Rightarrow> False)) t)"

definition requeue_effect :: "stored_job \<Rightarrow> stored_job" where
  "requeue_effect r =
     r\<lparr>jr_status := ''queued'', jr_started_at := None, jr_pid := None, jr_error_message := None\<rparr>"

definition requeue_guard :: "string \<Rightarrow> stored_job \<Rightarrow> bool" where
  "requeue_guard jid r \<longleftrightarrow> jr_job_id r = jid \<and> jr_status r = ''starting''"

definition requeue_stale_job :: "string \<Rightarrow> job_table \<Rightarrow> nat \<times> job_table" where
  "requeue_stale_job jid t =
     (rows_affected (requeue_guard jid) t, update_where (requeue_guard jid) requeue_effect t)"

definition lost_on_nodes :: "string list \<Rightarrow> stored_job \<Rightarrow> bool" where
  "lost_on_nodes ns r \<longleftrightarrow>
     (case jr_node_id r of Some n \<Rightarrow> n \<in> set ns | None \<Rightarrow> False) \<and> jr_status r \<in> {''running'', ''stopping''}"

definition lost_effect :: "time \<Rightarrow> string \<Rightarrow> stored_job \<Rightarrow> stored_job" where
  "lost_effect now msg r = r\<lparr>jr_status := ''lost'', jr_finished_at := Some now, jr_error_message := Some msg\<rparr>"

definition mark_lost_jobs_on_nodes :: "time \<Rightarrow> string list \<Rightarrow> string \<Rightarrow> job_table \<Rightarrow> string list \<times> job_table" where
  "mark_lost_jobs_on_nodes now ns msg t =
     (map jr_job_id (select_where (lost_on_nodes ns) t), update_where (lost_on_nodes ns) (lost_effect now msg) t)"

definition list_queued_jobs :: "int \<Rightarrow> job_table \<Rightarrow> db_error + string job_row list" where
  "list_queued_jobs limit t =
     (if limit < 0 then Inl InvalidArgument
      else Inr (map fetched (take (nat limit)
             (sort_key jr_created_at (select_where (\<lambda>r. jr_status r = ''queued'') t)))))"

definition list_active_jobs :: "job_table \<Rightarrow> string job_row list" where
  "list_active_jobs t =
     map fetched (select_where (\<lambda>r. jr_status r \<in> {''starting'', ''running'', ''stopping''}) t)"

text \<open>\<open>COALESCE($n, column)\<close>.\<close>

definition coalesce :: "'a option \<Rightarrow> 'a option \<Rightarrow> 'a option" where
  "coalesce a b = (case a of Some x \<Rightarrow> Some x | None \<Rightarrow> b)"

definition update_job_status ::
  "string \<Rightarrow> string \<Rightarrow> int option \<Rightarrow> int option \<Rightarrow> string option \<Rightarrow> time option \<Rightarrow> time option
    \<Rightarrow> job_table \<Rightarrow> job_table" where
  "update_job_status jid status pid exit_code error_message started_at finished_at t =
     update_where (\<lambda>r. jr_job_id r = jid)
       (\<lambda>r. r\<lparr>jr_status := status, jr_pid := pid, jr_exit_code := exit_code,
              jr_error_message := error_message,
              jr_started_at := coalesce started_at (jr_started_at r),
              jr_finished_at := coalesce finished_at (jr_finished_at r)\<rparr>) t"

definition get_running_jobs_on :: "string \<Rightarrow> job_table \<Rightarrow> string job_row list" where
  "get_running_jobs_on n t =
     map fetched (select_where (\<lambda>r. jr_node_id r = Some n \<and> jr_status r \<in> {''running'', ''starting''}) t)"

definition cancel_effect :: "time \<Rightarrow> stored_job \<Rightarrow> stored_job" where
  "cancel_effect now r =
     r\<lparr>jr_status := ''cancelled'', jr_error_message := Some ''cancelled before start'', jr_finished_at := Some now\<rparr>"

definition cancel_queued_job :: "time \<Rightarrow> string \<Rightarrow> job_table \<Rightarrow> bool \<times> job_table" where
  "cancel_queued_job now jid t =
     (0 < rows_affected (queued_job jid) t, update_where (queued_job jid) (cancel_effect now) t)"

definition mark_force_cancel :: "string \<Rightarrow> job_table \<Rightarrow> job_table" where
  "mark_force_cancel jid t =
     update_where (\<lambda>r. jr_job_id r = jid) (\<lambda>r. r\<lparr>jr_error_message := Some FORCE_CANCEL_MARKER\<rparr>) t"

definition active_job :: "string \<Rightarrow> stored_job \<Rightarrow> bool" where
  "active_job jid r \<longleftrightarrow> jr_job_id r = jid \<and> jr_status r \<in> {''starting'', ''running''}"

definition stopping_effect :: "stored_job \<Rightarrow> stored_job" where
  "stopping_effect r = r\<lparr>jr_status := ''stopping''\<rparr>"

definition mark_stopping_if_active :: "string \<Rightarrow> job_table \<Rightarrow> bool \<times> job_table" where
  "mark_stopping_if_active jid t =
     (0 < rows_affected (active_job jid) t, update_where (active_job jid) stopping_effect t)"

definition stale_stopping :: "time \<Rightarrow> stored_job \<Rightarrow> bool" where
  "stale_stopping cutoff r \<longleftrightarrow> jr_status r = ''stopping'' \<and>
     (case jr_started_at r of Some s \<Rightarrow> s | None \<Rightarrow> jr_created_at r) < cutoff"

text \<open>\<open>lost\<close> with the earlier error message kept when there is one.\<close>

definition lost_default_effect :: "time \<Rightarrow> string \<Rightarrow> stored_job \<Rightarrow> stored_job" where
  "lost_default_effect now msg r =
     r\<lparr>jr_status := ''lost'', jr_error_message := coalesce (jr_error_message r) (Some msg),
       jr_finished_at := Some now\<rparr>"

definition reset_stale_stopping_jobs :: "time \<Rightarrow> time \<Rightarrow> job_table \<Rightarrow> string list \<times> job_table" where
  "reset_stale_stopping_jobs now cutoff t =
     (map jr_job_id (select_where (stale_stopping cutoff) t),
      update_where (stale_stopping cutoff) (lost_default_effect now ''stopping timed out'') t)"

definition running_on_nodes :: "string list \<Rightarrow> stored_job \<Rightarrow> bool" where
  "running_on_nodes ns r \<longleftrightarrow>
     (case jr_node_id r of Some n \<Rightarrow> n \<in> set ns | None \<Rightarrow> False) \<and> jr_status r = ''running''"

definition mark_running_jobs_lost :: "time \<Rightarrow> string list \<Rightarrow> job_table \<Rightarrow> string list \<times> job_table" where
  "mark_running_jobs_lost now ns t =
     (map jr_job_id (select_where (running_on_nodes ns) t),
      update_where (running_on_nodes ns) (lost_default_effect now ''node offline for extended period'') t)"

text \<open>A null \<open>node_id\<close> is null in the comparison with a non-empty list, so such a row is not reset;
  the comparison with any element of an empty list is false.\<close>

definition stale_starting :: "time \<Rightarrow> string list \<Rightarrow> stored_job \<Rightarrow> bool" where
  "stale_starting cutoff online r \<longleftrightarrow> jr_status r = ''starting'' \<and>
     (case jr_started_at r of Some s \<Rightarrow> s < cutoff | None \<Rightarrow> False) \<and>
     (case jr_node_id r of Some n \<Rightarrow> n \<notin> set online | None \<Rightarrow> online = [])"

definition reset_stale_starting_jobs :: "time \<Rightarrow> string list \<Rightarrow> job_table \<Rightarrow> string list \<times> job_table" where
  "reset_stale_starting_jobs cutoff online t =
     (map jr_job_id (select_where (stale_starting cutoff online) t),
      update_where (stale_starting cutoff online) requeue_effect t)"

lemmas job_guards = queued_job_def requeue_guard_def lost_on_nodes_def active_job_def stale_stopping_def
  running_on_nodes_def stale_starting_def
lemmas job_effects = assign_effect_def requeue_effect_def lost_effect_def cancel_effect_def
  stopping_effect_def lost_default_effect_def

subsection \<open>The conditional updates take effect once\<close>

interpretation assign: guarded_update jr_job_id "queued_job jid" "assign_effect n now" for jid n now
  by unfold_locales (auto simp: job_guards job_effects)

interpretation cancel: guarded_update jr_job_id "queued_job jid" "cancel_effect now" for jid now
  by unfold_locales (auto simp: job_guards job_effects)

interpretation requeue: guarded_update jr_job_id "requeue_guard jid" requeue_effect for jid
  by unfold_locales (auto simp: job_guards job_effects)

interpretation stopping: guarded_update jr_job_id "active_job jid" stopping_effect for jid
  by unfold_locales (auto simp: job_guards job_effects)

interpretation lost_nodes: guarded_update jr_job_id "lost_on_nodes ns" "lost_effect now msg" for ns now msg
  by unfold_locales (auto simp: job_guards job_effects)

interpretation stop_timeout: guarded_update jr_job_id "stale_stopping cutoff" "lost_default_effect now msg"
  for cutoff now msg
  by unfold_locales (auto simp: job_guards job_effects)

interpretation node_gone: guarded_update jr_job_id "running_on_nodes ns" "lost_default_effect now msg"
  for ns now msg
  by unfold_locales (auto simp: job_guards job_effects)

interpretation start_timeout: guarded_update jr_job_id "stale_starting cutoff online" requeue_effect
  for cutoff online
  by unfold_locales (auto simp: job_guards job_effects)

subsection \<open>Racing dispatches and cancellations\<close>

datatype claim = Dispatch string time | CancelQueued time

definition apply_claim :: "string list \<Rightarrow> string \<Rightarrow> claim \<Rightarrow> job_table \<Rightarrow> bool \<times> job_table" where
  "apply_claim node_ids jid c t =
     (case c of
        Dispatch n now \<Rightarrow> (case assign_job_to_node node_ids now jid n t of Inr r \<Rightarrow> r | Inl _ \<Rightarrow> (False, t))
      | CancelQueued now \<Rightarrow> cancel_queued_job now jid t)"

fun race :: "string list \<Rightarrow> string \<Rightarrow> claim list \<Rightarrow> job_table \<Rightarrow> bool list \<times> job_table" where
  "race node_ids jid [] t = ([], t)"
| "race node_ids jid (c # cs) t =
     (let (won, t1) = apply_claim node_ids jid c t; (rest, t2) = race node_ids jid cs t1
      in (won # rest, t2))"

lemma claim_idle:
  assumes "rows_affected (queued_job jid) t = 0"
  shows "apply_claim node_ids jid c t = (False, t)"
proof -
  have "update_where (queued_job jid) f t = t" for f
    using assms by (intro update_where_idle) (auto simp: rows_affected_0)
  then show ?thesis using assms
    by (auto simp: apply_claim_def assign_job_to_node_def cancel_queued_job_def split: claim.split)
qed

lemma race_idle:
  "rows_affected (queued_job jid) t = 0 \<Longrightarrow> race node_ids jid cs t = (replicate (length cs) False, t)"
  by (induction cs) (simp_all add: claim_idle)

lemma claim_exhausts:
  assumes "\<forall>n now. c = Dispatch n now \<longrightarrow> n \<in> set node_ids"
  shows "rows_affected (queued_job jid) (snd (apply_claim node_ids jid c t)) = 0"
  using assms
  by (cases c) (simp_all add: apply_claim_def assign_job_to_node_def cancel_queued_job_def assign.once cancel.once)

text \<open>C8. A queued job is claimed once. Of any number of dispatches and cancellations of the same job,
  in any order, only the first can succeed, and it does exactly when the job is still queued; all
  later ones report that they did nothing and leave the table as the first one left it. A cancelled
  job is therefore never resurrected by a dispatch, nor a dispatched one clobbered by a
  cancellation. (Dispatches name nodes that exist.)\<close>

theorem queued_job_claimed_once:
  assumes "\<forall>n now. c = Dispatch n now \<longrightarrow> n \<in> set node_ids"
  shows "race node_ids jid (c # cs) t =
    ((\<exists>r \<in> set t. jr_job_id r = jid \<and> jr_status r = ''queued'') # replicate (length cs) False,
     snd (apply_claim node_ids jid c t))"
proof -
  have "fst (apply_claim node_ids jid c t) \<longleftrightarrow> (\<exists>r \<in> set t. jr_job_id r = jid \<and> jr_status r = ''queued'')"
    using assms
    by (cases c) (auto simp: apply_claim_def assign_job_to_node_def cancel_queued_job_def
        rows_affected_pos queued_job_def)
  moreover have "race node_ids jid cs (snd (apply_claim node_ids jid c t)) =
      (replicate (length cs) False, snd (apply_claim node_ids jid c t))"
    using assms by (intro race_idle claim_exhausts)
  ultimately show ?thesis
    by (cases "apply_claim node_ids jid c t") (simp add: Let_def)
qed

definition sample_row :: "string \<Rightarrow> string \<Rightarrow> string option \<Rightarrow> time option \<Rightarrow> stored_job" where
  "sample_row i st n started_at =
     \<lparr>jr_job_id = i, jr_node_id = n, jr_name = ''train'', jr_executable = ''/bin/sh'', jr_arguments = JArr [],
      jr_working_directory = ''/'', jr_environment = JObj [], jr_status = st, jr_pid = None,
      jr_exit_code = None, jr_error_message = None, jr_created_at = 0, jr_started_at = started_at,
      jr_finished_at = None, jr_created_by = ''admin'', jr_resource_quota = None, jr_retry_count = 0,
      jr_max_retries = 0\<rparr>"

theorem queued_job_claimed_once_witness:
  "fst (race [''n1''] ''j1'' [Dispatch ''n1'' 5, CancelQueued 6, Dispatch ''n1'' 7]
     [sample_row ''j1'' ''queued'' None None]) = [True, False, False]"
  using queued_job_claimed_once [of "Dispatch ''n1'' 5" "[''n1'']" "''j1''" "[CancelQueued 6, Dispatch ''n1'' 7]"
      "[sample_row ''j1'' ''queued'' None None]"]
  by (simp add: sample_row_def numeral_2_eq_2)

subsection \<open>What the conditional updates may do to a row\<close>

text \<open>One conditional statement, on the whole table.\<close>

inductive table_step :: "job_table \<Rightarrow> job_table \<Rightarrow> bool" where
  assigned: "assign_job_to_node node_ids now jid n t = Inr (b, t') \<Longrightarrow> table_step t t'"
| requeued: "table_step t (snd (requeue_stale_job jid t))"
| lost_node: "table_step t (snd (mark_lost_jobs_on_nodes now ns msg t))"
| cancelled: "table_step t (snd (cancel_queued_job now jid t))"
| stopped: "table_step t (snd (mark_stopping_if_active jid t))"
| stop_timed_out: "table_step t (snd (reset_stale_stopping_jobs now cutoff t))"
| node_lost: "table_step t (snd (mark_running_jobs_lost now ns t))"
| start_timed_out: "table_step t (snd (reset_stale_starting_jobs cutoff online t))"

definition table_edges :: "(string \<times> string) list" where
  "table_edges =
     [(''queued'', ''starting''), (''queued'', ''cancelled''), (''starting'', ''queued''),
      (''starting'', ''stopping''), (''running'', ''stopping''), (''running'', ''lost''), (''stopping'', ''lost'')]"

definition row_move :: "stored_job \<Rightarrow> stored_job \<Rightarrow> bool" where
  "row_move r r' \<longleftrightarrow> r' = r \<or>
     (jr_status r, jr_status r') \<in> set table_edges \<and> jr_job_id r' = jr_job_id r \<and>
     jr_created_at r' = jr_created_at r \<and> jr_created_by r' = jr_created_by r \<and>
     jr_exit_code r' = jr_exit_code r"

lemma update_where_moves:
  "(\<And>r. P r \<Longrightarrow> row_move r (f r)) \<Longrightarrow> list_all2 row_move t (update_where P f t)"
  by (simp add: update_where_def list_all2_map2 list_all2_same row_move_def [of _ "_"])

lemma statement_moves:
  "queued_job jid r \<Longrightarrow> row_move r (assign_effect n now r)"
  "queued_job jid r \<Longrightarrow> row_move r (cancel_effect now r)"
  "requeue_guard jid r \<Longrightarrow> row_move r (requeue_effect r)"
  "stale_starting cutoff online r \<Longrightarrow> row_move r (requeue_effect r)"
  "active_job jid r \<Longrightarrow> row_move r (stopping_effect r)"
  "lost_on_nodes ns r \<Longrightarrow> row_move r (lost_effect now msg r)"
  "stale_stopping cutoff r \<Longrightarrow> row_move r (lost_default_effect now msg r)"
  "running_on_nodes ns r \<Longrightarrow> row_move r (lost_default_effect now msg r)"
  by (auto simp: row_move_def table_edges_def job_guards job_effects)

lemmas table_statements = requeue_stale_job_def mark_lost_jobs_on_nodes_def cancel_queued_job_def
  mark_stopping_if_active_def reset_stale_stopping_jobs_def mark_running_jobs_lost_def
  reset_stale_starting_jobs_def

lemma table_step_moves: "table_step t t' \<Longrightarrow> list_all2 row_move t t'"
proof (induction rule: table_step.induct)
  case (assigned node_ids now jid n t b t')
  then have "t' = update_where (queued_job jid) (assign_effect n now) t"
    by (simp add: assign_job_to_node_def split: if_splits)
  then show ?case by (simp add: update_where_moves statement_moves)
qed (simp_all add: table_statements update_where_moves statement_moves)

lemma row_move_terminal:
  "row_move r r' \<Longrightarrow> jr_status r \<in> {''succeeded'', ''failed'', ''cancelled'', ''lost''} \<Longrightarrow> r' = r"
  by (auto simp: row_move_def table_edges_def)

lemma table_run_terminal:
  "table_step\<^sup>*\<^sup>* t t' \<Longrightarrow> length t' = length t \<and> map jr_job_id t' = map jr_job_id t \<and>
     (\<forall>i < length t. jr_status (t ! i) \<in> {''succeeded'', ''failed'', ''cancelled'', ''lost''} \<longrightarrow> t' ! i = t ! i)"
proof (induction rule: rtranclp_induct)
  case (step u v)
  have m: "list_all2 row_move u v" using step.hyps(2) by (rule table_step_moves)
  then have "map jr_job_id v = map jr_job_id u"
    by (auto simp: list_all2_conv_all_nth row_move_def intro!: nth_equalityI)
  moreover have "row_move (u ! i) (v ! i)" if "i < length t" for i
    using m step.IH that by (simp add: list_all2_conv_all_nth)
  ultimately show ?case
    using step.IH m row_move_terminal by (metis list_all2_lengthD)
qed simp

text \<open>No conditional statement touches a finished job: through any sequence of dispatches,
  cancellations, stop requests, requeues and timeouts, a row whose status is succeeded, failed,
  cancelled or lost stays exactly as it is, no row appears or disappears, and no row changes its
  identifier.\<close>

lemma finished_rows_are_final:
  assumes "table_step\<^sup>*\<^sup>* t t'"
  shows "map jr_job_id t' = map jr_job_id t \<and>
    (\<forall>i < length t. jr_status (t ! i) \<in> {''succeeded'', ''failed'', ''cancelled'', ''lost''} \<longrightarrow> t' ! i = t ! i)"
  using table_run_terminal [OF assms] by blast

subsection \<open>Scans\<close>

text \<open>The scan that feeds the scheduler is complete and first-come-first-served: it returns every
  queued job once, oldest first, and nothing else, however many there are.\<close>

lemma scheduling_scan_complete:
  "mset (list_queued_jobs_for_scheduling t) = mset (map fetched (filter (\<lambda>r. jr_status r = ''queued'') t)) \<and>
   sorted (map jr_created_at (list_queued_jobs_for_scheduling t))"
proof -
  have "jr_created_at \<circ> fetched = jr_created_at" by (simp add: fun_eq_iff fetched_def with_node_def)
  then show ?thesis by (simp add: list_queued_jobs_for_scheduling_def select_where_def)
qed

text \<open>A page of the job listing is what its arguments say: for a page number and a page size that
  are not negative and whose product fits, the pages of one size partition the matching rows,
  newest first, and the total is their number.\<close>

lemma job_pages:
  assumes "0 \<le> page" and "0 < sz" and "page * sz < 2 ^ 63"
    and "list_jobs True node_id status created_by page sz t = Inr (rows, matches)"
  shows "matches = length (filter (job_filter node_id status created_by) t) \<and>
    rows = map fetched (take (nat sz) (drop (nat page * nat sz)
      (sort_key (\<lambda>r. - jr_created_at r) (filter (job_filter node_id status created_by) t))))"
proof -
  have "0 \<le> page * sz" using assms(1,2) by simp
  then have "u64_as_i64 (i64_as_u64 (page * sz)) = page * sz"
    using assms(3) by (intro i64_u64_roundtrip) simp_all
  then show ?thesis
    using assms by (auto simp: list_jobs_def Let_def select_where_def nat_mult_distrib split: if_splits)
qed

subsection \<open>Stop requests of long-running jobs\<close>

text \<open>The stop timeout is measured from the start of the run, not from the stop request: a job that
  has been running since before the cutoff and is asked to stop is declared lost by the very next
  pass of the timeout, however recent the request is.\<close>

lemma long_running_stop_is_lost:
  assumes "r \<in> set t" and "jr_status r = ''running''" and "jr_started_at r = Some started" and "started < cutoff"
  shows "\<exists>r' \<in> set (snd (reset_stale_stopping_jobs now cutoff (snd (mark_stopping_if_active (jr_job_id r) t)))).
    jr_job_id r' = jr_job_id r \<and> jr_status r' = ''lost''"
proof -
  have "active_job (jr_job_id r) r" using assms(2) by (simp add: active_job_def)
  then have s: "stopping_effect r \<in> set (snd (mark_stopping_if_active (jr_job_id r) t))"
    using assms(1) stopping.changed by (simp add: mark_stopping_if_active_def)
  have "stale_stopping cutoff (stopping_effect r)"
    using assms(3,4) by (simp add: stale_stopping_def stopping_effect_def)
  from stop_timeout.changed [OF s this] show ?thesis
    unfolding reset_stale_stopping_jobs_def
    by (intro bexI [of _ "lost_default_effect now ''stopping timed out'' (stopping_effect r)"])
      (simp_all add: job_effects)
qed

end
