(* ===== verification/Alert_Queries.thy ===== *)
theory Alert_Queries
  imports Alert Job_Queries
begin

text \<open>
  The \<open>alert_rules\<close>, \<open>alert_events\<close> and \<open>audit_logs\<close> tables: the row types of
  \<open>crates/storage/src/models.rs\<close> and the statements of \<open>alert_queries.rs\<close> and \<open>audit_queries.rs\<close>.
  Generated identifiers and the clock are arguments. Where SQL leaves the order of rows with equal
  time stamps open, the model takes the order of insertion.
\<close>

record alert_rule_row =
  ar_rule_id :: string
  ar_name :: string
  ar_description :: "string option"
  ar_metric :: string
  ar_operator :: string
  ar_threshold :: f64
  ar_duration_seconds :: int
  ar_severity :: string
  ar_node_id :: string
  ar_gpu_uuids :: json
  ar_labels :: json
  ar_enabled :: bool
  ar_created_at :: time
  ar_updated_at :: time
  ar_created_by :: string

record alert_event_row =
  ae_event_id :: string
  ae_rule_id :: string
  ae_node_id :: string
  ae_gpu_uuid :: string
  ae_old_state :: "string option"
  ae_new_state :: string
  ae_current_value :: "f64 option"
  ae_threshold :: f64
  ae_notification_sent :: "string option"
  ae_timestamp :: time

record audit_log_row =
  al_log_id :: string
  al_username :: string
  al_action :: string
  al_target :: "string option"
  al_target_type :: "string option"
  al_details :: "string option"
  al_result :: string
  al_source_ip :: "string option"
  al_timestamp :: time

record alert_db =
  adb_rules :: "alert_rule_row list"
  adb_events :: "alert_event_row list"

subsection \<open>Rules\<close>

definition insert_alert_rule :: "alert_rule_row \<Rightarrow> alert_db \<Rightarrow> db_error + alert_db" where
  "insert_alert_rule r A =
     (if ar_rule_id r \<in> ar_rule_id ` set (adb_rules A) then Inl UniqueViolation
      else Inr (A\<lparr>adb_rules := adb_rules A @ [r]\<rparr>))"

definition get_alert_rule :: "string \<Rightarrow> alert_db \<Rightarrow> alert_rule_row option" where
  "get_alert_rule rid A = find_by ar_rule_id rid (adb_rules A)"

definition list_alert_rules :: "alert_db \<Rightarrow> alert_rule_row list" where
  "list_alert_rules A = sort_key (\<lambda>r. - ar_created_at r) (adb_rules A)"

definition update_alert_rule ::
  "time \<Rightarrow> string \<Rightarrow> string \<Rightarrow> string \<Rightarrow> string \<Rightarrow> string \<Rightarrow> f64 \<Rightarrow> int \<Rightarrow> string \<Rightarrow> string \<Rightarrow> json \<Rightarrow> json
    \<Rightarrow> bool \<Rightarrow> alert_db \<Rightarrow> alert_db" where
  "update_alert_rule now rid name description metric operator threshold duration severity node_id
      gpu_uuids labels enabled A =
     A\<lparr>adb_rules := update_where (\<lambda>r. ar_rule_id r = rid)
         (\<lambda>r. r\<lparr>ar_name := name, ar_description := Some description, ar_metric := metric,
                ar_operator := operator, ar_threshold := threshold, ar_duration_seconds := duration,
                ar_severity := severity, ar_node_id := node_id, ar_gpu_uuids := gpu_uuids,
                ar_labels := labels, ar_enabled := enabled, ar_updated_at := now\<rparr>) (adb_rules A)\<rparr>"

definition delete_alert_rule_cascade :: "string \<Rightarrow> alert_db \<Rightarrow> nat \<times> alert_db" where
  "delete_alert_rule_cascade rid A =
     (rows_affected (\<lambda>r. ar_rule_id r = rid) (adb_rules A),
      \<lparr>adb_rules = delete_where (\<lambda>r. ar_rule_id r = rid) (adb_rules A),
       adb_events = delete_where (\<lambda>e. ae_rule_id e = rid) (adb_events A)\<rparr>)"

subsection \<open>Events\<close>

definition insert_alert_event :: "alert_event_row \<Rightarrow> alert_db \<Rightarrow> db_error + alert_db" where
  "insert_alert_event e A =
     (if ae_event_id e \<in> ae_event_id ` set (adb_events A) then Inl UniqueViolation
      else if ae_rule_id e \<notin> ar_rule_id ` set (adb_rules A) then Inl ForeignKeyViolation
      else Inr (A\<lparr>adb_events := adb_events A @ [e]\<rparr>))"

definition event_key :: "alert_event_row \<Rightarrow> alert_key" where
  "event_key e = AlertKey (ae_rule_id e) (ae_node_id e) (ae_gpu_uuid e)"

definition latest_events :: "alert_event_row list \<Rightarrow> alert_event_row list" where
  "latest_events es = distinct_on event_key (sort_key (\<lambda>e. - ae_timestamp e) es)"

definition active_state :: "string \<Rightarrow> bool" where
  "active_state s \<longleftrightarrow> s = ''pending'' \<or> s = ''firing''"

definition get_active_alert_events :: "alert_db \<Rightarrow> alert_event_row list" where
  "get_active_alert_events A =
     sort_key (\<lambda>e. - ae_timestamp e)
       (select_where (\<lambda>e. active_state (ae_new_state e)) (latest_events (adb_events A)))"

definition resolved_event :: "string \<Rightarrow> time \<Rightarrow> alert_event_row \<Rightarrow> alert_event_row" where
  "resolved_event i now t =
     \<lparr>ae_event_id = i, ae_rule_id = ae_rule_id t, ae_node_id = ae_node_id t, ae_gpu_uuid = ae_gpu_uuid t,
      ae_old_state = Some (ae_new_state t), ae_new_state = ''resolved'',
      ae_current_value = ae_current_value t, ae_threshold = ae_threshold t,
      ae_notification_sent = None, ae_timestamp = now\<rparr>"

text \<open>The random event identifiers are an argument, one per appended row.\<close>

definition expire_stale_alerts ::
  "(nat \<Rightarrow> string) \<Rightarrow> time \<Rightarrow> time \<Rightarrow> alert_db \<Rightarrow> db_error + (alert_key list \<times> alert_db)" where
  "expire_stale_alerts ids now cutoff A =
     (let stale = select_where (\<lambda>t. active_state (ae_new_state t) \<and> ae_timestamp t < cutoff)
                    (latest_events (adb_events A));
          new = map2 (\<lambda>i t. resolved_event (ids i) now t) [0..<length stale] stale
      in if \<not> distinct (map ae_event_id (adb_events A @ new)) then Inl UniqueViolation
         else Inr (map event_key new, A\<lparr>adb_events := adb_events A @ new\<rparr>))"

definition count_active_alerts :: "alert_db \<Rightarrow> nat" where
  "count_active_alerts A = length (select_where (\<lambda>e. active_state (ae_new_state e)) (latest_events (adb_events A)))"

definition get_alert_events_by_rule :: "string \<Rightarrow> int \<Rightarrow> alert_db \<Rightarrow> db_error + alert_event_row list" where
  "get_alert_events_by_rule rid limit A =
     (if limit < 0 then Inl InvalidArgument
      else Inr (take (nat limit) (sort_key (\<lambda>e. - ae_timestamp e)
             (select_where (\<lambda>e. ae_rule_id e = rid) (adb_events A)))))"

definition prune_old_alert_events :: "time \<Rightarrow> alert_db \<Rightarrow> alert_db" where
  "prune_old_alert_events now A =
     A\<lparr>adb_events := delete_where (\<lambda>e. ae_timestamp e < now - days 30) (adb_events A)\<rparr>"

subsection \<open>Audit log\<close>

definition insert_audit_log ::
  "string \<Rightarrow> time \<Rightarrow> string \<Rightarrow> string \<Rightarrow> string option \<Rightarrow> string option \<Rightarrow> string option \<Rightarrow> string
    \<Rightarrow> string option \<Rightarrow> audit_log_row list \<Rightarrow> db_error + (string \<times> audit_log_row list)" where
  "insert_audit_log uuid now user action target target_type details result source_ip ls =
     (if uuid \<in> al_log_id ` set ls then Inl UniqueViolation
      else Inr (uuid, ls @ [\<lparr>al_log_id = uuid, al_username = user, al_action = action, al_target = target,
        al_target_type = target_type, al_details = details, al_result = result,
        al_source_ip = source_ip, al_timestamp = now\<rparr>]))"

definition audit_filter ::
  "string option \<Rightarrow> string option \<Rightarrow> time option \<Rightarrow> time option \<Rightarrow> audit_log_row \<Rightarrow> bool" where
  "audit_filter user action start_time end_time l \<longleftrightarrow>
     (case user of Some u \<Rightarrow> al_username l = u | None \<Rightarrow> True) \<and>
     (case action of Some a \<Rightarrow> al_action l = a | None \<Rightarrow> True) \<and>
     (case start_time of Some t \<Rightarrow> t \<le> al_timestamp l | None \<Rightarrow> True) \<and>
     (case end_time of Some t \<Rightarrow> al_timestamp l \<le> t | None \<Rightarrow> True)"

definition list_audit_logs ::
  "string option \<Rightarrow> string option \<Rightarrow> time option \<Rightarrow> time option \<Rightarrow> int \<Rightarrow> int \<Rightarrow> audit_log_row list
    \<Rightarrow> db_error + (audit_log_row list \<times> nat)" where
  "list_audit_logs user action start_time end_time page page_size ls =
     (let offset = u64_as_i64 (i64_as_u64 (page * page_size));
          rows = select_where (audit_filter user action start_time end_time) ls
      in if page_size < 0 \<or> offset < 0 then Inl InvalidArgument
         else Inr (take (nat page_size) (drop (nat offset) (sort_key (\<lambda>l. - al_timestamp l) rows)), length rows))"

definition prune_old_audit_logs :: "time \<Rightarrow> audit_log_row list \<Rightarrow> audit_log_row list" where
  "prune_old_audit_logs now ls = delete_where (\<lambda>l. al_timestamp l < now - days 90) ls"

subsection \<open>The latest event of a key\<close>

lemma find_by_filter: "find_by key k t = fetch_optional (filter (\<lambda>r. key r = k) t)"
  by (simp add: find_by_def select_where_def)

lemma fetch_sort_min:
  assumes "n \<in> set t" "\<And>q. q \<in> set t \<Longrightarrow> q \<noteq> n \<Longrightarrow> g n < (g q :: int)"
  shows "fetch_optional (sort_key g t) = Some n"
proof (cases "sort_key g t")
  case Nil
  then show ?thesis using assms(1) by (metis empty_iff list.set(1) set_sort)
next
  case (Cons h u)
  have "h \<in> set t" using Cons by (metis list.set_intros(1) set_sort)
  moreover have "n \<in> set (h # u)" using assms(1) Cons by (metis set_sort)
  moreover have "sorted (map g (h # u))" by (metis Cons sorted_sort_key)
  ultimately have "g h \<le> g n" by auto
  then have "h = n" using assms(2) \<open>h \<in> set t\<close> by fastforce
  with Cons show ?thesis by (simp add: fetch_optional_def)
qed

lemma latest_events_iff:
  "e \<in> set (latest_events es) \<longleftrightarrow>
     fetch_optional (sort_key (\<lambda>e. - ae_timestamp e) (filter (\<lambda>q. event_key q = event_key e) es)) = Some e"
  by (simp add: latest_events_def distinct_on_first find_by_filter filter_sort)

lemma latest_events_append:
  assumes "\<forall>e \<in> set es. ae_timestamp e < now" "\<forall>e \<in> set new. ae_timestamp e = now"
    and "distinct (map event_key new)"
  shows "e \<in> set (latest_events (es @ new)) \<longleftrightarrow>
    e \<in> set new \<or> e \<in> set (latest_events es) \<and> event_key e \<notin> event_key ` set new"
proof (cases "event_key e \<in> event_key ` set new")
  case True
  then obtain n where n: "n \<in> set new" "event_key n = event_key e" by auto
  then have uniq: "q = n" if "q \<in> set new" "event_key q = event_key e" for q
    using assms(3) that by (auto simp: distinct_map inj_on_def)
  have "fetch_optional (sort_key (\<lambda>e. - ae_timestamp e) (filter (\<lambda>q. event_key q = event_key e) (es @ new))) = Some n"
  proof (rule fetch_sort_min)
    show "n \<in> set (filter (\<lambda>q. event_key q = event_key e) (es @ new))" using n by simp
    show "- ae_timestamp n < - ae_timestamp q"
      if "q \<in> set (filter (\<lambda>q. event_key q = event_key e) (es @ new))" "q \<noteq> n" for q
    proof -
      have "q \<in> set es" using that uniq [of q] by auto
      then show ?thesis using assms(1,2) n(1) by simp
    qed
  qed
  then have "e \<in> set (latest_events (es @ new)) \<longleftrightarrow> n = e" by (simp add: latest_events_iff)
  moreover have "e \<in> set new \<longleftrightarrow> n = e" using n(1) uniq [of e] by blast
  ultimately show ?thesis using True by blast
next
  case False
  then have "filter (\<lambda>q. event_key q = event_key e) (es @ new) = filter (\<lambda>q. event_key q = event_key e) es"
    by (auto simp: filter_empty_conv image_iff)
  then show ?thesis using False by (auto simp: latest_events_iff)
qed

lemma latest_events_unique:
  assumes "e \<in> set (latest_events es)" "q \<in> set (latest_events es)" "event_key q = event_key e"
  shows "q = e"
proof -
  have "distinct (map event_key (latest_events es))"
    unfolding latest_events_def by (rule distinct_distinct_on)
  then show ?thesis using assms by (metis distinct_map inj_onD)
qed

lemma set_active: "set (get_active_alert_events A) = {e \<in> set (latest_events (adb_events A)). active_state (ae_new_state e)}"
  by (simp add: get_active_alert_events_def select_where_def)

lemma event_key_resolved [simp]: "event_key (resolved_event i now t) = event_key t"
  by (simp add: event_key_def resolved_event_def)

lemma map_map2_snd: "length xs = length ys \<Longrightarrow> (\<And>x y. f (h x y) = g y) \<Longrightarrow> map f (map2 h xs ys) = map g ys"
  by (induction xs ys rule: list_induct2) auto

text \<open>Expiry of stale alerts. After a pass that succeeds, the active alerts are exactly the ones that
  were active before and whose last event is not older than the cutoff; the returned keys are
  exactly those of the alerts that were closed. (No event lies in the future of the pass.)\<close>

lemma expire_stale_alerts_spec:
  assumes "expire_stale_alerts ids now cutoff A = Inr (keys, A')"
    and "\<forall>e \<in> set (adb_events A). ae_timestamp e < now"
  shows "set (get_active_alert_events A') = {e \<in> set (get_active_alert_events A). cutoff \<le> ae_timestamp e} \<and>
    set keys = event_key ` {e \<in> set (get_active_alert_events A). ae_timestamp e < cutoff} \<and> distinct keys"
proof -
  define stale where "stale = select_where (\<lambda>t. active_state (ae_new_state t) \<and> ae_timestamp t < cutoff)
    (latest_events (adb_events A))"
  define new where "new = map2 (\<lambda>i t. resolved_event (ids i) now t) [0..<length stale] stale"
  have A': "A' = A\<lparr>adb_events := adb_events A @ new\<rparr>" and keys: "keys = map event_key new"
    using assms(1) by (simp_all add: expire_stale_alerts_def stale_def new_def Let_def split: if_splits)
  have k: "map event_key new = map event_key stale" unfolding new_def by (rule map_map2_snd) simp_all
  have d: "distinct (map event_key new)"
    unfolding k stale_def select_where_def latest_events_def
    by (simp add: distinct_map_filter distinct_distinct_on)
  have t: "\<forall>e \<in> set new. ae_timestamp e = now \<and> ae_new_state e = ''resolved''"
    by (auto simp: new_def resolved_event_def)
  have latest: "e \<in> set (latest_events (adb_events A @ new)) \<longleftrightarrow>
      e \<in> set new \<or> e \<in> set (latest_events (adb_events A)) \<and> event_key e \<notin> event_key ` set stale" for e
    using latest_events_append [OF assms(2) _ d, of e] t k by (metis list.set_map)
  have uniq: "q = e" if "e \<in> set (latest_events (adb_events A))" "q \<in> set (latest_events (adb_events A))"
    "event_key q = event_key e" for e q
    using that latest_events_unique by blast
  have st: "set stale = {e \<in> set (get_active_alert_events A). ae_timestamp e < cutoff}"
    by (auto simp: stale_def select_where_def set_active)
  have inactive: "\<not> active_state (ae_new_state e)" if "e \<in> set new" for e
    using t that by (auto simp: active_state_def)
  have "e \<in> set (get_active_alert_events A') \<longleftrightarrow>
      e \<in> set (get_active_alert_events A) \<and> cutoff \<le> ae_timestamp e" for e
  proof -
    have "e \<in> set (get_active_alert_events A') \<longleftrightarrow>
        e \<in> set (get_active_alert_events A) \<and> event_key e \<notin> event_key ` set stale"
      using latest [of e] inactive [of e] by (auto simp: set_active A')
    moreover have "event_key e \<in> event_key ` set stale \<longleftrightarrow> e \<in> set stale"
      if "e \<in> set (get_active_alert_events A)"
      using that uniq st set_active by (smt (verit) image_iff mem_Collect_eq)
    ultimately show ?thesis using st by auto
  qed
  moreover have "set keys = event_key ` set stale" using k keys by (metis list.set_map)
  ultimately show ?thesis using st d keys by auto
qed

definition sample_event :: "string \<Rightarrow> string \<Rightarrow> string \<Rightarrow> time \<Rightarrow> alert_event_row" where
  "sample_event i rid st t =
     \<lparr>ae_event_id = i, ae_rule_id = rid, ae_node_id = ''n1'', ae_gpu_uuid = [], ae_old_state = None,
      ae_new_state = st, ae_current_value = None, ae_threshold = Fin 80, ae_notification_sent = None,
      ae_timestamp = t\<rparr>"

lemma sample_active:
  "set (get_active_alert_events \<lparr>adb_rules = [], adb_events = [sample_event ''e1'' ''r1'' ''firing'' 10]\<rparr>) =
     {sample_event ''e1'' ''r1'' ''firing'' 10}"
  unfolding set_active by (auto simp: latest_events_def active_state_def sample_event_def)

subsection \<open>References\<close>

text \<open>Every event belongs to a rule that exists, through every statement on the two tables.\<close>

definition alert_db_wf :: "alert_db \<Rightarrow> bool" where
  "alert_db_wf A \<longleftrightarrow> distinct (map ar_rule_id (adb_rules A)) \<and> distinct (map ae_event_id (adb_events A)) \<and>
     (\<forall>e \<in> set (adb_events A). ae_rule_id e \<in> ar_rule_id ` set (adb_rules A))"

inductive alert_db_step :: "alert_db \<Rightarrow> alert_db \<Rightarrow> bool" where
  rule_added: "insert_alert_rule r A = Inr A' \<Longrightarrow> alert_db_step A A'"
| rule_changed: "alert_db_step A (update_alert_rule now rid name desc metric op th dur sev n gs ls en A)"
| rule_removed: "alert_db_step A (snd (delete_alert_rule_cascade rid A))"
| event_added: "insert_alert_event e A = Inr A' \<Longrightarrow> alert_db_step A A'"
| expired: "expire_stale_alerts ids now cutoff A = Inr (keys, A') \<Longrightarrow> alert_db_step A A'"
| pruned: "alert_db_step A (prune_old_alert_events now A)"

lemma latest_events_subset: "set (latest_events es) \<subseteq> set es"
  unfolding latest_events_def using set_distinct_on [of event_key] by fastforce

lemma expire_wf:
  assumes "alert_db_wf A" "expire_stale_alerts ids now cutoff A = Inr (keys, A')"
  shows "alert_db_wf A'"
proof -
  define stale where "stale = select_where (\<lambda>t. active_state (ae_new_state t) \<and> ae_timestamp t < cutoff)
    (latest_events (adb_events A))"
  define new where "new = map2 (\<lambda>i t. resolved_event (ids i) now t) [0..<length stale] stale"
  have A': "A' = A\<lparr>adb_events := adb_events A @ new\<rparr>"
    and d: "distinct (map ae_event_id (adb_events A @ new))"
    using assms(2)
    by (simp_all only: expire_stale_alerts_def stale_def [symmetric] Let_def new_def [symmetric] split: if_splits) auto
  have "map ae_rule_id new = map ae_rule_id stale"
    unfolding new_def by (rule map_map2_snd) (simp_all add: resolved_event_def)
  then have "ae_rule_id ` set new \<subseteq> ae_rule_id ` set (adb_events A)"
    using latest_events_subset [of "adb_events A"] unfolding stale_def select_where_def
    by (metis (no_types, lifting) filter_is_subset image_mono list.set_map subset_trans)
  then have "\<exists>q \<in> set (adb_events A). ae_rule_id q = ae_rule_id e" if "e \<in> set new" for e
    using that by fastforce
  then have "ae_rule_id e \<in> ar_rule_id ` set (adb_rules A)" if "e \<in> set new" for e
    using that assms(1) unfolding alert_db_wf_def by metis
  then show ?thesis using assms(1) d unfolding A' alert_db_wf_def by auto
qed

lemma alert_db_step_wf:
  assumes "alert_db_wf A" "alert_db_step A A'"
  shows "alert_db_wf A'"
  using assms(2)
proof cases
  case expired
  then show ?thesis using assms(1) expire_wf by blast
next
  case (rule_added r)
  then show ?thesis using assms(1)
    by (auto simp: alert_db_wf_def insert_alert_rule_def split: if_splits)
next
  case (event_added e)
  then show ?thesis using assms(1)
    by (auto simp: alert_db_wf_def insert_alert_event_def split: if_splits)
next
  case (rule_changed now rid name desc metric op th dur sev n gs ls en)
  have "map ar_rule_id (adb_rules A') = map ar_rule_id (adb_rules A)" "adb_events A' = adb_events A"
    unfolding rule_changed update_alert_rule_def by (simp_all add: map_update_where)
  then show ?thesis using assms(1) unfolding alert_db_wf_def by (metis list.set_map)
next
  case (rule_removed rid)
  then show ?thesis using assms(1)
    by (auto simp: alert_db_wf_def delete_alert_rule_cascade_def delete_where_def distinct_map_filter)
next
  case (pruned now)
  then show ?thesis using assms(1)
    by (auto simp: alert_db_wf_def prune_old_alert_events_def delete_where_def distinct_map_filter)
qed

interpretation alert_db: safe_system "\<lambda>A. adb_rules A = [] \<and> adb_events A = []" alert_db_step alert_db_wf
proof unfold_locales
  show "adb_rules A = [] \<and> adb_events A = [] \<Longrightarrow> alert_db_wf A" for A by (simp add: alert_db_wf_def)
qed (rule alert_db_step_wf)

text \<open>No event is orphaned: in every state of the alert tables that the statements can produce,
  each event refers to a rule that exists and identifiers are unique; deleting a rule takes its
  events along.\<close>

lemma alert_events_have_rules:
  assumes "reach (\<lambda>A. adb_rules A = [] \<and> adb_events A = []) alert_db_step A"
  shows "(\<forall>e \<in> set (adb_events A). \<exists>r \<in> set (adb_rules A). ar_rule_id r = ae_rule_id e) \<and>
    distinct (map ar_rule_id (adb_rules A)) \<and> distinct (map ae_event_id (adb_events A)) \<and>
    (\<forall>e \<in> set (adb_events (snd (delete_alert_rule_cascade rid A))). ae_rule_id e \<noteq> rid)"
  using alert_db.reach_inv [OF assms]
  by (auto simp: alert_db_wf_def delete_alert_rule_cascade_def delete_where_def image_iff) metis

end
