(* ===== verification/User_Queries.thy ===== *)
theory User_Queries
  imports Auth Job_Queries
begin

text \<open>
  The \<open>users\<close> and \<open>refresh_tokens\<close> tables: \<open>UserRow\<close> and \<open>crates/storage/src/user_queries.rs\<close>, and the
  account that the migration of \<open>storage/src/lib.rs\<close> creates. The digest of refresh tokens
  (SHA-256) is a parameter. A guarded change of a user runs in a transaction that locks the enabled
  administrators, and is one step here.
\<close>

record user_row =
  u_user_id :: string
  u_username :: string
  u_email :: "string option"
  u_role :: string
  u_password_hash :: string
  u_enabled :: bool
  u_created_at :: time
  u_last_login_at :: "time option"
  u_failed_login_attempts :: int
  u_locked_until :: "time option"

record token_row =
  t_token :: string
  t_user_id :: string
  t_expires_at :: time
  t_revoked :: bool

subsection \<open>Users\<close>

definition create_user ::
  "string \<Rightarrow> time \<Rightarrow> string \<Rightarrow> string option \<Rightarrow> string \<Rightarrow> string \<Rightarrow> user_row list
    \<Rightarrow> db_error + (string \<times> user_row list)" where
  "create_user uuid now username email r password_hash us =
     (if uuid \<in> u_user_id ` set us \<or> username \<in> u_username ` set us then Inl UniqueViolation
      else Inr (uuid, us @ [\<lparr>u_user_id = uuid, u_username = username, u_email = email, u_role = r,
        u_password_hash = password_hash, u_enabled = True, u_created_at = now, u_last_login_at = None,
        u_failed_login_attempts = 0, u_locked_until = None\<rparr>]))"

definition get_user_by_username :: "string \<Rightarrow> user_row list \<Rightarrow> user_row option" where
  "get_user_by_username username us = find_by u_username username us"

definition get_user_by_id :: "string \<Rightarrow> user_row list \<Rightarrow> user_row option" where
  "get_user_by_id user_id us = find_by u_user_id user_id us"

text \<open>The listing leaves the hash out; the row type then has an empty one.\<close>

definition list_users :: "user_row list \<Rightarrow> user_row list" where
  "list_users us = map (\<lambda>u. u\<lparr>u_password_hash := []\<rparr>) (sort_key u_created_at us)"

definition user_changes :: "string option \<Rightarrow> bool option \<Rightarrow> string option \<Rightarrow> user_row \<Rightarrow> user_row" where
  "user_changes r enabled password_hash u =
     u\<lparr>u_role := (case r of Some x \<Rightarrow> x | None \<Rightarrow> u_role u),
       u_enabled := (case enabled of Some x \<Rightarrow> x | None \<Rightarrow> u_enabled u),
       u_password_hash := (case password_hash of Some x \<Rightarrow> x | None \<Rightarrow> u_password_hash u),
       u_failed_login_attempts := (if password_hash \<noteq> None then 0 else u_failed_login_attempts u),
       u_locked_until := (if password_hash \<noteq> None then None else u_locked_until u)\<rparr>"

definition update_user :: "string \<Rightarrow> string option \<Rightarrow> bool option \<Rightarrow> string option \<Rightarrow> user_row list \<Rightarrow> user_row list" where
  "update_user user_id r enabled password_hash us =
     update_where (\<lambda>u. u_user_id u = user_id) (user_changes r enabled password_hash) us"

definition lock_admins_and_read_target :: "string \<Rightarrow> user_row list \<Rightarrow> nat \<times> (string \<times> bool) option" where
  "lock_admins_and_read_target user_id us =
     (length (select_where (\<lambda>u. u_role u = ''admin'' \<and> u_enabled u) us),
      map_option (\<lambda>u. (u_role u, u_enabled u)) (find_by u_user_id user_id us))"

definition update_user_guarded ::
  "string \<Rightarrow> string option \<Rightarrow> bool option \<Rightarrow> string option \<Rightarrow> user_row list \<Rightarrow> bool \<times> user_row list" where
  "update_user_guarded user_id r enabled password_hash us =
     (let (admin_count, target) = lock_admins_and_read_target user_id us
      in case target of
           None \<Rightarrow> (False, us)
         | Some (target_role, target_enabled) \<Rightarrow>
             let new_role = (case r of Some x \<Rightarrow> x | None \<Rightarrow> target_role);
                 new_enabled = (case enabled of Some x \<Rightarrow> x | None \<Rightarrow> target_enabled);
                 removes_last_admin = target_role = ''admin'' \<and> target_enabled
                   \<and> (new_role \<noteq> ''admin'' \<or> \<not> new_enabled) \<and> admin_count \<le> 1
             in if removes_last_admin then (False, us)
                else (True, update_where (\<lambda>u. u_user_id u = user_id) (user_changes r enabled password_hash) us))"

definition delete_user_guarded ::
  "string \<Rightarrow> user_row list \<times> token_row list \<Rightarrow> bool \<times> user_row list \<times> token_row list" where
  "delete_user_guarded user_id db =
     (let (us, ts) = db; (admin_count, target) = lock_admins_and_read_target user_id us
      in case target of
           None \<Rightarrow> (False, us, ts)
         | Some (target_role, target_enabled) \<Rightarrow>
             if target_role = ''admin'' \<and> target_enabled \<and> admin_count \<le> 1 then (False, us, ts)
             else (True, delete_where (\<lambda>u. u_user_id u = user_id) us,
                   delete_where (\<lambda>t. t_user_id t = user_id) ts))"

definition record_login :: "time \<Rightarrow> string \<Rightarrow> user_row list \<Rightarrow> user_row list" where
  "record_login now user_id us =
     update_where (\<lambda>u. u_user_id u = user_id)
       (\<lambda>u. u\<lparr>u_last_login_at := Some now, u_failed_login_attempts := 0, u_locked_until := None\<rparr>) us"

definition failed_login_effect :: "time \<Rightarrow> int \<Rightarrow> int \<Rightarrow> user_row \<Rightarrow> user_row" where
  "failed_login_effect now max_attempts lockout_secs u =
     u\<lparr>u_failed_login_attempts := u_failed_login_attempts u + 1,
       u_locked_until :=
         (if max_attempts \<le> u_failed_login_attempts u + 1
          then (case u_locked_until u of
                  Some t \<Rightarrow> if now < t then Some t else Some (now + seconds lockout_secs)
                | None \<Rightarrow> Some (now + seconds lockout_secs))
          else u_locked_until u)\<rparr>"

text \<open>The counter is an \<open>INTEGER\<close>: the statement is an error where the increment leaves its range.\<close>

definition record_failed_login :: "time \<Rightarrow> string \<Rightarrow> int \<Rightarrow> int \<Rightarrow> user_row list \<Rightarrow> db_error + user_row list" where
  "record_failed_login now username max_attempts lockout_secs us =
     (if \<exists>u \<in> set us. u_username u = username \<and> 2 ^ 31 \<le> u_failed_login_attempts u + 1
      then Inl InvalidArgument
      else Inr (update_where (\<lambda>u. u_username u = username) (failed_login_effect now max_attempts lockout_secs) us))"

definition delete_user :: "string \<Rightarrow> user_row list \<times> token_row list \<Rightarrow> db_error + user_row list" where
  "delete_user user_id db =
     (let (us, ts) = db
      in if user_id \<in> u_user_id ` set us \<and> user_id \<in> t_user_id ` set ts then Inl ForeignKeyViolation
         else Inr (delete_where (\<lambda>u. u_user_id u = user_id) us))"

subsection \<open>Refresh tokens\<close>

definition prune_refresh_tokens :: "time \<Rightarrow> token_row list \<Rightarrow> token_row list" where
  "prune_refresh_tokens now ts = delete_where (\<lambda>t. t_revoked t \<or> t_expires_at t < now) ts"

definition live_token :: "string \<Rightarrow> time \<Rightarrow> token_row \<Rightarrow> bool" where
  "live_token digest now t \<longleftrightarrow> t_token t = digest \<and> \<not> t_revoked t \<and> now < t_expires_at t"

definition revoke_effect :: "token_row \<Rightarrow> token_row" where "revoke_effect t = t\<lparr>t_revoked := True\<rparr>"

definition consume_refresh_token ::
  "(string \<Rightarrow> string) \<Rightarrow> time \<Rightarrow> string \<Rightarrow> token_row list \<Rightarrow> string option \<times> token_row list" where
  "consume_refresh_token sha now token ts =
     (map_option t_user_id (fetch_optional (select_where (live_token (sha token) now) ts)),
      update_where (live_token (sha token) now) revoke_effect ts)"

definition add_refresh_token ::
  "(string \<Rightarrow> string) \<Rightarrow> string \<Rightarrow> string \<Rightarrow> time \<Rightarrow> user_row list \<Rightarrow> token_row list \<Rightarrow> db_error + token_row list" where
  "add_refresh_token sha token user_id expires_at us ts =
     (if sha token \<in> t_token ` set ts then Inl UniqueViolation
      else if user_id \<notin> u_user_id ` set us then Inl ForeignKeyViolation
      else Inr (ts @ [\<lparr>t_token = sha token, t_user_id = user_id, t_expires_at = expires_at, t_revoked = False\<rparr>]))"

definition revoke_all_refresh_tokens :: "string \<Rightarrow> token_row list \<Rightarrow> token_row list" where
  "revoke_all_refresh_tokens user_id ts = update_where (\<lambda>t. t_user_id t = user_id) revoke_effect ts"

definition revoke_refresh_token :: "(string \<Rightarrow> string) \<Rightarrow> string \<Rightarrow> token_row list \<Rightarrow> token_row list" where
  "revoke_refresh_token sha token ts = update_where (\<lambda>t. t_token t = sha token) revoke_effect ts"

definition validate_refresh_token :: "(string \<Rightarrow> string) \<Rightarrow> time \<Rightarrow> string \<Rightarrow> token_row list \<Rightarrow> string option" where
  "validate_refresh_token sha now token ts =
     map_option t_user_id (fetch_optional (select_where (live_token (sha token) now) ts))"

text \<open>The account the migration creates when there is no user named \<open>admin\<close>.\<close>

definition ensure_admin ::
  "crypto \<Rightarrow> string \<Rightarrow> string \<Rightarrow> time \<Rightarrow> string \<Rightarrow> user_row list \<Rightarrow> string + user_row list" where
  "ensure_admin C salt uuid now admin_password us =
     (if \<exists>u \<in> set us. u_username u = ''admin'' then Inr us
      else case argon2_hash C admin_password salt of
             Inl e \<Rightarrow> Inl (''Failed to hash admin password: '' @ e)
           | Inr h \<Rightarrow>
               if uuid \<in> u_user_id ` set us then Inl ''duplicate key''
               else Inr (us @ [\<lparr>u_user_id = uuid, u_username = ''admin'', u_email = None, u_role = ''admin'',
                 u_password_hash = h, u_enabled = True, u_created_at = now, u_last_login_at = None,
                 u_failed_login_attempts = 0, u_locked_until = None\<rparr>]))"

subsection \<open>There is always an administrator\<close>

definition is_admin :: "user_row \<Rightarrow> bool" where "is_admin u \<longleftrightarrow> u_role u = ''admin'' \<and> u_enabled u"

definition users_wf :: "user_row list \<Rightarrow> bool" where
  "users_wf us \<longleftrightarrow> distinct (map u_user_id us) \<and> distinct (map u_username us) \<and> (\<exists>u \<in> set us. is_admin u)"

text \<open>The writes of the program to the users table. \<open>update_user\<close> is only called with a new password
  hash, and \<open>delete_user\<close> is not called.\<close>

inductive users_step :: "user_row list \<Rightarrow> user_row list \<Rightarrow> bool" where
  created: "create_user uuid now name email r h us = Inr (i, us') \<Longrightarrow> users_step us us'"
| changed: "users_step us (snd (update_user_guarded i r e h us))"
| deleted: "users_step us (fst (snd (delete_user_guarded i (us, ts))))"
| password: "users_step us (update_user i None None h us)"
| logged_in: "users_step us (record_login now i us)"
| failed: "record_failed_login now name m l us = Inr us' \<Longrightarrow> users_step us us'"
| migrated: "ensure_admin C salt uuid now pw us = Inr us' \<Longrightarrow> users_step us us'"

lemma update_where_wf:
  assumes "users_wf us"
    and "\<And>u. P u \<Longrightarrow> u_user_id (f u) = u_user_id u \<and> u_username (f u) = u_username u"
    and "\<exists>u \<in> set us. is_admin (if P u then f u else u)"
  shows "users_wf (update_where P f us)"
proof -
  obtain u where "u \<in> set us" "is_admin (if P u then f u else u)" using assms(3) by blast
  moreover from this(1) have "(if P u then f u else u) \<in> set (update_where P f us)"
    unfolding set_update_where by blast
  ultimately have "\<exists>v \<in> set (update_where P f us). is_admin v" by blast
  moreover have "map u_user_id (update_where P f us) = map u_user_id us"
    "map u_username (update_where P f us) = map u_username us"
    using assms(2) by (simp_all add: map_update_where)
  ultimately show ?thesis using assms(1) by (simp add: users_wf_def)
qed

lemma update_where_wf_same:
  assumes "users_wf us"
    and "\<And>u. u_user_id (f u) = u_user_id u \<and> u_username (f u) = u_username u \<and> is_admin (f u) = is_admin u"
  shows "users_wf (update_where P f us)"
  using assms by (intro update_where_wf) (auto simp: users_wf_def)

lemma two_admins:
  assumes "distinct (map u_user_id us)" "\<not> length (filter is_admin us) \<le> 1"
  shows "\<exists>u \<in> set us. is_admin u \<and> u_user_id u \<noteq> i"
proof (rule ccontr)
  assume "\<not> ?thesis"
  then have "u_user_id ` set (filter is_admin us) \<subseteq> {i}" by auto
  moreover have "distinct (map u_user_id (filter is_admin us))" using assms(1) by (simp add: distinct_map_filter)
  then have "length (filter is_admin us) = card (u_user_id ` set (filter is_admin us))"
    by (metis distinct_card length_map set_map)
  ultimately show False using assms(2) card_mono [of "{i}"] by fastforce
qed

lemma lock_admins_eq:
  "lock_admins_and_read_target i us =
     (length (filter is_admin us), map_option (\<lambda>u. (u_role u, u_enabled u)) (find_by u_user_id i us))"
  by (simp add: lock_admins_and_read_target_def select_where_def is_admin_def [abs_def])

lemma find_by_eq:
  "distinct (map u_user_id us) \<Longrightarrow> u \<in> set us \<Longrightarrow> u_user_id u = i \<Longrightarrow> find_by u_user_id i us = Some u"
  using find_by_unique by metis

lemma user_changes_wf:
  assumes wf: "users_wf us"
    and keep: "\<And>u. find_by u_user_id i us = Some u \<Longrightarrow> is_admin u \<Longrightarrow> \<not> is_admin (user_changes r e h u) \<Longrightarrow>
      \<exists>v \<in> set us. is_admin v \<and> u_user_id v \<noteq> i"
  shows "users_wf (update_where (\<lambda>u. u_user_id u = i) (user_changes r e h) us)"
proof (rule update_where_wf [OF wf])
  obtain u where u: "u \<in> set us" "is_admin u" using wf by (auto simp: users_wf_def)
  show "\<exists>u \<in> set us. is_admin (if u_user_id u = i then user_changes r e h u else u)"
  proof (cases "u_user_id u = i \<and> \<not> is_admin (user_changes r e h u)")
    case True
    then have "find_by u_user_id i us = Some u" using find_by_eq u wf by (auto simp: users_wf_def)
    then obtain v where "v \<in> set us" "is_admin v" "u_user_id v \<noteq> i" using keep u(2) True by blast
    then show ?thesis by (intro bexI [of _ v]) simp_all
  qed (use u in auto)
qed (simp add: user_changes_def)

lemma update_guarded_wf:
  assumes "users_wf us"
  shows "users_wf (snd (update_user_guarded i r e h us))"
proof (cases "find_by u_user_id i us")
  case (Some u)
  have "users_wf (update_where (\<lambda>u. u_user_id u = i) (user_changes r e h) us)"
    if "is_admin u \<Longrightarrow> \<not> is_admin (user_changes r e h u) \<Longrightarrow> \<not> length (filter is_admin us) \<le> 1"
    using assms that Some two_admins [of us i] by (intro user_changes_wf) (auto simp: users_wf_def)
  then show ?thesis
    using assms Some
    by (auto simp: update_user_guarded_def lock_admins_eq Let_def is_admin_def user_changes_def)
qed (use assms in \<open>simp add: update_user_guarded_def lock_admins_eq\<close>)

lemma delete_guarded_wf:
  assumes "users_wf us"
  shows "users_wf (fst (snd (delete_user_guarded i (us, ts))))"
proof -
  have "users_wf (delete_where (\<lambda>u. u_user_id u = i) us)" if "\<exists>v \<in> set us. is_admin v \<and> u_user_id v \<noteq> i"
    using assms that by (auto simp: users_wf_def delete_where_def distinct_map_filter)
  moreover have "\<exists>v \<in> set us. is_admin v \<and> u_user_id v \<noteq> i"
    if "find_by u_user_id i us = Some u" "\<not> is_admin u \<or> \<not> length (filter is_admin us) \<le> 1" for u
    using assms that two_admins [of us i] find_by_eq [of us _ i] by (auto simp: users_wf_def)
  ultimately show ?thesis
    using assms
    by (auto simp: delete_user_guarded_def lock_admins_eq Let_def is_admin_def split: option.splits)
qed

text \<open>The table as the first start of the server creates it.\<close>

inductive users_init :: "user_row list \<Rightarrow> bool" where
  "ensure_admin C salt uuid now pw [] = Inr us \<Longrightarrow> users_init us"

lemma users_step_wf:
  assumes "users_wf us" "users_step us us'"
  shows "users_wf us'"
  using assms(2)
proof cases
  case (created uuid now name email r h i)
  then show ?thesis using assms(1) by (auto simp: create_user_def users_wf_def split: if_splits)
next
  case (password i h)
  then show ?thesis using assms(1) unfolding update_user_def
    by (auto intro!: update_where_wf_same simp: user_changes_def is_admin_def)
next
  case (logged_in now i)
  then show ?thesis using assms(1) unfolding record_login_def
    by (auto intro!: update_where_wf_same simp: is_admin_def)
next
  case (failed now name m l)
  then have "us' = update_where (\<lambda>u. u_username u = name) (failed_login_effect now m l) us"
    by (simp add: record_failed_login_def split: if_splits)
  then show ?thesis using assms(1)
    by (auto intro!: update_where_wf_same simp: failed_login_effect_def is_admin_def)
next
  case (migrated C salt uuid now pw)
  then show ?thesis using assms(1)
    by (auto simp: ensure_admin_def users_wf_def split: if_splits sum.splits) blast
qed (use assms(1) in \<open>simp_all add: update_guarded_wf delete_guarded_wf\<close>)

interpretation users: safe_system users_init users_step users_wf
proof unfold_locales
  show "users_init us \<Longrightarrow> users_wf us" for us
    by (auto simp: ensure_admin_def users_wf_def is_admin_def elim!: users_init.cases split: sum.splits)
qed (rule users_step_wf)

text \<open>The server always has an administrator who can log in: from the account the first start
  creates, whatever users are created, changed, disabled, deleted or locked through the guarded
  operations, in any order, some enabled user has the role \<open>admin\<close>, and identifiers and user names
  stay unique.\<close>

lemma always_an_admin:
  assumes "reach users_init users_step us"
  shows "(\<exists>u \<in> set us. u_role u = ''admin'' \<and> u_enabled u) \<and>
    distinct (map u_user_id us) \<and> distinct (map u_username us)"
  using users.reach_inv [OF assms] by (simp add: users_wf_def is_admin_def)

definition sample_user :: "string \<Rightarrow> string \<Rightarrow> user_row" where
  "sample_user i r = \<lparr>u_user_id = i, u_username = i, u_email = None, u_role = r,
     u_password_hash = ''$argon2$admin'', u_enabled = True, u_created_at = 0, u_last_login_at = None,
     u_failed_login_attempts = 0, u_locked_until = None\<rparr>"

lemma sample_users_reach: "reach users_init users_step [sample_user ''admin'' ''admin'']"
proof (rule users.reach_start, rule users_init.intros)
  show "ensure_admin sample_crypto [] ''admin'' 0 ''admin'' [] = Inr [sample_user ''admin'' ''admin'']"
    by (simp add: ensure_admin_def sample_crypto_def sample_user_def)
qed

subsection \<open>A refresh token is used once\<close>

lemma revoke_effect_simps [simp]:
  "t_token (revoke_effect t) = t_token t" "t_user_id (revoke_effect t) = t_user_id t" "t_revoked (revoke_effect t)"
  by (simp_all add: revoke_effect_def)

interpretation token: guarded_update t_token "live_token digest now" revoke_effect for digest now
  by unfold_locales (simp_all add: live_token_def revoke_effect_def)

datatype token_op =
    Consume string time | AddToken string string time | RevokeAll string | RevokeOne string | Prune time

text \<open>One statement on the token table, with what a consumption returns.\<close>

definition token_step ::
  "(string \<Rightarrow> string) \<Rightarrow> user_row list \<Rightarrow> token_op \<Rightarrow> token_row list \<Rightarrow> string option \<times> token_row list" where
  "token_step sha us op ts =
     (case op of
        Consume token now \<Rightarrow> consume_refresh_token sha now token ts
      | AddToken token user_id expires_at \<Rightarrow>
          (None, case add_refresh_token sha token user_id expires_at us ts of Inr ts' \<Rightarrow> ts' | Inl _ \<Rightarrow> ts)
      | RevokeAll user_id \<Rightarrow> (None, revoke_all_refresh_tokens user_id ts)
      | RevokeOne token \<Rightarrow> (None, revoke_refresh_token sha token ts)
      | Prune now \<Rightarrow> (None, prune_refresh_tokens now ts))"

text \<open>The results of the consumptions of one token in a sequence of statements.\<close>

fun uses :: "(string \<Rightarrow> string) \<Rightarrow> user_row list \<Rightarrow> string \<Rightarrow> token_op list \<Rightarrow> token_row list \<Rightarrow> string list" where
  "uses sha us token [] ts = []"
| "uses sha us token (op # ops) ts =
     (let (r, ts') = token_step sha us op ts; later = uses sha us token ops ts'
      in case (op, r) of (Consume t now, Some u) \<Rightarrow> if t = token then u # later else later | _ \<Rightarrow> later)"

definition spent :: "string \<Rightarrow> token_row list \<Rightarrow> bool" where
  "spent digest ts \<longleftrightarrow> (\<forall>t \<in> set ts. t_token t = digest \<longrightarrow> t_revoked t)"

lemma spent_update:
  "spent d ts \<Longrightarrow> (\<And>t. t_token (f t) = t_token t \<and> (t_revoked t \<longrightarrow> t_revoked (f t))) \<Longrightarrow> spent d (update_where P f ts)"
  by (auto simp: spent_def set_update_where split: if_splits)

lemma spent_step:
  assumes "spent (sha token) ts"
    and "\<And>t u e. op = AddToken t u e \<Longrightarrow> sha t \<noteq> sha token"
  shows "spent (sha token) (snd (token_step sha us op ts))"
proof (cases op)
  case (AddToken t u e)
  then have "sha t \<noteq> sha token" using assms(2) by simp
  then show ?thesis using AddToken assms(1)
    by (auto simp: token_step_def add_refresh_token_def spent_def split: sum.splits if_splits)
next
  case (Prune now)
  then show ?thesis using assms(1) by (auto simp: token_step_def prune_refresh_tokens_def delete_where_def spent_def)
qed (use assms(1) in \<open>simp_all add: token_step_def consume_refresh_token_def revoke_all_refresh_tokens_def
    revoke_refresh_token_def spent_update revoke_effect_def\<close>)

lemma spent_not_live: "spent d ts \<Longrightarrow> select_where (live_token d now) ts = []"
  by (auto simp: spent_def select_where_def live_token_def filter_empty_conv)

lemma spent_no_uses:
  assumes "spent (sha token) ts" and "\<forall>t u e. AddToken t u e \<in> set ops \<longrightarrow> sha t \<noteq> sha token"
  shows "uses sha us token ops ts = []"
  using assms
proof (induction ops arbitrary: ts)
  case (Cons op ops)
  have s: "spent (sha token) (snd (token_step sha us op ts))"
    using Cons.prems by (intro spent_step) auto
  then have later: "uses sha us token ops (snd (token_step sha us op ts)) = []" using Cons by auto
  have "fst (token_step sha us op ts) = None" if "op = Consume token now" for now
    using that Cons.prems(1) by (simp add: token_step_def consume_refresh_token_def spent_not_live fetch_optional_def)
  then show ?case using later
    by (cases "token_step sha us op ts") (auto split: token_op.split option.split)
qed simp

lemma consume_spends:
  assumes "distinct (map t_token ts)" "fst (consume_refresh_token sha now token ts) \<noteq> None"
  shows "spent (sha token) (snd (consume_refresh_token sha now token ts))"
proof -
  obtain t where t: "t \<in> set ts" "live_token (sha token) now t"
    using assms(2) by (auto simp: consume_refresh_token_def dest: fetch_select_Some)
  have "s = t" if "s \<in> set ts" "t_token s = sha token" for s
    using assms(1) t that by (auto simp: live_token_def distinct_map inj_on_def)
  then show ?thesis using t(2)
    by (auto simp: consume_refresh_token_def spent_def set_update_where split: if_splits)
      (metis revoke_effect_simps(3))
qed

lemma token_step_distinct:
  assumes "distinct (map t_token ts)"
  shows "distinct (map t_token (snd (token_step sha us op ts)))"
proof (cases op)
  case (AddToken t u e)
  then show ?thesis using assms
    by (auto simp: token_step_def add_refresh_token_def split: sum.splits if_splits)
qed (use assms in \<open>simp_all add: token_step_def consume_refresh_token_def revoke_all_refresh_tokens_def
    revoke_refresh_token_def map_update_where revoke_effect_def prune_refresh_tokens_def
    delete_where_def distinct_map_filter\<close>)

text \<open>A refresh token buys one session: through any sequence of refreshes, logins, logouts,
  revocations and clean-ups, on a table whose keys are unique, the token succeeds at most once,
  however many callers present it and at whatever times. (No other token issued meanwhile has the
  same digest.)\<close>

lemma refresh_token_single_use:
  assumes "distinct (map t_token ts)"
    and "\<forall>t u e. AddToken t u e \<in> set ops \<longrightarrow> sha t \<noteq> sha token"
  shows "length (uses sha us token ops ts) \<le> 1"
  using assms
proof (induction ops arbitrary: ts)
  case (Cons op ops)
  let ?ts = "snd (token_step sha us op ts)"
  have ih: "length (uses sha us token ops ?ts) \<le> 1"
    using Cons token_step_distinct by (metis list.set_intros(2))
  have "uses sha us token ops ?ts = []" if "op = Consume token now" "fst (token_step sha us op ts) \<noteq> None" for now
    using that Cons.prems consume_spends [of ts sha now token]
    by (intro spent_no_uses) (auto simp: token_step_def)
  then show ?case using ih
    by (cases "token_step sha us op ts") (auto simp: Let_def split: token_op.split option.split)
qed simp

text \<open>After all tokens of a user are revoked, none of them can be consumed or validated any more.\<close>

lemma revoke_all_is_effective:
  "fst (consume_refresh_token sha now token (revoke_all_refresh_tokens user_id ts)) \<noteq> Some user_id \<and>
   validate_refresh_token sha now token (revoke_all_refresh_tokens user_id ts) \<noteq> Some user_id"
proof -
  let ?live = "fetch_optional (select_where (live_token (sha token) now) (revoke_all_refresh_tokens user_id ts))"
  have "t_user_id t \<noteq> user_id" if "?live = Some t" for t
  proof -
    have "t \<in> set (revoke_all_refresh_tokens user_id ts)" "\<not> t_revoked t"
      using fetch_select_Some [OF that] by (simp_all add: live_token_def)
    then obtain q where "t = (if t_user_id q = user_id then revoke_effect q else q)"
      unfolding revoke_all_refresh_tokens_def set_update_where by blast
    with \<open>\<not> t_revoked t\<close> show ?thesis by (cases "t_user_id q = user_id") simp_all
  qed
  then have "map_option t_user_id ?live \<noteq> Some user_id" by auto
  then show ?thesis by (simp add: consume_refresh_token_def validate_refresh_token_def)
qed

subsection \<open>Lockout\<close>

lemma failed_login_effect_lock:
  "u_locked_until (failed_login_effect now m l u) =
     (if m \<le> u_failed_login_attempts u + 1
      then Some (case u_locked_until u of Some t \<Rightarrow> if now < t then t else now + seconds l | None \<Rightarrow> now + seconds l)
      else u_locked_until u)"
  by (simp add: failed_login_effect_def split: option.split)

text \<open>Consecutive failures of one user, at the given times.\<close>

fun failures :: "int \<Rightarrow> int \<Rightarrow> time list \<Rightarrow> user_row \<Rightarrow> user_row" where
  "failures m l [] u = u"
| "failures m l (now # ts) u = failures m l ts (failed_login_effect now m l u)"

lemma failures_count: "u_failed_login_attempts (failures m l ts u) = u_failed_login_attempts u + int (length ts)"
  by (induction ts arbitrary: u) (simp_all add: failed_login_effect_def)

lemma failures_below:
  "u_failed_login_attempts u + int (length ts) < m \<Longrightarrow> u_locked_until (failures m l ts u) = u_locked_until u"
  by (induction ts arbitrary: u) (simp_all add: failed_login_effect_def)

lemma failures_snoc: "failures m l (ts @ [now]) u = failed_login_effect now m l (failures m l ts u)"
  by (induction ts arbitrary: u) simp_all

lemma failures_locked:
  assumes "u_locked_until u = Some until" "\<forall>now \<in> set ts. now < until"
  shows "u_locked_until (failures m l ts u) = Some until"
  using assms by (induction ts arbitrary: u) (auto simp: failed_login_effect_lock)

text \<open>The lockout of an account. From a fresh counter, fewer failures than the limit never lock; the
  failure that reaches the limit locks the account for the configured time from that failure; and
  failures while the lock lasts never extend it, so nobody can keep an account locked for longer by
  guessing during the lock.\<close>

lemma lockout:
  assumes "u_failed_login_attempts u = 0" and "u_locked_until u = None" and "0 < m" and "int (length ts) = m - 1"
    and "\<forall>t \<in> set later. t < now + seconds l"
  shows "u_locked_until (failures m l ts u) = None \<and>
    u_locked_until (failures m l (ts @ [now]) u) = Some (now + seconds l) \<and>
    u_locked_until (failures m l later (failures m l (ts @ [now]) u)) = Some (now + seconds l)"
proof -
  have b: "u_locked_until (failures m l ts u) = None" using assms failures_below by simp
  moreover have c: "u_locked_until (failures m l (ts @ [now]) u) = Some (now + seconds l)"
    using b assms by (simp add: failures_snoc failed_login_effect_lock failures_count)
  ultimately show ?thesis using failures_locked [OF c] assms(5) by simp
qed

text \<open>Once an account has been locked, its counter stays at the limit when the lock expires: a single
  further failure locks it again for the full time, at whatever later time it happens.\<close>

lemma one_failure_relocks:
  assumes "u_failed_login_attempts u = 0" and "0 < m" and "m \<le> int (length ts)"
    and "\<forall>until. u_locked_until (failures m l ts u) = Some until \<longrightarrow> until \<le> now"
  shows "u_locked_until (failures m l (ts @ [now]) u) = Some (now + seconds l)"
  using assms by (auto simp: failures_snoc failed_login_effect_lock failures_count split: option.split)

end
