(* ===== verification/Metrics_Store.thy ===== *)
theory Metrics_Store
  imports Json Job_Queries
begin

text \<open>
  Metrics: the in-memory statistics of \<open>crates/common/src/metrics.rs\<close>, the messages of a report as
  the protocol defines them, the tables \<open>node_info\<close> and \<open>node_metrics\<close> with the statements of
  \<open>crates/storage/src/queries.rs\<close>, and the conversion of \<open>conversions.rs\<close>. An \<open>f32\<close> is the \<open>f64\<close>
  it converts to.
\<close>

subsection \<open>Statistics of a sample\<close>

record metrics_aggregation =
  agg_metric_name :: string
  agg_avg :: f64
  agg_max :: f64
  agg_min :: f64
  agg_p95 :: f64
  agg_count :: u64
  agg_start_time_ms :: u64
  agg_end_time_ms :: u64

text \<open>The stable sort by \<open>partial_cmp\<close> with incomparable values equal: an element moves before those
  that are greater.\<close>

fun insert_f64 :: "f64 \<Rightarrow> f64 list \<Rightarrow> f64 list" where
  "insert_f64 x [] = [x]"
| "insert_f64 x (y # ys) = (if f64_lt y x then y # insert_f64 x ys else x # y # ys)"

definition sort_f64 :: "f64 list \<Rightarrow> f64 list" where "sort_f64 xs = foldr insert_f64 xs []"

text \<open>\<open>x as usize\<close> truncates and saturates.\<close>

definition f64_as_usize :: "f64 \<Rightarrow> nat" where
  "f64_as_usize x =
     (case x of Fin r \<Rightarrow> min (nat \<lfloor>r\<rfloor>) (2 ^ 64 - 1) | PInf \<Rightarrow> 2 ^ 64 - 1 | _ \<Rightarrow> 0)"

definition p95_index :: "nat \<Rightarrow> nat" where
  "p95_index n = min (f64_as_usize (f64_mul (round64 (of_nat n)) (round64 (95 / 100)))) (n - 1)"

definition metrics_aggregation_new :: "string \<Rightarrow> f64 list \<Rightarrow> u64 \<Rightarrow> u64 \<Rightarrow> metrics_aggregation" where
  "metrics_aggregation_new name values start_ms end_ms =
     (if values = []
      then \<lparr>agg_metric_name = name, agg_avg = Fin 0, agg_max = Fin 0, agg_min = Fin 0, agg_p95 = Fin 0,
            agg_count = 0, agg_start_time_ms = start_ms, agg_end_time_ms = end_ms\<rparr>
      else
        let sorted_values = sort_f64 values;
            total_value = foldl f64_add (Fin 0) values
        in \<lparr>agg_metric_name = name,
            agg_avg = (case round64 (of_nat (length values)) of Fin n \<Rightarrow> f64_div_fin total_value n | _ \<Rightarrow> Fin 0),
            agg_max = foldl f64_max NInf sorted_values, agg_min = foldl f64_min PInf sorted_values,
            agg_p95 = sorted_values ! p95_index (length sorted_values),
            agg_count = of_nat (length values), agg_start_time_ms = start_ms, agg_end_time_ms = end_ms\<rparr>)"

lemma length_insert_f64 [simp]: "length (insert_f64 x xs) = Suc (length xs)"
  by (induction x xs rule: insert_f64.induct) auto

lemma set_insert_f64 [simp]: "set (insert_f64 x xs) = insert x (set xs)"
  by (induction x xs rule: insert_f64.induct) auto

lemma sort_f64_set [simp]: "length (sort_f64 xs) = length xs" "set (sort_f64 xs) = set xs"
  by (induction xs) (auto simp: sort_f64_def)

lemma f64_max_ge: "a \<noteq> NaN \<Longrightarrow> b \<noteq> NaN \<Longrightarrow> f64_le a (f64_max a b) \<and> f64_le b (f64_max a b) \<and> f64_max a b \<noteq> NaN"
  by (cases a; cases b) (auto simp: f64_max_def f64_le_def)

lemma f64_min_le: "a \<noteq> NaN \<Longrightarrow> b \<noteq> NaN \<Longrightarrow> f64_le (f64_min a b) a \<and> f64_le (f64_min a b) b \<and> f64_min a b \<noteq> NaN"
  by (cases a; cases b) (auto simp: f64_min_def f64_le_def)

lemma fold_max:
  assumes "a \<noteq> NaN" "NaN \<notin> set xs"
  shows "(\<forall>x \<in> insert a (set xs). f64_le x (foldl f64_max a xs)) \<and> foldl f64_max a xs \<in> insert a (set xs)"
  using assms
proof (induction xs arbitrary: a)
  case (Cons x xs)
  have m: "f64_max a x \<noteq> NaN" "f64_le a (f64_max a x)" "f64_le x (f64_max a x)" "f64_max a x = a \<or> f64_max a x = x"
    using Cons.prems f64_max_ge [of a x] by (auto simp: f64_max_def)
  show ?case using Cons.IH [OF m(1)] Cons.prems m by (auto intro: f64_le_trans)
qed (simp add: f64_le_refl)

lemma fold_min:
  assumes "a \<noteq> NaN" "NaN \<notin> set xs"
  shows "(\<forall>x \<in> insert a (set xs). f64_le (foldl f64_min a xs) x) \<and> foldl f64_min a xs \<in> insert a (set xs)"
  using assms
proof (induction xs arbitrary: a)
  case (Cons x xs)
  have m: "f64_min a x \<noteq> NaN" "f64_le (f64_min a x) a" "f64_le (f64_min a x) x" "f64_min a x = a \<or> f64_min a x = x"
    using Cons.prems f64_min_le [of a x] by (auto simp: f64_min_def)
  show ?case using Cons.IH [OF m(1)] Cons.prems m by (auto intro: f64_le_trans)
qed (simp add: f64_le_refl)

text \<open>The statistics of a sample of numbers. The minimum and the maximum bound every value of the
  sample and, when it is not empty, are taken in it; the 95th percentile is one of its values and so
  lies between them.\<close>

lemma aggregation_bounds:
  assumes "values \<noteq> []" and "NaN \<notin> set values"
  shows "(\<forall>v \<in> set values. f64_le (agg_min (metrics_aggregation_new name values s e)) v \<and>
      f64_le v (agg_max (metrics_aggregation_new name values s e))) \<and>
    agg_p95 (metrics_aggregation_new name values s e) \<in> set values"
proof -
  have "NaN \<notin> set (sort_f64 values)" using assms(2) by simp
  then have "\<forall>v \<in> set values. f64_le (agg_min (metrics_aggregation_new name values s e)) v \<and>
      f64_le v (agg_max (metrics_aggregation_new name values s e))"
    using fold_max [of NInf "sort_f64 values"] fold_min [of PInf "sort_f64 values"] assms(1)
    by (auto simp: metrics_aggregation_new_def Let_def)
  moreover have "p95_index (length values) < length values"
    using assms(1) by (cases "values") (auto simp: p95_index_def)
  then have "sort_f64 values ! p95_index (length (sort_f64 values)) \<in> set (sort_f64 values)"
    by (intro nth_mem) simp
  then have "agg_p95 (metrics_aggregation_new name values s e) \<in> set values"
    using assms(1) by (simp add: metrics_aggregation_new_def Let_def)
  ultimately show ?thesis by blast
qed

subsection \<open>Messages of a report\<close>

record cpu_core_metrics =
  cc_core_id :: u32
  cc_usage_percent :: f64

record gpu_metrics =
  g_index :: u32
  g_uuid :: string
  g_name :: string
  g_utilization_gpu :: f64
  g_utilization_memory :: f64
  g_memory_total_bytes :: "u64 option"
  g_memory_used_bytes :: "u64 option"
  g_temperature_celsius :: "f64 option"
  g_power_watts :: "f64 option"
  g_fan_speed_percent :: "f64 option"
  g_mig_enabled :: bool

record gpu_process =
  p_pid :: u32
  p_username :: string
  p_command :: string
  p_gpu_uuid :: string
  p_gpu_memory_bytes :: "u64 option"
  p_cpu_percent :: f64
  p_system_memory_bytes :: u64
  p_started_at :: int
  p_sm_utilization :: "f64 option"
  p_memory_utilization :: "f64 option"
  p_encoder_utilization :: "f64 option"
  p_decoder_utilization :: "f64 option"

record system_process =
  sp_pid :: u32
  sp_username :: string
  sp_command :: string
  sp_cpu_percent :: f64
  sp_memory_bytes :: u64

record network_metrics =
  net_interface_name :: string
  net_bytes_sent :: u64
  net_bytes_recv :: u64

record disk_metrics =
  d_mount_point :: string
  d_total_bytes :: u64
  d_used_bytes :: u64
  d_free_bytes :: u64

record node_metrics_report =
  rp_node_id :: string
  rp_sequence :: u64
  rp_timestamp_ms :: u64
  rp_monotonic_clock_ms :: u64
  rp_cpu_usage_percent :: f64
  rp_cpu_cores :: "cpu_core_metrics list"
  rp_load_1 :: f64
  rp_load_5 :: f64
  rp_load_15 :: f64
  rp_memory_total_bytes :: u64
  rp_memory_used_bytes :: u64
  rp_swap_total_bytes :: u64
  rp_swap_used_bytes :: u64
  rp_uptime_seconds :: u64
  rp_boot_time_seconds :: u64
  rp_disks :: "disk_metrics list"
  rp_networks :: "network_metrics list"
  rp_gpus :: "gpu_metrics list"
  rp_gpu_processes :: "gpu_process list"
  rp_cpu_processes :: "system_process list"

subsection \<open>Nodes\<close>

record node_info_row =
  ni_node_id :: string
  ni_hostname :: string
  ni_ip_address :: string
  ni_agent_version :: string
  ni_os_info :: string
  ni_kernel_version :: string
  ni_cpu_model :: string
  ni_cpu_cores :: int
  ni_memory_total_bytes :: int
  ni_labels :: json
  ni_gpu_count :: int
  ni_registered_at :: time
  ni_last_seen :: time

text \<open>The insertion, and the update of every column but the key and the registration time.\<close>

definition upsert_node_info :: "node_info_row \<Rightarrow> node_info_row list \<Rightarrow> node_info_row list" where
  "upsert_node_info r t =
     (if ni_node_id r \<in> ni_node_id ` set t
      then update_where (\<lambda>q. ni_node_id q = ni_node_id r) (\<lambda>q. r\<lparr>ni_registered_at := ni_registered_at q\<rparr>) t
      else t @ [r])"

definition update_node_gpu_count :: "string \<Rightarrow> int \<Rightarrow> node_info_row list \<Rightarrow> node_info_row list" where
  "update_node_gpu_count node_id n t =
     update_where (\<lambda>r. ni_node_id r = node_id) (\<lambda>r. r\<lparr>ni_gpu_count := n\<rparr>) t"

definition node_exists :: "string \<Rightarrow> node_info_row list \<Rightarrow> bool" where
  "node_exists node_id t \<longleftrightarrow> (\<exists>r \<in> set t. ni_node_id r = node_id)"

subsection \<open>Reports\<close>

record node_metrics_row =
  nm_id :: int
  nm_node_id :: string
  nm_sequence :: int
  nm_timestamp_ms :: int
  nm_monotonic_clock_ms :: "int option"
  nm_cpu_usage_percent :: "f64 option"
  nm_load_1 :: "f64 option"
  nm_load_5 :: "f64 option"
  nm_load_15 :: "f64 option"
  nm_memory_total_bytes :: "int option"
  nm_memory_used_bytes :: "int option"
  nm_swap_total_bytes :: "int option"
  nm_swap_used_bytes :: "int option"
  nm_uptime_seconds :: "int option"
  nm_boot_time_seconds :: "int option"
  nm_gpu_metrics :: "json option"
  nm_gpu_processes :: "json option"
  nm_network_metrics :: "json option"
  nm_disk_metrics :: "json option"
  nm_cpu_core_metrics :: "json option"
  nm_cpu_processes :: "json option"
  nm_created_at :: time

text \<open>The \<open>BIGSERIAL\<close> of the row is an argument.\<close>

definition insert_node_metrics ::
  "string list \<Rightarrow> node_metrics_row \<Rightarrow> node_metrics_row list \<Rightarrow> db_error + node_metrics_row list" where
  "insert_node_metrics node_ids r t =
     (if nm_node_id r \<notin> set node_ids then Inl ForeignKeyViolation else Inr (t @ [r]))"

definition get_latest_metrics :: "string \<Rightarrow> node_metrics_row list \<Rightarrow> node_metrics_row option" where
  "get_latest_metrics node_id t =
     fetch_optional (sort_key (\<lambda>r. - nm_timestamp_ms r) (select_where (\<lambda>r. nm_node_id r = node_id) t))"

definition get_metrics_history ::
  "string \<Rightarrow> int \<Rightarrow> int \<Rightarrow> int \<Rightarrow> node_metrics_row list \<Rightarrow> db_error + node_metrics_row list" where
  "get_metrics_history node_id start_ms end_ms limit t =
     (if limit < 0 then Inl InvalidArgument
      else Inr (take (nat limit) (sort_key nm_timestamp_ms (select_where
             (\<lambda>r. nm_node_id r = node_id \<and> start_ms \<le> nm_timestamp_ms r \<and> nm_timestamp_ms r \<le> end_ms) t))))"

definition get_metrics_for_time_range :: "int \<Rightarrow> int \<Rightarrow> node_metrics_row list \<Rightarrow> node_metrics_row list" where
  "get_metrics_for_time_range start_ms end_ms t =
     take 10000 (sort_key nm_timestamp_ms (select_where
       (\<lambda>r. start_ms \<le> nm_timestamp_ms r \<and> nm_timestamp_ms r \<le> end_ms) t))"

definition timestamp_millis :: "time \<Rightarrow> int" where "timestamp_millis t = t div 1000000"

definition prune_old_metrics :: "time \<Rightarrow> node_metrics_row list \<Rightarrow> node_metrics_row list" where
  "prune_old_metrics now t = delete_where (\<lambda>r. nm_timestamp_ms r < timestamp_millis (now - hours 24)) t"

definition get_latest_metrics_all :: "node_metrics_row list \<Rightarrow> node_metrics_row list" where
  "get_latest_metrics_all t =
     distinct_on nm_node_id (sort_key nm_node_id (sort_key (\<lambda>r. - nm_timestamp_ms r) t))"

subsection \<open>A report as a row, and back\<close>

text \<open>\<open>json!\<close> objects keep their keys sorted; a number that is not finite and an absent value are null.\<close>

definition json_obj :: "(string \<times> json) list \<Rightarrow> json" where
  "json_obj kvs = JObj (fold (\<lambda>(k, v) m. kput k v m) kvs [])"

definition json_f64 :: "f64 \<Rightarrow> json" where
  "json_f64 x = (case x of Fin _ \<Rightarrow> JFloat x | _ \<Rightarrow> JNull)"

definition json_word :: "'a::len word \<Rightarrow> json" where "json_word w = JInt (uint w)"

definition json_opt :: "('a \<Rightarrow> json) \<Rightarrow> 'a option \<Rightarrow> json" where
  "json_opt f x = (case x of Some v \<Rightarrow> f v | None \<Rightarrow> JNull)"

definition gpu_json :: "gpu_metrics \<Rightarrow> json" where
  "gpu_json g = json_obj
     [(''index'', json_word (g_index g)), (''uuid'', JStr (g_uuid g)), (''name'', JStr (g_name g)),
      (''utilization_gpu'', json_f64 (g_utilization_gpu g)),
      (''utilization_memory'', json_f64 (g_utilization_memory g)),
      (''memory_total_bytes'', json_opt json_word (g_memory_total_bytes g)),
      (''memory_used_bytes'', json_opt json_word (g_memory_used_bytes g)),
      (''temperature_celsius'', json_opt json_f64 (g_temperature_celsius g)),
      (''power_watts'', json_opt json_f64 (g_power_watts g)),
      (''fan_speed_percent'', json_opt json_f64 (g_fan_speed_percent g)),
      (''mig_enabled'', JBool (g_mig_enabled g))]"

definition gpu_process_json :: "gpu_process \<Rightarrow> json" where
  "gpu_process_json p = json_obj
     [(''pid'', json_word (p_pid p)), (''username'', JStr (p_username p)), (''command'', JStr (p_command p)),
      (''gpu_uuid'', JStr (p_gpu_uuid p)), (''gpu_memory_bytes'', json_opt json_word (p_gpu_memory_bytes p)),
      (''cpu_percent'', json_f64 (p_cpu_percent p)),
      (''system_memory_bytes'', json_word (p_system_memory_bytes p)), (''started_at'', JInt (p_started_at p)),
      (''sm_utilization'', json_opt json_f64 (p_sm_utilization p)),
      (''memory_utilization'', json_opt json_f64 (p_memory_utilization p)),
      (''encoder_utilization'', json_opt json_f64 (p_encoder_utilization p)),
      (''decoder_utilization'', json_opt json_f64 (p_decoder_utilization p))]"

definition core_json :: "cpu_core_metrics \<Rightarrow> json" where
  "core_json c = json_obj [(''core_id'', json_word (cc_core_id c)), (''usage_percent'', json_f64 (cc_usage_percent c))]"

definition system_process_json :: "system_process \<Rightarrow> json" where
  "system_process_json p = json_obj
     [(''pid'', json_word (sp_pid p)), (''username'', JStr (sp_username p)), (''command'', JStr (sp_command p)),
      (''cpu_percent'', json_f64 (sp_cpu_percent p)), (''memory_bytes'', json_word (sp_memory_bytes p))]"

definition network_json :: "network_metrics \<Rightarrow> json" where
  "network_json n = json_obj
     [(''interface_name'', JStr (net_interface_name n)), (''bytes_sent'', json_word (net_bytes_sent n)),
      (''bytes_recv'', json_word (net_bytes_recv n))]"

definition disk_json :: "disk_metrics \<Rightarrow> json" where
  "disk_json d = json_obj
     [(''mount_point'', JStr (d_mount_point d)), (''total_bytes'', json_word (d_total_bytes d)),
      (''used_bytes'', json_word (d_used_bytes d)), (''free_bytes'', json_word (d_free_bytes d))]"

text \<open>The row that \<open>save_metrics_to_db\<close> binds, with the serial and the clock of the statement.\<close>

definition report_row :: "int \<Rightarrow> time \<Rightarrow> node_metrics_report \<Rightarrow> node_metrics_row" where
  "report_row serial now r =
     \<lparr>nm_id = serial, nm_node_id = rp_node_id r, nm_sequence = u64_as_i64 (rp_sequence r),
      nm_timestamp_ms = u64_as_i64 (rp_timestamp_ms r),
      nm_monotonic_clock_ms = Some (u64_as_i64 (rp_monotonic_clock_ms r)),
      nm_cpu_usage_percent = Some (rp_cpu_usage_percent r), nm_load_1 = Some (rp_load_1 r),
      nm_load_5 = Some (rp_load_5 r), nm_load_15 = Some (rp_load_15 r),
      nm_memory_total_bytes = Some (u64_as_i64 (rp_memory_total_bytes r)),
      nm_memory_used_bytes = Some (u64_as_i64 (rp_memory_used_bytes r)),
      nm_swap_total_bytes = Some (u64_as_i64 (rp_swap_total_bytes r)),
      nm_swap_used_bytes = Some (u64_as_i64 (rp_swap_used_bytes r)),
      nm_uptime_seconds = Some (u64_as_i64 (rp_uptime_seconds r)),
      nm_boot_time_seconds = Some (u64_as_i64 (rp_boot_time_seconds r)),
      nm_gpu_metrics = Some (JArr (map gpu_json (rp_gpus r))),
      nm_gpu_processes = Some (JArr (map gpu_process_json (rp_gpu_processes r))),
      nm_network_metrics = Some (JArr (map network_json (rp_networks r))),
      nm_disk_metrics = Some (JArr (map disk_json (rp_disks r))),
      nm_cpu_core_metrics = Some (JArr (map core_json (rp_cpu_cores r))),
      nm_cpu_processes = Some (JArr (map system_process_json (rp_cpu_processes r))),
      nm_created_at = now\<rparr>"

definition opt_u64 :: "int option \<Rightarrow> u64" where
  "opt_u64 x = i64_as_u64 (case x of Some v \<Rightarrow> v | None \<Rightarrow> 0)"

definition opt_f64 :: "f64 option \<Rightarrow> f64" where "opt_f64 x = (case x of Some v \<Rightarrow> v | None \<Rightarrow> Fin 0)"

definition node_metrics_to_proto :: "node_metrics_row \<Rightarrow> node_metrics_report" where
  "node_metrics_to_proto m =
     \<lparr>rp_node_id = nm_node_id m, rp_sequence = i64_as_u64 (nm_sequence m),
      rp_timestamp_ms = i64_as_u64 (nm_timestamp_ms m), rp_monotonic_clock_ms = opt_u64 (nm_monotonic_clock_ms m),
      rp_cpu_usage_percent = opt_f64 (nm_cpu_usage_percent m), rp_cpu_cores = [], rp_load_1 = opt_f64 (nm_load_1 m),
      rp_load_5 = opt_f64 (nm_load_5 m), rp_load_15 = opt_f64 (nm_load_15 m),
      rp_memory_total_bytes = opt_u64 (nm_memory_total_bytes m),
      rp_memory_used_bytes = opt_u64 (nm_memory_used_bytes m),
      rp_swap_total_bytes = opt_u64 (nm_swap_total_bytes m), rp_swap_used_bytes = opt_u64 (nm_swap_used_bytes m),
      rp_uptime_seconds = opt_u64 (nm_uptime_seconds m), rp_boot_time_seconds = opt_u64 (nm_boot_time_seconds m),
      rp_disks = [], rp_networks = [], rp_gpus = [], rp_gpu_processes = [], rp_cpu_processes = []\<rparr>"

text \<open>A report survives the database, up to its lists: the conversion of the stored row gives back every
  scalar of the report exactly, also the unsigned values that the signed columns hold as negative
  ones, and drops the per-device lists.\<close>

lemma report_roundtrip:
  "node_metrics_to_proto (report_row serial now r) =
     r\<lparr>rp_cpu_cores := [], rp_disks := [], rp_networks := [], rp_gpus := [], rp_gpu_processes := [],
       rp_cpu_processes := []\<rparr>"
  by (simp add: node_metrics_to_proto_def report_row_def opt_u64_def opt_f64_def)

end
