(* ===== verification/Rollups.thy ===== *)
theory Rollups
  imports Metrics_Store
begin

text \<open>
  The rollup tables \<open>metrics_hourly\<close> and \<open>metrics_daily\<close>, \<open>crates/storage/src/aggregation.rs\<close> with the
  readers in \<open>queries.rs\<close>. The statements are translated with their filters, groups and conflict
  clauses. What the database computes on doubles (\<open>AVG\<close>, \<open>percentile_cont\<close>, the reading of a text) and
  which comparison operators it has are arguments; its maximum and minimum order \<open>NaN\<close> above every
  number, as the order of \<open>F64\<close> does. The session's time zone is UTC, which the driver sets.
\<close>

record postgres =
  pg_avg :: "f64 list \<Rightarrow> f64"
  pg_percentile_cont :: "f64 \<Rightarrow> f64 list \<Rightarrow> f64"
  pg_text_float :: "string \<Rightarrow> f64 option"
  pg_timestamptz_ge_int8 :: "(time \<Rightarrow> int \<Rightarrow> bool) option"

record rollup_row =
  ru_node_id :: string
  ru_metric_name :: string
  ru_bucket :: time
  ru_avg_value :: f64
  ru_max_value :: f64
  ru_min_value :: f64
  ru_p95_value :: f64
  ru_sample_count :: int

type_synonym rollup_key = "string \<times> string \<times> time"

definition rollup_key :: "rollup_row \<Rightarrow> rollup_key" where
  "rollup_key r = (ru_node_id r, ru_metric_name r, ru_bucket r)"

text \<open>\<open>ON CONFLICT (node_id, metric_name, bucket) DO UPDATE\<close>.\<close>

definition upsert_rollup :: "rollup_row \<Rightarrow> rollup_row list \<Rightarrow> rollup_row list" where
  "upsert_rollup r t =
     (if rollup_key r \<in> rollup_key ` set t then update_where (\<lambda>q. rollup_key q = rollup_key r) (\<lambda>q. r) t else t @ [r])"

definition group_of :: "'k \<Rightarrow> ('k \<times> 'a) list \<Rightarrow> 'a list" where
  "group_of k samples = map snd (filter (\<lambda>s. fst s = k) samples)"

definition group_rows :: "(rollup_key \<Rightarrow> 'a list \<Rightarrow> rollup_row) \<Rightarrow> (rollup_key \<times> 'a) list \<Rightarrow> rollup_row list" where
  "group_rows f samples =
     map (\<lambda>k. f k (group_of k samples)) (remdups (map fst samples))"

subsection \<open>The hour\<close>

definition HOURLY_WINDOW_HOURS :: int where "HOURLY_WINDOW_HOURS = 25"

definition hour_of :: "time \<Rightarrow> time" where "hour_of t = t div hours 1 * hours 1"

definition hour_of_ms :: "int \<Rightarrow> time" where "hour_of_ms ms = hour_of (ms * 1000000)"

text \<open>\<open>(g->>'k')::float\<close>: an absent or null value is NULL (\<open>Some None\<close>), a text that is no number an error.\<close>

definition json_float :: "postgres \<Rightarrow> string \<Rightarrow> json \<Rightarrow> f64 option option" where
  "json_float P k g =
     (case json_get k g of
        None \<Rightarrow> Some None
      | Some JNull \<Rightarrow> Some None
      | Some (JInt i) \<Rightarrow> Some (Some (round64 (of_int i)))
      | Some (JFloat x) \<Rightarrow> Some (Some x)
      | Some (JStr s) \<Rightarrow> map_option Some (pg_text_float P s)
      | Some _ \<Rightarrow> None)"

text \<open>\<open>jsonb_array_elements\<close>; a value that is no array is an error.\<close>

definition gpu_values :: "postgres \<Rightarrow> json option \<Rightarrow> f64 option list option" where
  "gpu_values P v =
     (case v of None \<Rightarrow> Some [] | Some (JArr gs) \<Rightarrow> those (map (json_float P ''utilization_gpu'') gs) | Some _ \<Rightarrow> None)"

definition memory_percent :: "int \<Rightarrow> int \<Rightarrow> f64" where
  "memory_percent used installed =
     (case round64 (of_int installed) of
        Fin d \<Rightarrow> f64_mul (f64_div_fin (round64 (of_int used)) d) (Fin 100) | _ \<Rightarrow> NaN)"

definition memory_sample :: "node_metrics_row \<Rightarrow> f64 option" where
  "memory_sample r =
     (case (nm_memory_total_bytes r, nm_memory_used_bytes r) of
        (Some installed, Some used) \<Rightarrow> if 0 < installed then Some (memory_percent used installed) else None
      | _ \<Rightarrow> None)"

definition sample_key :: "string \<Rightarrow> node_metrics_row \<Rightarrow> rollup_key" where
  "sample_key metric r = (nm_node_id r, metric, hour_of_ms (nm_timestamp_ms r))"

text \<open>The three selections of the union, with NULL as \<open>None\<close>, and the filter on the whole.\<close>

definition hourly_samples :: "postgres \<Rightarrow> int \<Rightarrow> node_metrics_row list \<Rightarrow> (rollup_key \<times> f64) list option" where
  "hourly_samples P since_ms rows =
     (let rs = select_where (\<lambda>r. since_ms \<le> nm_timestamp_ms r) rows;
          cpu = map (\<lambda>r. (sample_key ''cpu_usage_percent'' r, nm_cpu_usage_percent r)) rs;
          memory = map (\<lambda>r. (sample_key ''memory_used_percent'' r, memory_sample r)) rs;
          gpu = those (map (\<lambda>r. map_option (map (Pair (sample_key ''gpu_utilization'' r))) (gpu_values P (nm_gpu_metrics r))) rs)
      in map_option (\<lambda>gpu. List.map_filter (\<lambda>(k, v). map_option (Pair k) v) (cpu @ memory @ concat gpu)) gpu)"

definition hourly_row :: "postgres \<Rightarrow> rollup_key \<Rightarrow> f64 list \<Rightarrow> rollup_row" where
  "hourly_row P k vs =
     (case k of (node, metric, bucket) \<Rightarrow>
       \<lparr>ru_node_id = node, ru_metric_name = metric, ru_bucket = bucket, ru_avg_value = pg_avg P vs,
        ru_max_value = Max (set vs), ru_min_value = Min (set vs),
        ru_p95_value = pg_percentile_cont P (Fin (95 / 100)) vs, ru_sample_count = int (length vs)\<rparr>)"

definition aggregate_to_hourly ::
  "postgres \<Rightarrow> time \<Rightarrow> node_metrics_row list \<Rightarrow> rollup_row list \<Rightarrow> db_error + rollup_row list" where
  "aggregate_to_hourly P now rows t =
     (case hourly_samples P (timestamp_millis (now - hours HOURLY_WINDOW_HOURS)) rows of
        None \<Rightarrow> Inl InvalidArgument
      | Some samples \<Rightarrow> Inr (fold upsert_rollup (group_rows (hourly_row P) samples) t))"

subsection \<open>The day\<close>

definition day_of :: "time \<Rightarrow> time" where "day_of t = t div days 1 * days 1"

definition daily_row :: "postgres \<Rightarrow> rollup_key \<Rightarrow> rollup_row list \<Rightarrow> rollup_row" where
  "daily_row P k rs =
     (case k of (node, metric, bucket) \<Rightarrow>
       \<lparr>ru_node_id = node, ru_metric_name = metric, ru_bucket = bucket, ru_avg_value = pg_avg P (map ru_avg_value rs),
        ru_max_value = Max (set (map ru_max_value rs)), ru_min_value = Min (set (map ru_min_value rs)),
        ru_p95_value = pg_percentile_cont P (Fin (95 / 100)) (map ru_avg_value rs),
        ru_sample_count = sum_list (map ru_sample_count rs)\<rparr>)"

text \<open>The condition compares a time stamp with the bound \<open>i64\<close> of epoch seconds.\<close>

definition aggregate_to_daily ::
  "postgres \<Rightarrow> time \<Rightarrow> rollup_row list \<Rightarrow> rollup_row list \<Rightarrow> db_error + rollup_row list" where
  "aggregate_to_daily P now hourly t =
     (case pg_timestamptz_ge_int8 P of
        None \<Rightarrow> Inl InvalidArgument
      | Some ge \<Rightarrow>
          let rs = select_where (\<lambda>r. ge (ru_bucket r) ((now - days 2) div seconds 1)) hourly
          in Inr (fold upsert_rollup
               (group_rows (daily_row P) (map (\<lambda>r. ((ru_node_id r, ru_metric_name r, day_of (ru_bucket r)), r)) rs)) t))"

subsection \<open>Upserts of groups\<close>

lemma find_by_upsert:
  "find_by rollup_key k (upsert_rollup r t) = (if k = rollup_key r then Some r else find_by rollup_key k t)"
proof (cases "rollup_key r \<in> rollup_key ` set t")
  case True
  have "find_by rollup_key k (update_where (\<lambda>q. rollup_key q = rollup_key r) (\<lambda>q. r) u) =
      (if k = rollup_key r \<and> rollup_key r \<in> rollup_key ` set u then Some r else find_by rollup_key k u)" for u
    by (induction u) (auto simp: update_where_def)
  with True show ?thesis by (simp add: upsert_rollup_def)
next
  case False
  then have "find_by rollup_key (rollup_key r) t = None" by (simp add: find_by_None)
  with False show ?thesis by (auto simp: upsert_rollup_def find_by_append split: option.split)
qed

lemma find_by_upserts:
  assumes "distinct (map rollup_key rs)"
  shows "find_by rollup_key k (fold upsert_rollup rs t) =
    (case find_by rollup_key k rs of Some r \<Rightarrow> Some r | None \<Rightarrow> find_by rollup_key k t)"
  using assms
proof (induction rs arbitrary: t)
  case (Cons r rs)
  then have "find_by rollup_key (rollup_key r) rs = None" by (simp add: find_by_None image_set [symmetric])
  with Cons show ?case by (auto simp: find_by_upsert split: option.split)
qed simp

lemma upsert_distinct: "distinct (map rollup_key t) \<Longrightarrow> distinct (map rollup_key (upsert_rollup r t))"
proof -
  have "map rollup_key (update_where (\<lambda>q. rollup_key q = rollup_key r) (\<lambda>q. r) t) = map rollup_key t"
    by (rule map_update_where) simp
  then show "distinct (map rollup_key t) \<Longrightarrow> distinct (map rollup_key (upsert_rollup r t))"
    by (simp add: upsert_rollup_def image_set del: set_map)
qed

lemma upserts_distinct: "distinct (map rollup_key t) \<Longrightarrow> distinct (map rollup_key (fold upsert_rollup rs t))"
  by (induction rs arbitrary: t) (simp_all add: upsert_distinct)

lemma upsert_same:
  assumes "distinct (map rollup_key t)" "find_by rollup_key (rollup_key r) t = Some r"
  shows "upsert_rollup r t = t"
proof -
  have "q = r" if "q \<in> set t" "rollup_key q = rollup_key r" for q
    using find_by_unique [OF assms(1) that(1)] that(2) assms(2) by simp
  then have "update_where (\<lambda>q. rollup_key q = rollup_key r) (\<lambda>q. r) t = t"
    unfolding update_where_def by (intro map_idI) (metis (full_types))
  with find_by_Some [OF assms(2)] show ?thesis by (auto simp: upsert_rollup_def)
qed

lemma upserts_same:
  "distinct (map rollup_key t) \<Longrightarrow> \<forall>r \<in> set rs. find_by rollup_key (rollup_key r) t = Some r \<Longrightarrow>
     fold upsert_rollup rs t = t"
  by (induction rs) (simp_all add: upsert_same)

lemma group_rows_keys:
  "(\<And>k vs. rollup_key (f k vs) = k) \<Longrightarrow> map rollup_key (group_rows f s) = remdups (map fst s)"
  by (simp add: group_rows_def comp_def)

lemma group_of_empty: "group_of k s = [] \<longleftrightarrow> k \<notin> fst ` set s"
  by (auto simp: group_of_def filter_empty_conv)

lemma find_by_group_rows:
  assumes "\<And>k vs. rollup_key (f k vs) = k"
  shows "find_by rollup_key k (group_rows f s) = (if group_of k s = [] then None else Some (f k (group_of k s)))"
proof -
  have "find_by rollup_key k (map (\<lambda>k. f k (group_of k s)) ks) = (if k \<in> set ks then Some (f k (group_of k s)) else None)" for ks
    by (induction ks) (auto simp: assms)
  then show ?thesis by (simp add: group_rows_def group_of_empty)
qed

lemma key_hourly_row [simp]: "rollup_key (hourly_row P k vs) = k"
  by (cases k) (simp add: hourly_row_def rollup_key_def)

subsection \<open>What the hourly rollup stores\<close>

definition hourly_group :: "postgres \<Rightarrow> time \<Rightarrow> node_metrics_row list \<Rightarrow> rollup_key \<Rightarrow> f64 list" where
  "hourly_group P now rows k =
     (case hourly_samples P (timestamp_millis (now - hours HOURLY_WINDOW_HOURS)) rows of
        None \<Rightarrow> [] | Some samples \<Rightarrow> group_of k samples)"

lemma aggregate_to_hourly_Inr:
  assumes "aggregate_to_hourly P now rows t = Inr t'"
  shows "\<exists>samples. (\<forall>k. hourly_group P now rows k = group_of k samples) \<and>
    (\<forall>u. aggregate_to_hourly P now rows u = Inr (fold upsert_rollup (group_rows (hourly_row P) samples) u)) \<and>
    t' = fold upsert_rollup (group_rows (hourly_row P) samples) t"
  using assms by (auto simp: aggregate_to_hourly_def hourly_group_def split: option.splits)


text \<open>A database that sums from the left and takes the nearest rank.\<close>

definition sample_postgres :: postgres where
  "sample_postgres =
     \<lparr>pg_avg = (\<lambda>vs. f64_div_fin (foldl f64_add (Fin 0) vs) (of_nat (length vs))),
      pg_percentile_cont = (\<lambda>p vs. sort_f64 vs ! p95_index (length vs)), pg_text_float = (\<lambda>s. None),
      pg_timestamptz_ge_int8 = None\<rparr>"

definition usage_row :: "int \<Rightarrow> f64 \<Rightarrow> node_metrics_row" where
  "usage_row ms x =
     \<lparr>nm_id = 1, nm_node_id = ''n'', nm_sequence = 1, nm_timestamp_ms = ms, nm_monotonic_clock_ms = None,
      nm_cpu_usage_percent = Some x, nm_load_1 = None, nm_load_5 = None, nm_load_15 = None,
      nm_memory_total_bytes = None, nm_memory_used_bytes = None, nm_swap_total_bytes = None,
      nm_swap_used_bytes = None, nm_uptime_seconds = None, nm_boot_time_seconds = None, nm_gpu_metrics = None,
      nm_gpu_processes = None, nm_network_metrics = None, nm_disk_metrics = None, nm_cpu_core_metrics = None,
      nm_cpu_processes = None, nm_created_at = 0\<rparr>"

lemmas rollup_eval = aggregate_to_hourly_def hourly_samples_def HOURLY_WINDOW_HOURS_def timestamp_millis_def
  usage_row_def sample_key_def hour_of_ms_def hour_of_def memory_sample_def gpu_values_def List.map_filter_def
  group_rows_def group_of_def hourly_row_def upsert_rollup_def rollup_key_def


lemma hourly_row_bounds:
  "v \<in> set vs \<Longrightarrow> ru_min_value (hourly_row P k vs) \<le> v \<and> v \<le> ru_max_value (hourly_row P k vs)"
  by (cases k) (simp add: hourly_row_def)

text \<open>Raw rows live for 24 hours, the window is 25 hours: the bucket of an hour that is being pruned is
  computed again from what is left of it. Two readings of one hour are counted, and a day later one.\<close>

lemma closed_hour_is_overwritten:
  defines "rows \<equiv> [usage_row 0 (Fin 90), usage_row 2400000 (Fin 10)]"
    and "k \<equiv> (''n'', ''cpu_usage_percent'', 0)"
  shows "\<exists>t t'. aggregate_to_hourly P (hours 1) rows [] = Inr t \<and>
    aggregate_to_hourly P (hours 24 + minutes 30) (prune_old_metrics (hours 24 + minutes 30) rows) t = Inr t' \<and>
    map_option ru_sample_count (find_by rollup_key k t) = Some 2 \<and>
    map_option ru_max_value (find_by rollup_key k t) = Some (Fin 90) \<and>
    map_option ru_sample_count (find_by rollup_key k t') = Some 1 \<and>
    map_option ru_max_value (find_by rollup_key k t') = Some (Fin 10)"
  unfolding rows_def k_def
  by (simp add: rollup_eval prune_old_metrics_def table_simps less_f64_def max_def min_def less_eq_f64_def)

text \<open>Without the operator the daily table is never written.\<close>

lemma daily_rollup_fails: "pg_timestamptz_ge_int8 P = None \<Longrightarrow> aggregate_to_daily P now hourly t = Inl InvalidArgument"
  by (simp add: aggregate_to_daily_def)

subsection \<open>Readers\<close>

text \<open>The rows of a bucket range. The daily bucket is a \<open>DATE\<close>, which does not decode as the time stamp the
  caller asks for, so a daily query that finds a row is an error.\<close>

definition get_aggregated_history ::
  "string \<Rightarrow> int \<Rightarrow> int \<Rightarrow> bool \<Rightarrow> rollup_row list \<Rightarrow> rollup_row list \<Rightarrow> db_error + (time \<times> string \<times> f64) list" where
  "get_aggregated_history node_id start_ms end_ms hourly hourly_rows daily_rows =
     (let rows = sort_key ru_bucket (select_where
            (\<lambda>r. ru_node_id r = node_id \<and> start_ms * 1000000 \<le> ru_bucket r \<and> ru_bucket r \<le> end_ms * 1000000)
            (if hourly then hourly_rows else daily_rows))
      in if \<not> hourly \<and> rows \<noteq> [] then Inl InvalidArgument
         else Inr (map (\<lambda>r. (ru_bucket r, ru_metric_name r, ru_avg_value r)) rows))"

text \<open>\<open>days (n as i64)\<close>; the callers pass 7 and 90.\<close>

definition cleanup_rollups :: "time \<Rightarrow> u64 \<Rightarrow> rollup_row list \<Rightarrow> nat \<times> rollup_row list" where
  "cleanup_rollups now retention_days t =
     (let old = (\<lambda>r. ru_bucket r < now - days (u64_as_i64 retention_days))
      in (rows_affected old t, delete_where old t))"

text \<open>The utilization over the latest report with GPUs of each node: the average, the busy GPUs and all of
  them; \<open>None\<close> without any.\<close>

definition get_gpu_utilization_summary :: "postgres \<Rightarrow> node_metrics_row list \<Rightarrow> db_error + (f64 \<times> int \<times> int) option" where
  "get_gpu_utilization_summary P t =
     (let latest = distinct_on nm_node_id (sort_key nm_node_id (sort_key (\<lambda>r. - nm_timestamp_ms r)
            (select_where (\<lambda>r. nm_gpu_metrics r \<noteq> None) t)))
      in case those (map (gpu_values P \<circ> nm_gpu_metrics) latest) of
           None \<Rightarrow> Inl InvalidArgument
         | Some gpus \<Rightarrow>
             let vs = List.map_filter id (concat gpus)
             in Inr (if concat gpus = [] then None
                  else Some (if vs = [] then Fin 0 else pg_avg P vs, int (length (filter (\<lambda>v. Fin 1 \<le> v) vs)),
                             int (length (concat gpus)))))"

lemma length_map_filter: "length (List.map_filter f xs) \<le> length xs"
  by (induction xs) (auto simp: List.map_filter_simps split: option.split)

lemma busy_le_total:
  assumes "get_gpu_utilization_summary P t = Inr (Some (avg, busy, cap))"
  shows "0 \<le> busy" "busy \<le> cap" "0 < cap"
proof -
  have "length (filter Q (List.map_filter id xs)) \<le> length xs" for Q and xs :: "'a option list"
    using length_filter_le [of Q "List.map_filter id xs"] length_map_filter [of id xs] by linarith
  then show "0 \<le> busy" "busy \<le> cap" "0 < cap"
    using assms by (auto simp: get_gpu_utilization_summary_def Let_def split: option.splits if_splits)
qed

end
