(* ===== verification/Job_Logs.thy ===== *)
theory Job_Logs
  imports Job_Queries
begin

text \<open>
  The log lines of jobs: \<open>JobLogRow\<close>, the statements on \<open>job_logs\<close> in \<open>crates/storage/src/queries.rs\<close>,
  and the capping and batched insertion of \<open>crates/server/src/grpc.rs\<close>. The serial of the table is
  part of it, because a skipped row uses up a value.
\<close>

record job_log_row =
  jl_id :: int
  jl_job_id :: string
  jl_log_offset :: int
  jl_log_data :: string
  jl_is_stderr :: bool
  jl_timestamp :: time
  jl_created_at :: time

record log_table =
  lt_rows :: "job_log_row list"
  lt_next :: int

text \<open>A \<open>JobLogEntry\<close> of the protocol; the time stamp is in milliseconds.\<close>

record log_message =
  lm_job_id :: string
  lm_log_data :: string
  lm_is_stderr :: bool
  lm_timestamp :: int
  lm_log_offset :: int

definition LOG_BATCH_SIZE :: nat where "LOG_BATCH_SIZE = 50"
definition MAX_LOG_LINE_BYTES :: nat where "MAX_LOG_LINE_BYTES = 64 * 1024"

text \<open>\<open>is_char_boundary\<close> inside the string, and the loop that moves the cut down to one.\<close>

definition is_char_boundary :: "string \<Rightarrow> nat \<Rightarrow> bool" where
  "is_char_boundary s i \<longleftrightarrow> i = 0 \<or> i = length s \<or> (i < length s \<and> \<not> is_continuation (s ! i))"

fun cut_at :: "string \<Rightarrow> nat \<Rightarrow> nat" where
  "cut_at s 0 = 0"
| "cut_at s (Suc i) = (if is_char_boundary s (Suc i) then Suc i else cut_at s i)"

definition cap_log_line :: "string \<Rightarrow> string" where
  "cap_log_line line =
     (if length line \<le> MAX_LOG_LINE_BYTES then line
      else take (cut_at line MAX_LOG_LINE_BYTES) line @ '' ...[truncated]'')"

text \<open>\<open>from_timestamp_millis\<close>.\<close>

definition from_timestamp_millis :: "int \<Rightarrow> time option" where
  "from_timestamp_millis ms =
     (if -8334601315200 * 1000 \<le> ms \<and> ms < 8210266876800 * 1000 then Some (ms * 1000000) else None)"

text \<open>One row of the batch: \<open>ON CONFLICT DO NOTHING\<close> on the job and offset.\<close>

definition insert_log :: "time \<Rightarrow> log_message \<Rightarrow> log_table \<Rightarrow> log_table" where
  "insert_log now e L =
     (let L' = L\<lparr>lt_next := lt_next L + 1\<rparr>
      in if \<exists>r \<in> set (lt_rows L). jl_job_id r = lm_job_id e \<and> jl_log_offset r = lm_log_offset e then L'
         else L'\<lparr>lt_rows := lt_rows L @
           [\<lparr>jl_id = lt_next L, jl_job_id = lm_job_id e, jl_log_offset = lm_log_offset e,
             jl_log_data = cap_log_line (lm_log_data e), jl_is_stderr = lm_is_stderr e,
             jl_timestamp = (case from_timestamp_millis (lm_timestamp e) of Some t \<Rightarrow> t | None \<Rightarrow> now),
             jl_created_at = now\<rparr>]\<rparr>)"

text \<open>The multi-row insert: a job that does not exist fails the whole statement, which has then used up
  serials but stored nothing.\<close>

definition save_job_logs :: "string list \<Rightarrow> time \<Rightarrow> log_message list \<Rightarrow> log_table \<Rightarrow> db_error + log_table" where
  "save_job_logs job_ids now entries L =
     (if entries = [] then Inr L
      else if \<exists>e \<in> set entries. lm_job_id e \<notin> set job_ids then Inl ForeignKeyViolation
      else Inr (fold (insert_log now) entries L))"

text \<open>The stream of \<open>report_job_logs\<close>: lines are saved in batches, and the last one of a saved batch is
  acknowledged. A batch that fails is acknowledged too.\<close>

fun report_job_logs ::
  "string list \<Rightarrow> time \<Rightarrow> log_message list \<Rightarrow> log_message list \<Rightarrow> log_table \<Rightarrow> (string \<times> int) list \<times> log_table" where
  "report_job_logs job_ids now batch [] L =
     (if batch = [] then ([], L)
      else ([(lm_job_id (last batch), lm_log_offset (last batch))],
            case save_job_logs job_ids now batch L of Inr L' \<Rightarrow> L' | Inl _ \<Rightarrow> L))"
| "report_job_logs job_ids now batch (e # es) L =
     (let batch = batch @ [e]
      in if LOG_BATCH_SIZE \<le> length batch then
           (let L' = (case save_job_logs job_ids now batch L of Inr L' \<Rightarrow> L' | Inl _ \<Rightarrow> L);
                (acks, L'') = report_job_logs job_ids now [] es L'
            in ((lm_job_id e, lm_log_offset e) # acks, L''))
         else report_job_logs job_ids now batch es L)"

definition get_job_logs :: "string \<Rightarrow> int \<Rightarrow> int \<Rightarrow> bool \<Rightarrow> log_table \<Rightarrow> db_error + job_log_row list" where
  "get_job_logs jid offset limit stderr_only L =
     (if offset < 0 \<or> limit < 0 then Inl InvalidArgument
      else Inr (take (nat limit) (drop (nat offset) (sort_key jl_log_offset (select_where
             (\<lambda>r. jl_job_id r = jid \<and> (stderr_only \<longrightarrow> jl_is_stderr r)) (lt_rows L))))))"

definition prune_old_job_logs :: "time \<Rightarrow> log_table \<Rightarrow> nat \<times> log_table" where
  "prune_old_job_logs cutoff L =
     (rows_affected (\<lambda>r. jl_timestamp r < cutoff) (lt_rows L),
      L\<lparr>lt_rows := delete_where (\<lambda>r. jl_timestamp r < cutoff) (lt_rows L)\<rparr>)"

subsection \<open>Capped lines\<close>

lemma cut_at_le: "cut_at s i \<le> i"
  by (induction s i rule: cut_at.induct) auto

lemma cut_at_boundary: "is_char_boundary s (cut_at s i)"
  by (induction s i rule: cut_at.induct) (auto simp: is_char_boundary_def)

lemma cut_at_greatest: "j \<le> i \<Longrightarrow> is_char_boundary s j \<Longrightarrow> j \<le> cut_at s i"
  by (induction s i rule: cut_at.induct) (auto simp: le_Suc_eq)

text \<open>No character has more than three continuation bytes.\<close>

definition utf8_shaped :: "string \<Rightarrow> bool" where
  "utf8_shaped s \<longleftrightarrow> (\<forall>i. i < length s \<longrightarrow> (\<exists>j. j \<le> i \<and> i \<le> j + 3 \<and> is_char_boundary s j))"

text \<open>Capped lines. A line within the cap is stored as it is. A longer one is cut between two characters,
  at the last such place within the cap, so at most three bytes below it, and marked; no stored
  line is longer than the cap and the marker.\<close>

lemma cap_log_line_spec:
  assumes "utf8_shaped line"
  shows "if length line \<le> 65536 then cap_log_line line = line
    else \<exists>n. cap_log_line line = take n line @ '' ...[truncated]'' \<and> is_char_boundary line n \<and>
           65533 \<le> n \<and> n \<le> 65536 \<and> (\<forall>m. m \<le> 65536 \<longrightarrow> is_char_boundary line m \<longrightarrow> m \<le> n)"
proof (cases "length line \<le> 65536")
  case False
  obtain j where "j \<le> 65536" "65536 \<le> j + 3" "is_char_boundary line j"
    using assms False unfolding utf8_shaped_def by (metis not_le)
  then have "65533 \<le> cut_at line 65536" using cut_at_greatest [of j 65536 line] by linarith
  then show ?thesis
    using False cut_at_le [of line 65536] cut_at_boundary [of line 65536] cut_at_greatest [of _ 65536 line]
    by (auto simp: cap_log_line_def MAX_LOG_LINE_BYTES_def intro!: exI [of _ "cut_at line 65536"])
qed (simp add: cap_log_line_def MAX_LOG_LINE_BYTES_def)

subsection \<open>Sending lines again\<close>

definition has_line :: "log_table \<Rightarrow> log_message \<Rightarrow> bool" where
  "has_line L e \<longleftrightarrow> (\<exists>r \<in> set (lt_rows L). jl_job_id r = lm_job_id e \<and> jl_log_offset r = lm_log_offset e)"

lemma insert_log_present: "has_line L e \<Longrightarrow> lt_rows (insert_log now e L) = lt_rows L"
  by (auto simp: insert_log_def has_line_def Let_def)

lemma insert_log_has: "has_line (insert_log now e L) e"
  by (auto simp: insert_log_def has_line_def Let_def)

lemma insert_log_keeps: "has_line L e \<Longrightarrow> has_line (insert_log now' e' L) e"
  by (auto simp: insert_log_def has_line_def Let_def)

lemma fold_insert_keeps: "has_line L e \<Longrightarrow> has_line (fold (insert_log now) es L) e"
  by (induction es arbitrary: L) (auto intro: insert_log_keeps)

lemma fold_insert_has: "e \<in> set es \<Longrightarrow> has_line (fold (insert_log now) es L) e"
  by (induction es arbitrary: L) (auto intro: fold_insert_keeps insert_log_has)

lemma has_line_rows: "lt_rows L = lt_rows M \<Longrightarrow> has_line L e = has_line M e"
  by (simp add: has_line_def)

lemma fold_insert_present:
  "(\<And>e. e \<in> set es \<Longrightarrow> has_line L e) \<Longrightarrow> lt_rows (fold (insert_log now) es L) = lt_rows L"
proof (induction es arbitrary: L)
  case (Cons e es)
  have rows: "lt_rows (insert_log now e L) = lt_rows L" using Cons.prems by (simp add: insert_log_present)
  then have "has_line (insert_log now e L) d" if "d \<in> set es" for d
    using Cons.prems that has_line_rows [OF rows] by simp
  then show ?case using Cons.IH rows by simp
qed simp

definition log_keys :: "log_table \<Rightarrow> (string \<times> int) list" where
  "log_keys L = map (\<lambda>r. (jl_job_id r, jl_log_offset r)) (lt_rows L)"

lemma insert_log_distinct: "distinct (log_keys L) \<Longrightarrow> distinct (log_keys (insert_log now e L))"
  by (auto simp: insert_log_def log_keys_def Let_def)

lemma fold_insert_distinct: "distinct (log_keys L) \<Longrightarrow> distinct (log_keys (fold (insert_log now) es L))"
  by (induction es arbitrary: L) (auto intro: insert_log_distinct)

text \<open>Storing a batch is idempotent. After it succeeds every line of it has a row, no job has two rows
  with one offset, and sending the same lines again, even mixed with others of the batch and at any
  later time, changes no row.\<close>

lemma resent_logs_ignored:
  assumes "save_job_logs job_ids now entries L = Inr L'" and "distinct (log_keys L)"
  shows "(\<forall>e \<in> set entries. has_line L' e) \<and> distinct (log_keys L') \<and>
    (\<forall>later again. set again \<subseteq> set entries \<longrightarrow>
       (\<exists>L''. save_job_logs job_ids later again L' = Inr L'' \<and> lt_rows L'' = lt_rows L'))"
proof -
  have L': "L' = fold (insert_log now) entries L" and known: "entries \<noteq> [] \<longrightarrow> (\<forall>e \<in> set entries. lm_job_id e \<in> set job_ids)"
    using assms(1) by (auto simp: save_job_logs_def split: if_splits)
  have has: "\<forall>e \<in> set entries. has_line L' e" unfolding L' using fold_insert_has by blast
  have "\<exists>L''. save_job_logs job_ids later again L' = Inr L'' \<and> lt_rows L'' = lt_rows L'"
    if sub: "set again \<subseteq> set entries" for later again
  proof -
    have "lt_rows (fold (insert_log later) again L') = lt_rows L'"
      using has sub by (intro fold_insert_present) blast
    moreover have "\<not> (\<exists>e \<in> set again. lm_job_id e \<notin> set job_ids)" if "again \<noteq> []"
      using that sub known by (metis empty_iff list.set(1) set_empty subset_code(1) subset_empty)
    ultimately show ?thesis by (auto simp: save_job_logs_def)
  qed
  with has show ?thesis using L' assms(2) fold_insert_distinct by blast
qed

definition sample_line :: "int \<Rightarrow> log_message" where
  "sample_line i = \<lparr>lm_job_id = ''j1'', lm_log_data = ''x'', lm_is_stderr = False, lm_timestamp = 0, lm_log_offset = i\<rparr>"

end
