(* ===== verification/App_State.thy ===== *)
theory App_State
  imports Ws_Manager Limiter Scheduler Registry Alert_Queries User_Queries Rollups Job_Logs
begin

text \<open>
  The shared state of the server (\<open>AppState\<close> of \<open>crates/server/src/lib.rs\<close>) with the tables of the
  database, what a request brings with it, and the helpers every handler calls: the client
  address, the audit trail and the limiter wrappers. A handler is a function from the request and the state
  to its reply and the new state.

  A request is handled from one reading of the clock. Its statements run one after the other: what can
  happen between two statements of a request is the subject of the theorems on the single statements
  (conditional updates, single use), which hold for every interleaving of statements. Generated values
  are looked up by purpose, and \<open>e_fault\<close> tells which statements fail in the connection; a
  failed statement changes nothing. The semaphore on password hashing only delays.
\<close>

record app_state =
  st_config :: server_config
  st_jwt_secret :: string
  st_limiter :: login_limiter
  st_ws :: ws_manager
  st_engine :: alert_engine
  st_alert_rules :: "alert_rule list"
  st_registry :: registry_manager
  st_sched :: scheduler
  st_users :: "user_row list"
  st_tokens :: "token_row list"
  st_audit :: "audit_log_row list"
  st_alerts :: alert_db
  st_jobs :: job_table
  st_node_info :: "node_info_row list"
  st_metrics :: "node_metrics_row list"
  st_metrics_serial :: int
  st_hourly :: "rollup_row list"
  st_daily :: "rollup_row list"
  st_logs :: log_table
  st_seen :: "string list"

text \<open>The keys of \<open>node_info\<close>, which other tables reference.\<close>

definition st_node_ids :: "app_state \<Rightarrow> string list" where
  "st_node_ids st = map ni_node_id (st_node_info st)"

record env =
  e_now :: time
  e_fresh :: "string \<Rightarrow> string"
  e_fault :: "string \<Rightarrow> bool"
  e_peer :: string
  e_xff :: "string option"
  e_crypto :: crypto
  e_sha :: "string \<Rightarrow> string"
  e_to_string :: "json \<Rightarrow> string"

text \<open>A reply: a value, a status, or the panic of the handler, which closes the connection.\<close>

datatype 'a reply = Ok 'a | Err status_code | Panics

definition effective_client_ip :: "env \<Rightarrow> bool \<Rightarrow> string" where
  "effective_client_ip E trust_proxy =
     (let socket = e_peer E
      in if trust_proxy then
           (case e_xff E of
              Some xff \<Rightarrow>
                let ip = trim (takeWhile (\<lambda>c. c \<noteq> CHR '','') xff) in if ip \<noteq> [] then ip else socket
            | None \<Rightarrow> socket)
         else socket)"

definition client_ip :: "env \<Rightarrow> app_state \<Rightarrow> string" where
  "client_ip E st = effective_client_ip E (sc_trust_proxy_headers (st_config st))"

subsection \<open>Limiter wrappers\<close>

definition login_allowed :: "env \<Rightarrow> string \<Rightarrow> string \<Rightarrow> app_state \<Rightarrow> bool \<times> app_state" where
  "login_allowed E ip username st =
     (let (ok, L) = allowed (e_now E) ip username (st_limiter st) in (ok, st\<lparr>st_limiter := L\<rparr>))"

definition login_failed :: "env \<Rightarrow> string \<Rightarrow> string \<Rightarrow> app_state \<Rightarrow> app_state" where
  "login_failed E ip username st = st\<lparr>st_limiter := record_failure (e_now E) ip username (st_limiter st)\<rparr>"

definition global_login_allowed :: "env \<Rightarrow> app_state \<Rightarrow> bool \<times> app_state" where
  "global_login_allowed E st =
     (let (ok, L) = global_allowed (e_now E) (st_limiter st) in (ok, st\<lparr>st_limiter := L\<rparr>))"

definition record_global_login_attempt :: "env \<Rightarrow> app_state \<Rightarrow> app_state" where
  "record_global_login_attempt E st = st\<lparr>st_limiter := record_attempt (e_now E) (st_limiter st)\<rparr>"

definition prune_login_attempts :: "time \<Rightarrow> app_state \<Rightarrow> app_state" where
  "prune_login_attempts now st = st\<lparr>st_limiter := prune_limiter now (st_limiter st)\<rparr>"

subsection \<open>Audit trail\<close>

text \<open>\<open>insert_audit_log(...).await.ok()\<close>: a failure is ignored.\<close>

definition audit ::
  "env \<Rightarrow> string \<Rightarrow> string \<Rightarrow> string option \<Rightarrow> string option \<Rightarrow> string option \<Rightarrow> string \<Rightarrow> string
    \<Rightarrow> app_state \<Rightarrow> app_state" where
  "audit E user action target target_type details result ip st =
     (if e_fault E ''insert_audit_log'' then st
      else case insert_audit_log (e_fresh E ''audit'') (e_now E) user action target target_type details result
                  (Some ip) (st_audit st) of
             Inl _ \<Rightarrow> st
           | Inr (_, ls) \<Rightarrow> st\<lparr>st_audit := ls\<rparr>)"

definition audit_username :: "env \<Rightarrow> claims \<Rightarrow> app_state \<Rightarrow> string" where
  "audit_username E cl st =
     (if e_fault E ''audit_username'' then sub cl
      else case get_user_by_id (sub cl) (st_users st) of Some u \<Rightarrow> u_username u | None \<Rightarrow> sub cl)"

text \<open>What the helpers leave alone.\<close>

lemma audit_frame [simp]:
  "st_config (audit E u a t y d r ip st) = st_config st"
  "st_jwt_secret (audit E u a t y d r ip st) = st_jwt_secret st"
  "st_limiter (audit E u a t y d r ip st) = st_limiter st"
  "st_ws (audit E u a t y d r ip st) = st_ws st"
  "st_engine (audit E u a t y d r ip st) = st_engine st"
  "st_alert_rules (audit E u a t y d r ip st) = st_alert_rules st"
  "st_registry (audit E u a t y d r ip st) = st_registry st"
  "st_sched (audit E u a t y d r ip st) = st_sched st"
  "st_users (audit E u a t y d r ip st) = st_users st"
  "st_tokens (audit E u a t y d r ip st) = st_tokens st"
  "st_alerts (audit E u a t y d r ip st) = st_alerts st"
  "st_jobs (audit E u a t y d r ip st) = st_jobs st"
  "st_node_info (audit E u a t y d r ip st) = st_node_info st"
  "st_metrics (audit E u a t y d r ip st) = st_metrics st"
  "st_logs (audit E u a t y d r ip st) = st_logs st"
  "st_node_ids (audit E u a t y d r ip st) = st_node_ids st"
  by (simp_all add: audit_def st_node_ids_def split: sum.split)

lemma limiter_frame [simp]:
  "st_config (snd (login_allowed E ip n st)) = st_config st" "st_config (login_failed E ip n st) = st_config st"
  "st_users (snd (login_allowed E ip n st)) = st_users st" "st_users (login_failed E ip n st) = st_users st"
  "st_tokens (snd (login_allowed E ip n st)) = st_tokens st" "st_tokens (login_failed E ip n st) = st_tokens st"
  "st_audit (snd (login_allowed E ip n st)) = st_audit st" "st_audit (login_failed E ip n st) = st_audit st"
  "st_jwt_secret (snd (login_allowed E ip n st)) = st_jwt_secret st"
  "st_jwt_secret (login_failed E ip n st) = st_jwt_secret st"
  by (simp_all add: login_allowed_def login_failed_def split_beta Let_def)

lemma global_frame [simp]:
  "st_config (snd (global_login_allowed E st)) = st_config st"
  "st_users (snd (global_login_allowed E st)) = st_users st"
  "st_tokens (snd (global_login_allowed E st)) = st_tokens st"
  "st_jwt_secret (snd (global_login_allowed E st)) = st_jwt_secret st"
  "st_config (record_global_login_attempt E st) = st_config st"
  "st_users (record_global_login_attempt E st) = st_users st"
  "st_tokens (record_global_login_attempt E st) = st_tokens st"
  "st_jwt_secret (record_global_login_attempt E st) = st_jwt_secret st"
  by (simp_all add: global_login_allowed_def record_global_login_attempt_def split_beta Let_def)

text \<open>The address is never empty when the socket has one.\<close>

lemma effective_client_ip_nonempty: "e_peer E \<noteq> [] \<Longrightarrow> effective_client_ip E trust \<noteq> []"
  by (auto simp: effective_client_ip_def Let_def split: option.split)

end
