(* ===== verification/Session_Handlers.thy ===== *)
theory Session_Handlers
  imports App_State
begin

text \<open>
  The handlers of sessions and accounts in \<open>crates/server/src/handlers.rs\<close>: login, token refresh, the
  administration of users and the change of one's own password. The body of a JSON request that the
  source reads field by field is a \<open>json\<close> value here too.
\<close>

definition MAX_USERNAME_CHARS :: nat where "MAX_USERNAME_CHARS = 100"
definition MAX_EMAIL_CHARS :: nat where "MAX_EMAIL_CHARS = 255"
definition MAX_PASSWORD_BYTES :: nat where "MAX_PASSWORD_BYTES = 1024"

record login_response =
  access_token :: string
  refresh_token_text :: string
  expires_at :: int

text \<open>\<open>DateTime::from_timestamp\<close>, and the expiry of a new refresh token; the sum wraps as an \<open>i64\<close>.\<close>

definition from_timestamp :: "int \<Rightarrow> time option" where
  "from_timestamp s = (if -8334601315200 \<le> s \<and> s < 8210266876800 then Some (seconds s) else None)"

definition refresh_expiry :: "time \<Rightarrow> server_config \<Rightarrow> int" where
  "refresh_expiry now cfg =
     u64_as_i64 (i64_as_u64 (timestamp now + u64_as_i64 (sc_jwt_refresh_expiry_secs cfg)))"

text \<open>The end of both \<open>login\<close> and \<open>refresh_token\<close>: the access token, then the stored refresh token.\<close>

definition issue_tokens :: "env \<Rightarrow> string \<Rightarrow> string \<Rightarrow> app_state \<Rightarrow> login_response reply \<times> app_state" where
  "issue_tokens E user_id r st =
     (case generate_jwt (e_crypto E) (e_fresh E ''jti'') (e_now E) user_id r (st_jwt_secret st)
             (sc_jwt_access_expiry_secs (st_config st)) of
        None \<Rightarrow> (Panics, st)
      | Some (Inl _) \<Rightarrow> (Err Internal500, st)
      | Some (Inr access) \<Rightarrow>
          let refresh = e_fresh E ''refresh'';
              expires = refresh_expiry (e_now E) (st_config st);
              until = (case from_timestamp expires of Some t \<Rightarrow> t | None \<Rightarrow> e_now E)
          in if e_fault E ''add_refresh_token'' then (Err Internal500, st)
             else case add_refresh_token (e_sha E) refresh user_id until (st_users st) (st_tokens st) of
                    Inl _ \<Rightarrow> (Err Internal500, st)
                  | Inr ts \<Rightarrow>
                      (Ok \<lparr>access_token = access, refresh_token_text = refresh, expires_at = expires\<rparr>,
                       st\<lparr>st_tokens := ts\<rparr>))"

text \<open>\<open>locked_until > Utc::now()\<close>.\<close>

definition locked :: "time \<Rightarrow> user_row \<Rightarrow> bool" where
  "locked now u \<longleftrightarrow> (case u_locked_until u of Some t \<Rightarrow> now < t | None \<Rightarrow> False)"

text \<open>The part of \<open>login\<close> after the account was found. The dummy verification of the failing branches has
  no result.\<close>

definition login_account :: "env \<Rightarrow> string \<Rightarrow> string \<Rightarrow> user_row \<Rightarrow> app_state \<Rightarrow> login_response reply \<times> app_state" where
  "login_account E username password u st =
     (let ip = client_ip E st;
          failed = (\<lambda>reason st. login_failed E ip username
             (audit E username ''login'' (Some (u_user_id u)) (Some ''user'') (Some reason) ''failed'' ip st))
      in if \<not> u_enabled u then (Err Unauthorized401, failed ''disabled account'' st)
         else if locked (e_now E) u then (Err TooMany429, failed ''locked account'' st)
         else case verify_password (e_crypto E) password (u_password_hash u) of
                Inl _ \<Rightarrow>
                  let st' = (if e_fault E ''record_failed_login'' then st
                             else case record_failed_login (e_now E) username
                                         (sint (sc_max_login_attempts (st_config st)))
                                         (u64_as_i64 (sc_lockout_duration_secs (st_config st))) (st_users st) of
                                    Inl _ \<Rightarrow> st
                                  | Inr us \<Rightarrow> st\<lparr>st_users := us\<rparr>)
                  in (Err Unauthorized401, failed ''wrong password'' st')
              | Inr _ \<Rightarrow>
                  let st = (if e_fault E ''record_login'' then st
                            else st\<lparr>st_users := record_login (e_now E) (u_user_id u) (st_users st)\<rparr>);
                      st = audit E (u_username u) ''login'' (Some (u_user_id u)) (Some ''user'') None ''success'' ip st
                  in issue_tokens E (u_user_id u) (u_role u) st)"

definition login :: "env \<Rightarrow> string \<Rightarrow> string \<Rightarrow> app_state \<Rightarrow> login_response reply \<times> app_state" where
  "login E username password st =
     (let (ok, st) = global_login_allowed E st
      in if \<not> ok then (Err TooMany429, st)
         else
           let st = record_global_login_attempt E st;
               ip = client_ip E st;
               (ok, st) = login_allowed E ip username st
           in if \<not> ok then (Err TooMany429, st)
              else if MAX_USERNAME_CHARS < chars_count username \<or> MAX_PASSWORD_BYTES < length password
              then (Err BadRequest400, login_failed E ip username st)
              else if e_fault E ''get_user_by_username'' then (Err Internal500, st)
              else case get_user_by_username username (st_users st) of
                     None \<Rightarrow>
                       (Err Unauthorized401, login_failed E ip username
                          (audit E username ''login'' None None (Some ''unknown user'') ''failed'' ip st))
                   | Some u \<Rightarrow> login_account E username password u st)"

definition REFRESH_BUCKET :: string where "REFRESH_BUCKET = ''<refresh-token>''"

definition refresh_token :: "env \<Rightarrow> json \<Rightarrow> app_state \<Rightarrow> login_response reply \<times> app_state" where
  "refresh_token E req st =
     (let ip = client_ip E st;
          (ok, st) = login_allowed E ip REFRESH_BUCKET st;
          failed = login_failed E ip REFRESH_BUCKET
      in if \<not> ok then (Err TooMany429, st)
         else case get_str ''refresh_token'' req of
                None \<Rightarrow> (Err BadRequest400, st)
              | Some token \<Rightarrow>
                  if e_fault E ''consume_refresh_token'' then (Err Internal500, st)
                  else
                    let (owner, ts) = consume_refresh_token (e_sha E) (e_now E) token (st_tokens st);
                        st = st\<lparr>st_tokens := ts\<rparr>
                    in case owner of
                         None \<Rightarrow> (Err Unauthorized401, failed st)
                       | Some user_id \<Rightarrow>
                           if e_fault E ''get_user_by_id'' then (Err Internal500, st)
                           else case get_user_by_id user_id (st_users st) of
                                  None \<Rightarrow> (Err Unauthorized401, failed st)
                                | Some u \<Rightarrow>
                                    if \<not> u_enabled u then (Err Unauthorized401, failed st)
                                    else if locked (e_now E) u then (Err Unauthorized401, failed st)
                                    else issue_tokens E (u_user_id u) (u_role u) st)"

subsection \<open>Accounts\<close>

definition known_role :: "string \<Rightarrow> bool" where
  "known_role r \<longleftrightarrow> r = ''viewer'' \<or> r = ''operator'' \<or> r = ''admin''"

text \<open>\<open>is_unique_violation\<close>.\<close>

definition is_unique_violation :: "db_error \<Rightarrow> bool" where
  "is_unique_violation e \<longleftrightarrow> e = UniqueViolation"

definition create_user_handler :: "env \<Rightarrow> claims \<Rightarrow> json \<Rightarrow> app_state \<Rightarrow> json reply \<times> app_state" where
  "create_user_handler E cl req st =
     (let ip = client_ip E st;
          r = get_str_or ''role'' ''viewer'' req;
          email = get_str ''email'' req
      in case get_str ''username'' req of
           None \<Rightarrow> (Err BadRequest400, st)
         | Some username \<Rightarrow>
         (case get_str ''password'' req of
            None \<Rightarrow> (Err BadRequest400, st)
          | Some password \<Rightarrow>
              if \<not> known_role r then (Err BadRequest400, st)
              else if MAX_USERNAME_CHARS < chars_count username \<or> trim username = [] then (Err BadRequest400, st)
              else if (case email of Some e \<Rightarrow> MAX_EMAIL_CHARS < chars_count e \<or> e = [] | None \<Rightarrow> False)
              then (Err BadRequest400, st)
              else if MAX_PASSWORD_BYTES < length password then (Err BadRequest400, st)
              else case validate_password_strength password of
                     Inl _ \<Rightarrow> (Err BadRequest400, st)
                   | Inr _ \<Rightarrow>
              (case hash_password (e_crypto E) (e_fresh E ''salt'') password of
                 Inl _ \<Rightarrow> (Err Internal500, st)
               | Inr hash \<Rightarrow>
                   (case (if e_fault E ''create_user'' then Inl Unavailable
                          else create_user (e_fresh E ''user_id'') (e_now E) username email r hash (st_users st)) of
                      Inl e \<Rightarrow> (Err (if is_unique_violation e then Conflict409 else Internal500), st)
                    | Inr (user_id, us) \<Rightarrow>
                        let st = st\<lparr>st_users := us\<rparr>
                        in (Ok (JObj [(''role'', JStr r), (''user_id'', JStr user_id), (''username'', JStr username)]),
                            audit E (audit_username E cl st) ''create_user'' (Some user_id) (Some ''user'')
                              (Some (''Created user '' @ [CHR 0x27] @ username @ [CHR 0x27] @ '' with role '' @ r)) ''success'' ip st)))))"

definition list_users_handler :: "env \<Rightarrow> app_state \<Rightarrow> user_row list reply" where
  "list_users_handler E st =
     (if e_fault E ''list_users'' then Err Internal500 else Ok (list_users (st_users st)))"

text \<open>The response has every column but the hash.\<close>

definition get_user_handler :: "env \<Rightarrow> string \<Rightarrow> app_state \<Rightarrow> user_row reply" where
  "get_user_handler E i st =
     (if e_fault E ''get_user_by_id'' then Err Internal500
      else case get_user_by_id i (st_users st) of
             None \<Rightarrow> Err NotFound404
           | Some u \<Rightarrow> Ok (u\<lparr>u_password_hash := []\<rparr>))"

text \<open>The new hash of an administrator's change: absent, rejected, or computed.\<close>

definition new_password_hash :: "env \<Rightarrow> string option \<Rightarrow> status_code + string option" where
  "new_password_hash E password =
     (case password of
        None \<Rightarrow> Inr None
      | Some pw \<Rightarrow>
          if pw = [] then Inl BadRequest400
          else if MAX_PASSWORD_BYTES < length pw then Inl BadRequest400
          else case validate_password_strength pw of
                 Inl _ \<Rightarrow> Inl BadRequest400
               | Inr _ \<Rightarrow>
                   (case hash_password (e_crypto E) (e_fresh E ''salt'') pw of
                      Inl _ \<Rightarrow> Inl Internal500
                    | Inr h \<Rightarrow> Inr (Some h)))"

definition update_user_handler :: "env \<Rightarrow> claims \<Rightarrow> string \<Rightarrow> json \<Rightarrow> app_state \<Rightarrow> unit reply \<times> app_state" where
  "update_user_handler E cl i req st =
     (let ip = client_ip E st;
          r = get_str ''role'' req;
          enabled = Option.bind (json_get ''enabled'' req) as_bool
      in if (case r of Some x \<Rightarrow> \<not> known_role x | None \<Rightarrow> False) then (Err BadRequest400, st)
         else if e_fault E ''get_user_by_id'' then (Err Internal500, st)
         else if get_user_by_id i (st_users st) = None then (Err NotFound404, st)
         else case new_password_hash E (get_str ''password'' req) of
                Inl e \<Rightarrow> (Err e, st)
              | Inr password_hash \<Rightarrow>
                  if e_fault E ''update_user_guarded'' then (Err Internal500, st)
                  else
                    let (applied, us) = update_user_guarded i r enabled password_hash (st_users st)
                    in if \<not> applied then (Err BadRequest400, st\<lparr>st_users := us\<rparr>)
                       else
                         let st = st\<lparr>st_users := us\<rparr>;
                             st = (if password_hash \<noteq> None \<and> \<not> e_fault E ''revoke_all_refresh_tokens''
                                   then st\<lparr>st_tokens := revoke_all_refresh_tokens i (st_tokens st)\<rparr> else st)
                         in (Ok (), audit E (audit_username E cl st) ''update_user'' (Some i) (Some ''user'')
                               (Some ''User updated (role/enabled/password)'') ''success'' ip st))"

definition delete_user_handler :: "env \<Rightarrow> claims \<Rightarrow> string \<Rightarrow> app_state \<Rightarrow> unit reply \<times> app_state" where
  "delete_user_handler E cl i st =
     (let ip = client_ip E st
      in if e_fault E ''get_user_by_id'' then (Err Internal500, st)
         else if get_user_by_id i (st_users st) = None then (Err NotFound404, st)
         else if e_fault E ''delete_user_guarded'' then (Err Internal500, st)
         else
           let (applied, us, ts) = delete_user_guarded i (st_users st, st_tokens st);
               st = st\<lparr>st_users := us, st_tokens := ts\<rparr>
           in if \<not> applied then (Err BadRequest400, st)
              else (Ok (), audit E (audit_username E cl st) ''delete_user'' (Some i) (Some ''user'')
                      (Some ''User deleted'') ''success'' ip st))"

definition change_my_password :: "env \<Rightarrow> claims \<Rightarrow> json \<Rightarrow> app_state \<Rightarrow> unit reply \<times> app_state" where
  "change_my_password E cl req st =
     (let ip = client_ip E st;
          old_password = get_str_or ''old_password'' [] req;
          new_password = get_str_or ''new_password'' [] req
      in if MAX_PASSWORD_BYTES < length new_password then (Err BadRequest400, st)
         else case validate_password_strength new_password of
                Inl _ \<Rightarrow> (Err BadRequest400, st)
              | Inr _ \<Rightarrow>
         if e_fault E ''get_user_by_id'' then (Err Internal500, st)
         else case get_user_by_id (sub cl) (st_users st) of
                None \<Rightarrow> (Err Unauthorized401, st)
              | Some u \<Rightarrow>
         if \<not> u_enabled u then (Err Unauthorized401, st)
         else if locked (e_now E) u then (Err Unauthorized401, st)
         else case verify_password (e_crypto E) old_password (u_password_hash u) of
                Inl _ \<Rightarrow> (Err Unauthorized401, st)
              | Inr _ \<Rightarrow>
         (case hash_password (e_crypto E) (e_fresh E ''salt'') new_password of
            Inl _ \<Rightarrow> (Err Internal500, st)
          | Inr new_hash \<Rightarrow>
              if e_fault E ''update_user'' then (Err Internal500, st)
              else
                let st = st\<lparr>st_users := update_user (u_user_id u) None None (Some new_hash) (st_users st)\<rparr>;
                    st = (if e_fault E ''revoke_all_refresh_tokens'' then st
                          else st\<lparr>st_tokens := revoke_all_refresh_tokens (u_user_id u) (st_tokens st)\<rparr>)
                in (Ok (), audit E (u_username u) ''change_password'' (Some (sub cl)) (Some ''user'')
                      (Some ''User changed own password'') ''success'' ip st)))"

subsection \<open>Login and refresh\<close>

definition new_token :: "env \<Rightarrow> string \<Rightarrow> app_state \<Rightarrow> token_row" where
  "new_token E user_id st =
     \<lparr>t_token = e_sha E (e_fresh E ''refresh''), t_user_id = user_id,
      t_expires_at = (case from_timestamp (refresh_expiry (e_now E) (st_config st)) of Some t \<Rightarrow> t | None \<Rightarrow> e_now E),
      t_revoked = False\<rparr>"

lemma issue_tokens_Ok:
  assumes "issue_tokens E i r st = (Ok resp, st')"
  shows "st' = st\<lparr>st_tokens := st_tokens st @ [new_token E i st]\<rparr> \<and>
    e_sha E (e_fresh E ''refresh'') \<notin> t_token ` set (st_tokens st) \<and>
    refresh_token_text resp = e_fresh E ''refresh'' \<and>
    generate_jwt (e_crypto E) (e_fresh E ''jti'') (e_now E) i r (st_jwt_secret st)
      (sc_jwt_access_expiry_secs (st_config st)) = Some (Inr (access_token resp))"
  using assms
  by (auto simp: issue_tokens_def Let_def add_refresh_token_def new_token_def
      split: option.splits sum.splits if_splits)

lemma issue_tokens_refused: "issue_tokens E i r st = (rep, st') \<Longrightarrow> \<nexists>resp. rep = Ok resp \<Longrightarrow> st' = st"
  by (auto simp: issue_tokens_def Let_def split: option.splits sum.splits if_splits)

lemma login_account_Ok:
  assumes "login_account E n p u st = (Ok resp, st')"
  shows "u_enabled u \<and> \<not> locked (e_now E) u \<and> verify_password (e_crypto E) p (u_password_hash u) = Inr () \<and>
    st_tokens st' = st_tokens st @ [new_token E (u_user_id u) st] \<and>
    st_users st' = (if e_fault E ''record_login'' then st_users st else record_login (e_now E) (u_user_id u) (st_users st)) \<and>
    generate_jwt (e_crypto E) (e_fresh E ''jti'') (e_now E) (u_user_id u) (u_role u) (st_jwt_secret st)
      (sc_jwt_access_expiry_secs (st_config st)) = Some (Inr (access_token resp))"
  using assms
  by (auto simp: login_account_def Let_def new_token_def dest!: issue_tokens_Ok split: if_splits sum.splits)

lemma login_account_tokens:
  "login_account E n p u st = (rep, st') \<Longrightarrow> \<nexists>resp. rep = Ok resp \<Longrightarrow> st_tokens st' = st_tokens st"
  by (auto simp: login_account_def Let_def dest: issue_tokens_refused split: if_splits sum.splits)

text \<open>A login past its gates is \<open>login_account\<close> on a state that differs in the limiter only.\<close>

definition past_gates :: "env \<Rightarrow> string \<Rightarrow> app_state \<Rightarrow> app_state" where
  "past_gates E username st =
     snd (login_allowed E (client_ip E st) username (record_global_login_attempt E (snd (global_login_allowed E st))))"

lemma past_gates_frame [simp]:
  "st_users (past_gates E n st) = st_users st" "st_tokens (past_gates E n st) = st_tokens st"
  "st_config (past_gates E n st) = st_config st" "st_jwt_secret (past_gates E n st) = st_jwt_secret st"
  by (simp_all add: past_gates_def)

lemma client_ip_gates [simp]:
  "client_ip E (record_global_login_attempt E' (snd (global_login_allowed E'' st))) = client_ip E st"
  "client_ip E (past_gates E' n st) = client_ip E st"
  by (simp_all add: client_ip_def)

lemma login_cases:
  assumes "login E n p st = (rep, st')"
  shows "(\<exists>u. get_user_by_username n (st_users st) = Some u \<and> login_account E n p u (past_gates E n st) = (rep, st')) \<or>
    (\<exists>e. rep = Err e) \<and> st_tokens st' = st_tokens st \<and> st_users st' = st_users st"
  using assms
  by (auto simp: login_def split_beta Let_def past_gates_def split: if_splits option.splits)

text \<open>C13. A login is answered with tokens only for an account that exists, is enabled and not locked, and
  whose stored hash the password matches. Then the access token carries the identity and the
  role of that account, exactly one refresh token for it is added to the table, and the account's
  failure counter and lock are cleared. A login that is refused, for whatever reason, adds no
  token.\<close>

theorem login_sound:
  assumes "login E username password st = (rep, st')"
  shows "(\<forall>resp. rep = Ok resp \<longrightarrow>
      (\<exists>u. get_user_by_username username (st_users st) = Some u \<and> u_enabled u \<and> \<not> locked (e_now E) u \<and>
         verify_password (e_crypto E) password (u_password_hash u) = Inr () \<and>
         generate_jwt (e_crypto E) (e_fresh E ''jti'') (e_now E) (u_user_id u) (u_role u) (st_jwt_secret st)
           (sc_jwt_access_expiry_secs (st_config st)) = Some (Inr (access_token resp)) \<and>
         st_tokens st' = st_tokens st @ [new_token E (u_user_id u) st] \<and>
         (\<not> e_fault E ''record_login'' \<longrightarrow> st_users st' = record_login (e_now E) (u_user_id u) (st_users st)))) \<and>
    ((\<nexists>resp. rep = Ok resp) \<longrightarrow> st_tokens st' = st_tokens st)"
  using login_cases [OF assms]
proof (elim disjE exE conjE)
  fix u assume u: "get_user_by_username username (st_users st) = Some u"
    and account: "login_account E username password u (past_gates E username st) = (rep, st')"
  show ?thesis using u login_account_Ok [of E username password u "past_gates E username st" _ st']
      login_account_tokens [OF account] account
    by (auto simp: new_token_def)
qed simp

text \<open>C39. A wrong password for an enabled, unlocked account is answered with 401; the account's counter goes
  up by one and locks it when it reaches the configured number of attempts, no token is
  issued, and the failure is entered for the address and account.\<close>

theorem wrong_password_is_counted:
  assumes "fst (global_login_allowed E st)"
    and "fst (login_allowed E (client_ip E st) username (record_global_login_attempt E (snd (global_login_allowed E st))))"
    and "chars_count username \<le> MAX_USERNAME_CHARS" "length password \<le> MAX_PASSWORD_BYTES"
    and "get_user_by_username username (st_users st) = Some u" "u_enabled u" "\<not> locked (e_now E) u"
    and "verify_password (e_crypto E) password (u_password_hash u) = Inl e"
    and "\<And>s. \<not> e_fault E s"
    and "\<forall>v \<in> set (st_users st). u_failed_login_attempts v + 1 < 2 ^ 31"
  shows "\<exists>st'. login E username password st = (Err Unauthorized401, st') \<and>
    st_users st' = update_where (\<lambda>v. u_username v = username)
      (failed_login_effect (e_now E) (sint (sc_max_login_attempts (st_config st)))
         (u64_as_i64 (sc_lockout_duration_secs (st_config st)))) (st_users st) \<and>
    st_tokens st' = st_tokens st \<and>
    st_limiter st' = record_failure (e_now E) (client_ip E st) username (st_limiter (past_gates E username st))"
proof -
  have "\<not> (\<exists>v \<in> set (st_users st). u_username v = username \<and> 2 ^ 31 \<le> u_failed_login_attempts v + 1)"
    using assms(10) by fastforce
  then have rec: "record_failed_login (e_now E) username m l (st_users st) =
      Inr (update_where (\<lambda>v. u_username v = username) (failed_login_effect (e_now E) m l) (st_users st))" for m l
    by (simp add: record_failed_login_def)
  have "login E username password st = login_account E username password u (past_gates E username st)"
    using assms(1-5,9) by (simp add: login_def split_beta Let_def past_gates_def)
  also have "\<dots> = (Err Unauthorized401, login_failed E (client_ip E st) username
      (audit E username ''login'' (Some (u_user_id u)) (Some ''user'') (Some ''wrong password'') ''failed'' (client_ip E st)
        (past_gates E username st\<lparr>st_users := update_where (\<lambda>v. u_username v = username)
           (failed_login_effect (e_now E) (sint (sc_max_login_attempts (st_config st)))
              (u64_as_i64 (sc_lockout_duration_secs (st_config st)))) (st_users st)\<rparr>)))"
    using assms(6-9) rec by (simp add: login_account_def Let_def)
  finally show ?thesis by (simp add: login_failed_def)
qed

lemma refresh_token_Ok:
  assumes "refresh_token E req st = (Ok resp, st')"
  obtains tok u where "get_str ''refresh_token'' req = Some tok"
    and "fst (consume_refresh_token (e_sha E) (e_now E) tok (st_tokens st)) = Some (u_user_id u)"
    and "get_user_by_id (u_user_id u) (st_users st) = Some u" "u_enabled u" "\<not> locked (e_now E) u"
    and "st_tokens st' = snd (consume_refresh_token (e_sha E) (e_now E) tok (st_tokens st)) @ [new_token E (u_user_id u) st]"
    and "e_sha E (e_fresh E ''refresh'') \<notin>
      t_token ` set (snd (consume_refresh_token (e_sha E) (e_now E) tok (st_tokens st)))"
    and "st_users st' = st_users st" "refresh_token_text resp = e_fresh E ''refresh''"
proof -
  obtain tok where tok: "get_str ''refresh_token'' req = Some tok"
    using assms by (auto simp: refresh_token_def split_beta Let_def split: if_splits option.splits)
  define ts where "ts = snd (consume_refresh_token (e_sha E) (e_now E) tok (st_tokens st))"
  define st1 where "st1 = (snd (login_allowed E (client_ip E st) REFRESH_BUCKET st))\<lparr>st_tokens := ts\<rparr>"
  obtain i u where i: "fst (consume_refresh_token (e_sha E) (e_now E) tok (st_tokens st)) = Some i"
    and u: "get_user_by_id i (st_users st) = Some u" "u_enabled u" "\<not> locked (e_now E) u"
    and iss: "issue_tokens E (u_user_id u) (u_role u) st1 = (Ok resp, st')"
    using assms tok
    by (auto simp: refresh_token_def split_beta Let_def st1_def ts_def split: if_splits option.splits)
  have "u_user_id u = i" using u(1) by (auto simp: get_user_by_id_def dest: find_by_Some)
  then show thesis using that [OF tok, of u] i u issue_tokens_Ok [OF iss]
    by (auto simp: st1_def ts_def new_token_def)
qed

lemma refresh_token_owner:
  "refresh_token E req st = (Ok resp, st') \<Longrightarrow> get_str ''refresh_token'' req = Some tok \<Longrightarrow>
   fst (consume_refresh_token (e_sha E) (e_now E) tok (st_tokens st)) \<noteq> None"
  by (auto simp: refresh_token_def split_beta Let_def split: if_splits option.splits)

text \<open>C12. Refresh tokens rotate. A refresh is answered with tokens only for a token that was live and whose
  account is still enabled and not locked; the presented token is then dead at every later
  time, so presenting it again is never answered with tokens, and the new one, the only one added, is
  live until its expiry.\<close>

theorem refresh_rotates:
  assumes "refresh_token E req st = (Ok resp, st')" and "get_str ''refresh_token'' req = Some tok"
    and "distinct (map t_token (st_tokens st))"
  shows "(\<exists>u. get_user_by_id (u_user_id u) (st_users st) = Some u \<and> u_enabled u \<and> \<not> locked (e_now E) u \<and>
      validate_refresh_token (e_sha E) (e_now E) tok (st_tokens st) = Some (u_user_id u) \<and>
      (\<forall>now. now < t_expires_at (new_token E (u_user_id u) st) \<longrightarrow>
         validate_refresh_token (e_sha E) now (refresh_token_text resp) (st_tokens st') = Some (u_user_id u))) \<and>
    (\<forall>E'. e_sha E' = e_sha E \<longrightarrow> (\<nexists>resp'. fst (refresh_token E' req st') = Ok resp'))"
proof -
  obtain tok' u where tok': "get_str ''refresh_token'' req = Some tok'"
    and owner: "fst (consume_refresh_token (e_sha E) (e_now E) tok' (st_tokens st)) = Some (u_user_id u)"
    and u: "get_user_by_id (u_user_id u) (st_users st) = Some u" "u_enabled u" "\<not> locked (e_now E) u"
    and ts: "st_tokens st' = snd (consume_refresh_token (e_sha E) (e_now E) tok' (st_tokens st)) @ [new_token E (u_user_id u) st]"
    and fresh: "e_sha E (e_fresh E ''refresh'') \<notin>
      t_token ` set (snd (consume_refresh_token (e_sha E) (e_now E) tok' (st_tokens st)))"
    and us: "st_users st' = st_users st" and resp: "refresh_token_text resp = e_fresh E ''refresh''"
    using refresh_token_Ok [OF assms(1)] by metis
  have [simp]: "tok' = tok" using tok' assms(2) by simp
  let ?ts = "snd (consume_refresh_token (e_sha E) (e_now E) tok (st_tokens st))"
  have valid: "validate_refresh_token (e_sha E) (e_now E) tok (st_tokens st) = Some (u_user_id u)"
    using owner by (simp add: consume_refresh_token_def validate_refresh_token_def)
  have new: "validate_refresh_token (e_sha E) now (refresh_token_text resp) (st_tokens st') = Some (u_user_id u)"
    if "now < t_expires_at (new_token E (u_user_id u) st)" for now
  proof -
    have "filter (live_token (e_sha E (e_fresh E ''refresh'')) now) ?ts = []"
      unfolding filter_empty_conv live_token_def using fresh image_eqI by (metis \<open>tok' = tok\<close>)
    then show ?thesis using that ts resp
      by (simp add: validate_refresh_token_def select_where_def fetch_optional_def live_token_def new_token_def)
  qed
  have sp: "spent (e_sha E tok) ?ts" using consume_spends [OF assms(3), of "e_sha E" "e_now E" tok] owner by simp
  have used: "\<not> live_token (e_sha E tok) now t" if "t \<in> set (st_tokens st')" for t now
  proof -
    have "e_sha E tok \<in> t_token ` set (st_tokens st)"
      using owner by (auto simp: consume_refresh_token_def live_token_def intro: rev_image_eqI dest!: fetch_select_Some)
    moreover have "map t_token ?ts = map t_token (st_tokens st)"
      by (simp add: consume_refresh_token_def map_update_where)
    ultimately have "e_sha E tok \<in> t_token ` set ?ts" by (metis list.set_map)
    then have "e_sha E (e_fresh E ''refresh'') \<noteq> e_sha E tok" using fresh by auto
    then show ?thesis using that sp ts by (auto simp: spent_def live_token_def new_token_def)
  qed
  have "\<nexists>resp'. fst (refresh_token E' req st') = Ok resp'" if "e_sha E' = e_sha E" for E'
  proof
    assume "\<exists>resp'. fst (refresh_token E' req st') = Ok resp'"
    then obtain resp' st'' where again: "refresh_token E' req st' = (Ok resp', st'')" by (metis prod.collapse)
    have "fst (consume_refresh_token (e_sha E) (e_now E') tok (st_tokens st')) \<noteq> None"
      using refresh_token_owner [OF again assms(2)] that by simp
    then obtain t where "t \<in> set (st_tokens st')" "live_token (e_sha E tok) (e_now E') t"
      by (auto simp: consume_refresh_token_def dest: fetch_select_Some)
    then show False using used by blast
  qed
  with u valid new show ?thesis by blast
qed

subsection \<open>Changing passwords and accounts\<close>

lemma change_my_password_Ok:
  assumes "change_my_password E cl req st = (Ok (), st')"
  obtains u h where "get_user_by_id (sub cl) (st_users st) = Some u" "u_enabled u" "\<not> locked (e_now E) u"
    and "verify_password (e_crypto E) (get_str_or ''old_password'' [] req) (u_password_hash u) = Inr ()"
    and "hash_password (e_crypto E) (e_fresh E ''salt'')
      (get_str_or ''new_password'' [] req) = Inr h"
    and "st_users st' = update_user (u_user_id u) None None (Some h) (st_users st)"
    and "st_tokens st' = (if e_fault E ''revoke_all_refresh_tokens'' then st_tokens st
      else revoke_all_refresh_tokens (u_user_id u) (st_tokens st))"
  using assms by (auto simp: change_my_password_def Let_def split: if_splits sum.splits option.splits)

lemma update_user_handler_Ok:
  assumes "update_user_handler E cl i req st = (Ok (), st')"
  obtains h where "new_password_hash E (get_str ''password'' req) = Inr h"
    and "update_user_guarded i (get_str ''role'' req) (Option.bind (json_get ''enabled'' req) as_bool) h (st_users st)
      = (True, st_users st')"
    and "st_tokens st' = (if h \<noteq> None \<and> \<not> e_fault E ''revoke_all_refresh_tokens''
      then revoke_all_refresh_tokens i (st_tokens st) else st_tokens st)"
proof -
  obtain h where h: "new_password_hash E (get_str ''password'' req) = Inr h"
    using assms by (auto simp: update_user_handler_def Let_def split: if_splits sum.splits)
  show thesis
    using that [OF h] assms h
    by (cases "update_user_guarded i (get_str ''role'' req) (Option.bind (json_get ''enabled'' req) as_bool) h (st_users st)")
       (auto simp: update_user_handler_def Let_def split: if_splits)
qed

text \<open>C31. A password change replaces the password and ends the sessions. When the account's owner changes it
  with the right old password and the revocation does not fail in the connection, afterwards the
  new password verifies against the stored hash, the failure counter and lock are cleared, and no
  refresh token of the account is accepted at any time.\<close>

theorem password_change_ends_sessions:
  assumes "change_my_password E cl req st = (Ok (), st')" and "argon2_sound (e_crypto E)"
    and "\<not> e_fault E ''revoke_all_refresh_tokens''" and "get_str ''new_password'' req = Some new"
  shows "(\<exists>u. get_user_by_id (sub cl) (st_users st') = Some u \<and>
      verify_password (e_crypto E) new (u_password_hash u) = Inr () \<and>
      u_failed_login_attempts u = 0 \<and> u_locked_until u = None) \<and>
    (\<forall>now tok. validate_refresh_token (e_sha E) now tok (st_tokens st') \<noteq> Some (sub cl))"
proof -
  obtain u h where u: "get_user_by_id (sub cl) (st_users st) = Some u"
    and h: "hash_password (e_crypto E) (e_fresh E ''salt'') new = Inr h"
    and us: "st_users st' = update_user (u_user_id u) None None (Some h) (st_users st)"
    and ts: "st_tokens st' = revoke_all_refresh_tokens (u_user_id u) (st_tokens st)"
    using assms(3,4) by (auto simp: get_str_or_def intro: change_my_password_Ok [OF assms(1)])
  have i: "u_user_id u = sub cl" using u by (auto simp: get_user_by_id_def dest: find_by_Some)
  have "get_user_by_id (sub cl) (st_users st') = Some (user_changes None None (Some h) u)"
    using u us i by (simp add: get_user_by_id_def update_user_def find_by_update user_changes_def)
  moreover have "verify_password (e_crypto E) new h = Inr ()" using assms(2) h by (rule password_roundtrip)
  moreover have "validate_refresh_token (e_sha E) now tok (st_tokens st') \<noteq> Some (sub cl)" for now tok
    using revoke_all_is_effective [of "e_sha E" now tok "sub cl" "st_tokens st"] ts i by simp
  ultimately show ?thesis by (simp add: user_changes_def)
qed

subsection \<open>Refinement of the account statements\<close>

inductive session_step :: "app_state \<Rightarrow> app_state \<Rightarrow> bool" where
  login: "session_step st (snd (login E n p st))"
| refresh: "session_step st (snd (refresh_token E req st))"
| create: "session_step st (snd (create_user_handler E cl req st))"
| update: "session_step st (snd (update_user_handler E cl i req st))"
| delete: "session_step st (snd (delete_user_handler E cl i st))"
| password: "session_step st (snd (change_my_password E cl req st))"

lemma issue_tokens_users [simp]: "st_users (snd (issue_tokens E i r st)) = st_users st"
  by (simp add: issue_tokens_def Let_def split: option.split sum.split)

lemma login_account_users:
  "users_step\<^sup>*\<^sup>* (st_users st) (st_users (snd (login_account E n p u st)))"
proof (cases "u_enabled u \<and> \<not> locked (e_now E) u")
  case True
  note * = True
  show ?thesis
  proof (cases "verify_password (e_crypto E) p (u_password_hash u)")
    case (Inl e)
    then show ?thesis using *
      by (auto simp: login_account_def Let_def intro: users_step.failed split: sum.split)
  next
    case (Inr x)
    then show ?thesis using * by (auto simp: login_account_def Let_def intro: users_step.logged_in)
  qed
qed (auto simp: login_account_def Let_def)

lemma login_users: "users_step\<^sup>*\<^sup>* (st_users st) (st_users (snd (login E n p st)))"
  using login_account_users [of "past_gates E n st" E n p] login_cases [of E n p st "fst (login E n p st)"]
  by (metis (no_types, lifting) past_gates_frame(1) prod.collapse rtranclp.rtrancl_refl snd_conv)

lemma refresh_users [simp]: "st_users (snd (refresh_token E req st)) = st_users st"
  by (simp add: refresh_token_def split_beta Let_def split: option.split)

lemma create_users: "users_step\<^sup>*\<^sup>* (st_users st) (st_users (snd (create_user_handler E cl req st)))"
  by (auto simp: create_user_handler_def Let_def split: option.split sum.split intro: users_step.created)

lemma update_users: "users_step\<^sup>*\<^sup>* (st_users st) (st_users (snd (update_user_handler E cl i req st)))"
proof -
  have "st_users (snd (update_user_handler E cl i req st)) = st_users st \<or>
      (\<exists>r e h. st_users (snd (update_user_handler E cl i req st)) = snd (update_user_guarded i r e h (st_users st)))"
    by (cases "new_password_hash E (get_str ''password'' req)")
       (auto simp: update_user_handler_def Let_def split_beta)
  then show ?thesis by (metis users_step.changed r_into_rtranclp rtranclp.rtrancl_refl)
qed

lemma delete_users: "users_step\<^sup>*\<^sup>* (st_users st) (st_users (snd (delete_user_handler E cl i st)))"
proof -
  have "st_users (snd (delete_user_handler E cl i st)) = st_users st \<or>
      st_users (snd (delete_user_handler E cl i st)) = fst (snd (delete_user_guarded i (st_users st, st_tokens st)))"
    by (simp add: delete_user_handler_def Let_def split_beta)
  then show ?thesis by (metis users_step.deleted r_into_rtranclp rtranclp.rtrancl_refl)
qed

lemma change_my_password_refused:
  "change_my_password E cl req st = (rep, st') \<Longrightarrow> rep \<noteq> Ok () \<Longrightarrow> st' = st"
  by (auto simp: change_my_password_def Let_def split: if_splits sum.splits option.splits)

lemma password_users: "users_step\<^sup>*\<^sup>* (st_users st) (st_users (snd (change_my_password E cl req st)))"
proof (cases "change_my_password E cl req st")
  case (Pair rep st')
  show ?thesis
  proof (cases "rep = Ok ()")
    case True
    with Pair obtain u :: user_row and h where "st_users st' = update_user (u_user_id u) None None (Some h) (st_users st)"
      using change_my_password_Ok by metis
    then show ?thesis using Pair by (metis users_step.password r_into_rtranclp snd_conv)
  qed (use Pair change_my_password_refused [OF Pair] in simp)
qed

lemmas handler_users = login_users refresh_users create_users update_users delete_users password_users

lemma session_step_users: "session_step st st' \<Longrightarrow> users_step\<^sup>*\<^sup>* (st_users st) (st_users st')"
  by (induction rule: session_step.induct) (use handler_users in auto)

text \<open>C11. The handlers refine the account statements: whatever sequence of logins, refreshes, creations,
  changes, deletions and password changes the server handles, with whatever faults of the connection,
  its effect on the users table is a sequence of the guarded statements; so a server that started
  with an enabled administrator has one after every request, and user names stay unique.\<close>

theorem handlers_keep_an_admin:
  assumes "session_step\<^sup>*\<^sup>* st st'" and "users_wf (st_users st)"
  shows "users_step\<^sup>*\<^sup>* (st_users st) (st_users st') \<and>
    (\<exists>u \<in> set (st_users st'). u_role u = ''admin'' \<and> u_enabled u) \<and> distinct (map u_username (st_users st'))"
proof -
  have run: "users_step\<^sup>*\<^sup>* (st_users st) (st_users st')"
    using assms(1)
  proof (induction rule: rtranclp_induct)
    case (step y z)
    then show ?case using session_step_users [OF step.hyps(2)] by simp
  qed simp
  moreover have "users_wf (st_users st')" using users.run_inv [OF run assms(2)] .
  ultimately show ?thesis by (auto simp: users_wf_def is_admin_def)
qed

subsection \<open>The properties at concrete requests\<close>

definition sample_root :: user_row where
  "sample_root = \<lparr>u_user_id = ''u1'', u_username = ''root'', u_email = None, u_role = ''admin'',
     u_password_hash = ''$argon2$password'', u_enabled = True, u_created_at = 0, u_last_login_at = None,
     u_failed_login_attempts = 4, u_locked_until = None\<rparr>"

definition sample_node_info :: "string \<Rightarrow> node_info_row" where
  "sample_node_info i = \<lparr>ni_node_id = i, ni_hostname = ''h'', ni_ip_address = ''10.0.0.2'', ni_agent_version = ''1'',
     ni_os_info = ''linux'', ni_kernel_version = ''6'', ni_cpu_model = ''x'', ni_cpu_cores = 8,
     ni_memory_total_bytes = 1024, ni_labels = JObj [], ni_gpu_count = 2, ni_registered_at = 0, ni_last_seen = 0\<rparr>"

definition sample_state :: app_state where
  "sample_state = \<lparr>st_config = default_server_config, st_jwt_secret = ''k'', st_limiter = limiter_new,
     st_ws = ws_new, st_engine = [], st_alert_rules = [], st_registry = registry_new, st_sched = scheduler_new,
     st_users = [sample_root],
     st_tokens = [\<lparr>t_token = ''old'', t_user_id = ''u1'', t_expires_at = 9, t_revoked = False\<rparr>],
     st_audit = [], st_alerts = \<lparr>adb_rules = [], adb_events = []\<rparr>, st_jobs = [], st_node_info = [sample_node_info ''n1''],
     st_metrics = [], st_metrics_serial = 1, st_hourly = [], st_daily = [],
     st_logs = \<lparr>lt_rows = [], lt_next = 1\<rparr>, st_seen = []\<rparr>"

definition sample_env :: env where
  "sample_env = \<lparr>e_now = 0, e_fresh = (\<lambda>s. if s = ''jti'' then ''t1'' else s), e_fault = (\<lambda>_. False),
     e_peer = ''10.0.0.1'', e_xff = None, e_crypto = sample_crypto, e_sha = id, e_to_string = (\<lambda>_. [])\<rparr>"

lemma sample_env_simps [simp]:
  "e_now sample_env = 0" "e_fresh sample_env s = (if s = ''jti'' then ''t1'' else s)" "\<not> e_fault sample_env s"
  "e_crypto sample_env = sample_crypto" "e_sha sample_env = id" "client_ip sample_env sample_state = ''10.0.0.1''"
  by (simp_all add: sample_env_def client_ip_def effective_client_ip_def sample_state_def default_server_config_def)

lemma sample_state_simps [simp]:
  "st_config sample_state = default_server_config" "st_jwt_secret sample_state = ''k''"
  "st_users sample_state = [sample_root]"
  "st_tokens sample_state = [\<lparr>t_token = ''old'', t_user_id = ''u1'', t_expires_at = 9, t_revoked = False\<rparr>]"
  "st_limiter sample_state = limiter_new" "st_jobs sample_state = []" "st_node_ids sample_state = [''n1'']"
  "st_registry sample_state = registry_new" "st_alerts sample_state = \<lparr>adb_rules = [], adb_events = []\<rparr>"
  by (simp_all add: sample_state_def st_node_ids_def sample_node_info_def)

lemma sample_root_simps [simp]:
  "u_user_id sample_root = ''u1''" "u_username sample_root = ''root''" "u_enabled sample_root"
  "u_role sample_root = ''admin''" "\<not> locked now sample_root" "u_failed_login_attempts sample_root = 4"
  by (simp_all add: sample_root_def locked_def)

lemma sample_verify [simp]:
  "verify_password sample_crypto p (u_password_hash sample_root) =
     (if p = ''password'' then Inr () else Inl (AuthError ''Password verification failed: mismatch''))"
  by (simp add: verify_password_def sample_crypto_def sample_root_def)

lemmas limiter_defs = global_login_allowed_def login_allowed_def record_global_login_attempt_def login_failed_def
  global_allowed_def allowed_def record_attempt_def record_failure_def expire_front_def duration_since_def
  LOGIN_MAX_ATTEMPTS_def GLOBAL_LOGIN_MAX_ATTEMPTS_def limiter_new_def kget_def

lemma sample_gates [simp]:
  "fst (global_login_allowed sample_env sample_state)"
  "fst (login_allowed sample_env ip n (record_global_login_attempt sample_env (snd (global_login_allowed sample_env sample_state))))"
  by (simp_all add: limiter_defs Let_def)

lemma sample_lengths [simp]:
  "\<not> MAX_USERNAME_CHARS < chars_count ''root''" "\<not> MAX_PASSWORD_BYTES < length ''password''"
  by (simp_all add: MAX_USERNAME_CHARS_def MAX_PASSWORD_BYTES_def chars_count_def is_continuation_def code_def)

lemmas token_defs = issue_tokens_def generate_jwt_def chrono_seconds_def datetime_add_def timestamp_def
  u64_as_i64_def i64_as_u64_def refresh_expiry_def from_timestamp_def add_refresh_token_def sample_crypto_def
  sample_claims_def

lemma sample_issue:
  "st_users st = [v] \<Longrightarrow> u_user_id v = ''u1'' \<Longrightarrow> st_jwt_secret st = ''k'' \<Longrightarrow>
   st_config st = default_server_config \<Longrightarrow> ''refresh'' \<notin> t_token ` set (st_tokens st) \<Longrightarrow>
   \<exists>resp. fst (issue_tokens sample_env ''u1'' ''admin'' st) = Ok resp"
  by (simp add: token_defs sample_env_def default_server_config_def Let_def)

theorem login_sound_witness:
  "\<exists>resp st'. login sample_env ''root'' ''password'' sample_state = (Ok resp, st') \<and>
     st_users st' = record_login 0 ''u1'' [sample_root]"
proof -
  have "login sample_env ''root'' ''password'' sample_state =
      login_account sample_env ''root'' ''password'' sample_root (past_gates sample_env ''root'' sample_state)"
    using sample_gates sample_lengths
    by (simp del: length_Cons list.size add: login_def get_user_by_username_def Let_def split_beta past_gates_def)
  moreover obtain resp where "fst (login_account sample_env ''root'' ''password'' sample_root
      (past_gates sample_env ''root'' sample_state)) = Ok resp"
    using sample_issue by (fastforce simp: login_account_def Let_def record_login_def update_where_def)
  ultimately obtain st' where ok: "login sample_env ''root'' ''password'' sample_state = (Ok resp, st')"
    by (metis prod.collapse)
  have "st_users st' = record_login 0 ''u1'' [sample_root]"
    using login_sound [OF ok] by (auto simp: get_user_by_username_def)
  with ok show ?thesis by blast
qed

theorem wrong_password_is_counted_witness:
  "\<exists>st'. login sample_env ''root'' ''guess'' sample_state = (Err Unauthorized401, st') \<and>
     (\<exists>u. st_users st' = [u] \<and> u_failed_login_attempts u = 5 \<and> u_locked_until u = Some (seconds 300))"
proof -
  have "\<exists>st'. login sample_env ''root'' ''guess'' sample_state = (Err Unauthorized401, st') \<and>
      st_users st' = update_where (\<lambda>v. u_username v = ''root'') (failed_login_effect 0 5 300) [sample_root]"
    using wrong_password_is_counted [of sample_env sample_state "''root''" "''guess''" sample_root
      "AuthError ''Password verification failed: mismatch''"] sample_lengths
    by (auto simp: get_user_by_username_def MAX_PASSWORD_BYTES_def default_server_config_def u64_as_i64_def not_less)
  then show ?thesis
    by (auto simp: update_where_def failed_login_effect_def sample_root_def)
qed

lemma sample_consume:
  "consume_refresh_token id 0 ''old'' (st_tokens sample_state) =
     (Some ''u1'', [\<lparr>t_token = ''old'', t_user_id = ''u1'', t_expires_at = 9, t_revoked = True\<rparr>])"
  by (simp add: consume_refresh_token_def select_where_def fetch_optional_def live_token_def update_where_def
      revoke_effect_def)

definition sample_refresh :: json where "sample_refresh = JObj [(''refresh_token'', JStr ''old'')]"

theorem refresh_rotates_witness:
  "\<exists>resp st'. refresh_token sample_env sample_refresh sample_state = (Ok resp, st') \<and>
     (\<nexists>again. fst (refresh_token sample_env sample_refresh st') = Ok again)"
proof -
  define st1 where "st1 = (snd (login_allowed sample_env ''10.0.0.1'' REFRESH_BUCKET sample_state))
    \<lparr>st_tokens := [\<lparr>t_token = ''old'', t_user_id = ''u1'', t_expires_at = 9, t_revoked = True\<rparr>]\<rparr>"
  have req: "get_str ''refresh_token'' sample_refresh = Some ''old''" by (simp add: sample_refresh_def get_str_def)
  have gate: "fst (login_allowed sample_env ''10.0.0.1'' REFRESH_BUCKET sample_state)"
    by (simp add: limiter_defs Let_def)
  have "refresh_token sample_env sample_refresh sample_state = issue_tokens sample_env ''u1'' ''admin'' st1"
    using gate sample_consume
    by (simp add: refresh_token_def Let_def split_beta req st1_def get_user_by_id_def)
  moreover obtain resp where "fst (issue_tokens sample_env ''u1'' ''admin'' st1) = Ok resp"
    using sample_issue [of st1 sample_root] by (auto simp: st1_def)
  ultimately obtain st' where ok: "refresh_token sample_env sample_refresh sample_state = (Ok resp, st')"
    by (metis prod.collapse)
  then show ?thesis using refresh_rotates [OF ok req] by auto
qed

definition sample_change :: json where
  "sample_change = JObj [(''new_password'', JStr ''longer-password''), (''old_password'', JStr ''password'')]"

theorem password_change_ends_sessions_witness:
  "\<exists>st'. change_my_password sample_env sample_claims sample_change sample_state = (Ok (), st') \<and>
     validate_refresh_token id 0 ''old'' (st_tokens st') \<noteq> Some ''u1''"
proof -
  have new: "get_str ''new_password'' sample_change = Some ''longer-password''"
    and old: "get_str ''old_password'' sample_change = Some ''password''"
    by (simp_all add: sample_change_def get_str_def)
  have "fst (change_my_password sample_env sample_claims sample_change sample_state) = Ok ()"
    by (simp add: change_my_password_def Let_def new old get_str_or_def validate_password_strength_def
        MIN_PASSWORD_LEN_def MAX_PASSWORD_BYTES_def get_user_by_id_def sample_claims_def hash_password_def)
       (simp add: sample_crypto_def)
  then obtain st' where ok: "change_my_password sample_env sample_claims sample_change sample_state = (Ok (), st')"
    by (metis prod.collapse)
  then show ?thesis
    using password_change_ends_sessions [OF ok _ _ new] sample_crypto_sound by (auto simp: sample_claims_def)
qed

theorem handlers_keep_an_admin_witness:
  "\<exists>u \<in> set (st_users (snd (delete_user_handler sample_env sample_claims ''u1'' sample_state))).
     u_role u = ''admin'' \<and> u_enabled u"
  using handlers_keep_an_admin [of sample_state "snd (delete_user_handler sample_env sample_claims ''u1'' sample_state)"]
    session_step.delete [of sample_state sample_env sample_claims "''u1''"]
  by (simp add: users_wf_def is_admin_def r_into_rtranclp)

end
