(* ===== verification/Job_Handlers.thy ===== *)
theory Job_Handlers
  imports Session_Handlers
begin

text \<open>
  The job endpoints of \<open>crates/server/src/handlers.rs\<close>: submission with its caps, listing, lookup and the
  stop request. A submission is decoded by serde into \<open>job_create_request\<close>; query
  parameters are an association list.
\<close>

definition MAX_JOB_NAME_LEN :: nat where "MAX_JOB_NAME_LEN = 255"
definition MAX_EXECUTABLE_LEN :: nat where "MAX_EXECUTABLE_LEN = 4096"
definition MAX_WORKDIR_LEN :: nat where "MAX_WORKDIR_LEN = 4096"
definition MAX_QUOTA_LEN :: nat where "MAX_QUOTA_LEN = 64"
definition MAX_ARGS :: nat where "MAX_ARGS = 256"
definition MAX_ARG_LEN :: nat where "MAX_ARG_LEN = 4096"
definition MAX_ENV_ENTRIES :: nat where "MAX_ENV_ENTRIES = 128"
definition MAX_ENV_KEY_LEN :: nat where "MAX_ENV_KEY_LEN = 255"
definition MAX_ENV_VALUE_LEN :: nat where "MAX_ENV_VALUE_LEN = 4096"

record job_create_request =
  q_node_id :: string
  q_name :: string
  q_executable :: string
  q_arguments :: "string list"
  q_working_directory :: string
  q_environment :: "(string, json) kmap"
  q_resource_quota :: string
  q_max_retries :: u32

definition node_is_known :: "env \<Rightarrow> string \<Rightarrow> app_state \<Rightarrow> bool" where
  "node_is_known E node_id st \<longleftrightarrow>
     exists_node node_id (st_registry st) \<or> (\<not> e_fault E ''node_exists'' \<and> node_exists node_id (st_node_info st))"

definition audit_job_rejection :: "env \<Rightarrow> claims \<Rightarrow> string \<Rightarrow> string \<Rightarrow> app_state \<Rightarrow> app_state" where
  "audit_job_rejection E cl ip reason st =
     audit E (audit_username E cl st) ''create_job'' None (Some ''job'') (Some reason) ''rejected'' ip st"

definition validate_job_request :: "job_create_request \<Rightarrow> (status_code \<times> string) + unit" where
  "validate_job_request req =
     (if MAX_ARGS < length (q_arguments req)
      then Inl (BadRequest400, ''too many arguments: '' @ show_nat (length (q_arguments req)) @ '' > '' @ show_nat MAX_ARGS)
      else case find (\<lambda>a. MAX_ARG_LEN < length a) (q_arguments req) of
             Some over \<Rightarrow>
               Inl (BadRequest400, ''argument too long: '' @ show_nat (length over) @ '' > '' @ show_nat MAX_ARG_LEN @ '' bytes'')
           | None \<Rightarrow>
               if MAX_JOB_NAME_LEN < length (q_name req)
                  \<or> MAX_EXECUTABLE_LEN < length (q_executable req)
                  \<or> MAX_WORKDIR_LEN < length (q_working_directory req)
                  \<or> MAX_QUOTA_LEN < length (q_resource_quota req)
                  \<or> MAX_ENV_ENTRIES < length (q_environment req)
                  \<or> list_ex (\<lambda>(k, v). MAX_ENV_KEY_LEN < length k) (q_environment req)
                  \<or> list_ex (\<lambda>(k, v). case as_str v of Some s \<Rightarrow> MAX_ENV_VALUE_LEN < length s | None \<Rightarrow> False)
                      (q_environment req)
               then Inl (BadRequest400, ''submission exceeds the field length caps'')
               else Inr ())"

text \<open>The row of a submission. Values of the environment that are no strings become empty strings.\<close>

definition submitted_row :: "env \<Rightarrow> claims \<Rightarrow> job_create_request \<Rightarrow> string job_row" where
  "submitted_row E cl req =
     \<lparr>jr_job_id = e_fresh E ''job_id'', jr_node_id = q_node_id req, jr_name = q_name req,
      jr_executable = q_executable req, jr_arguments = JArr (map JStr (q_arguments req)),
      jr_working_directory = q_working_directory req,
      jr_environment = JObj (map (\<lambda>(k, v). (k, JStr (case as_str v of Some s \<Rightarrow> s | None \<Rightarrow> []))) (q_environment req)),
      jr_status = ''queued'', jr_pid = None, jr_exit_code = None, jr_error_message = None,
      jr_created_at = e_now E, jr_started_at = None, jr_finished_at = None, jr_created_by = sub cl,
      jr_resource_quota = (if trim (q_resource_quota req) = [] then None else Some (trim (q_resource_quota req))),
      jr_retry_count = 0, jr_max_retries = int (unat (min (q_max_retries req) 10))\<rparr>"

definition create_job :: "env \<Rightarrow> claims \<Rightarrow> job_create_request \<Rightarrow> app_state \<Rightarrow> json reply \<times> app_state" where
  "create_job E cl req st =
     (let ip = client_ip E st;
          rejected = (\<lambda>reason. (Err BadRequest400, audit_job_rejection E cl ip reason st))
      in if trim (q_name req) = [] \<or> trim (q_executable req) = []
         then rejected ''name and executable are required''
         else if trim (q_node_id req) \<noteq> [] \<and> \<not> node_is_known E (q_node_id req) st
         then rejected (''unknown target node: '' @ q_node_id req)
         else case validate_job_request req of
                Inl (_, reason) \<Rightarrow> rejected reason
              | Inr _ \<Rightarrow>
                  if e_fault E ''insert_job'' then (Err Internal500, st)
                  else case insert_job (st_node_ids st) (submitted_row E cl req) (st_jobs st) of
                         Inl _ \<Rightarrow> (Err Internal500, st)
                       | Inr jobs \<Rightarrow>
                           let jid = e_fresh E ''job_id''; st = st\<lparr>st_jobs := jobs\<rparr>
                           in (Ok (JObj [(''job_id'', JStr jid), (''status'', JStr ''queued'')]),
                               audit E (audit_username E cl st) ''create_job'' (Some jid) (Some ''job'')
                                 (Some (''Created job '' @ [CHR 0x27] @ q_name req @ [CHR 0x27] @ '' on node '' @ q_node_id req))
                                 ''success'' ip st))"

text \<open>Query parameters with a default and a range: \<open>parse().ok().unwrap_or(d).clamp(lo, hi)\<close> on an \<open>i64\<close>.\<close>

type_synonym params = "(string, string) kmap"

definition int_param :: "string \<Rightarrow> int \<Rightarrow> int \<Rightarrow> int \<Rightarrow> params \<Rightarrow> int" where
  "int_param key d lo hi ps =
     (let n = (case Option.bind (kget ps key) parse_i64 of Some i \<Rightarrow> i | None \<Rightarrow> d)
      in if n < lo then lo else if hi < n then hi else n)"

definition list_jobs_handler :: "env \<Rightarrow> params \<Rightarrow> app_state \<Rightarrow> (string job_row list \<times> nat) reply" where
  "list_jobs_handler E ps st =
     (if e_fault E ''list_jobs'' then Err Internal500
      else case list_jobs (\<not> e_fault E ''count_jobs'') (kget ps ''node_id'') (kget ps ''status'') (kget ps ''created_by'')
                  (int_param ''page'' 0 0 1000000 ps) (int_param ''page_size'' 20 1 500 ps) (st_jobs st) of
             Inl _ \<Rightarrow> Err Internal500
           | Inr r \<Rightarrow> Ok r)"

definition get_job_handler :: "env \<Rightarrow> string \<Rightarrow> app_state \<Rightarrow> string job_row reply" where
  "get_job_handler E jid st =
     (if e_fault E ''get_job'' then Err Internal500
      else case get_job jid (st_jobs st) of Some r \<Rightarrow> Ok r | None \<Rightarrow> Err NotFound404)"

text \<open>A stop request. \<open>stop_active_job\<close> reports the state it leaves or finds.\<close>

definition stop_active_job :: "env \<Rightarrow> string \<Rightarrow> bool \<Rightarrow> job_table \<Rightarrow> (status_code + string) \<times> job_table" where
  "stop_active_job E jid force t =
     (if e_fault E ''mark_stopping_if_active'' then (Inl Internal500, t)
      else case mark_stopping_if_active jid t of
             (True, t') \<Rightarrow>
               if force then
                 (if e_fault E ''mark_force_cancel'' then (Inl Internal500, t')
                  else (Inr ''stopping'', mark_force_cancel jid t'))
               else (Inr ''stopping'', t')
           | (False, t') \<Rightarrow>
               if e_fault E ''get_job_again'' then (Inl Internal500, t')
               else (Inr (case get_job jid t' of Some r \<Rightarrow> jr_status r | None \<Rightarrow> []), t'))"

definition is_forced :: "params \<Rightarrow> bool" where
  "is_forced ps =
     (case kget ps ''force'' of Some v \<Rightarrow> eq_ignore_ascii_case v ''true'' \<or> v = ''1'' | None \<Rightarrow> False)"

definition finished_status :: "string \<Rightarrow> bool" where
  "finished_status s \<longleftrightarrow> s = ''succeeded'' \<or> s = ''failed'' \<or> s = ''cancelled'' \<or> s = ''lost''"

text \<open>The state change of \<open>stop_job\<close>, on the row that was read.\<close>

definition stop_row :: "env \<Rightarrow> string \<Rightarrow> bool \<Rightarrow> string job_row \<Rightarrow> app_state \<Rightarrow> (status_code + string) \<times> app_state" where
  "stop_row E jid force row st =
     (if finished_status (jr_status row) then (Inl Conflict409, st)
      else if jr_status row = ''queued'' then
        (if e_fault E ''cancel_queued_job'' then (Inl Internal500, st)
         else case cancel_queued_job (e_now E) jid (st_jobs st) of
                (True, t) \<Rightarrow>
                  (Inr ''cancelled'',
                   st\<lparr>st_jobs := t, st_sched := snd (drop_job jid (snd (remove_queued jid (st_sched st))))\<rparr>)
              | (False, t) \<Rightarrow> (let (r, t') = stop_active_job E jid force t in (r, st\<lparr>st_jobs := t'\<rparr>)))
      else (let (r, t) = stop_active_job E jid force (st_jobs st) in (r, st\<lparr>st_jobs := t\<rparr>)))"

definition stop_job :: "env \<Rightarrow> claims \<Rightarrow> string \<Rightarrow> params \<Rightarrow> app_state \<Rightarrow> json reply \<times> app_state" where
  "stop_job E cl jid ps st =
     (let ip = client_ip E st; force = is_forced ps
      in if e_fault E ''get_job'' then (Err Internal500, st)
         else case get_job jid (st_jobs st) of
                None \<Rightarrow> (Err NotFound404, st)
              | Some row \<Rightarrow>
                  (case stop_row E jid force row st of
                     (Inl e, st) \<Rightarrow> (Err e, st)
                   | (Inr new_status, st) \<Rightarrow>
                       let st = audit E (audit_username E cl st) ''stop_job'' (Some jid) (Some ''job'')
                             (Some (if force then ''Stop job requested (force: escalate to SIGKILL)''
                                    else ''Stop job requested'')) ''success'' ip st;
                           st = st\<lparr>st_ws := push_job_update (e_to_string E) jid (st_ws st)\<rparr>
                       in (Ok (JObj [(''job_id'', JStr jid), (''status'', JStr new_status)]), st)))"

subsection \<open>Submissions\<close>

definition within_caps :: "job_create_request \<Rightarrow> bool" where
  "within_caps req \<longleftrightarrow>
     length (q_name req) \<le> 255 \<and> length (q_executable req) \<le> 4096 \<and> length (q_working_directory req) \<le> 4096 \<and>
     length (q_resource_quota req) \<le> 64 \<and> length (q_arguments req) \<le> 256 \<and>
     (\<forall>a \<in> set (q_arguments req). length a \<le> 4096) \<and> length (q_environment req) \<le> 128 \<and>
     (\<forall>(k, v) \<in> set (q_environment req). length k \<le> 255 \<and> (\<forall>s. v = JStr s \<longrightarrow> length s \<le> 4096))"

lemmas cap_defs = MAX_JOB_NAME_LEN_def MAX_EXECUTABLE_LEN_def MAX_WORKDIR_LEN_def MAX_QUOTA_LEN_def MAX_ARGS_def
  MAX_ARG_LEN_def MAX_ENV_ENTRIES_def MAX_ENV_KEY_LEN_def MAX_ENV_VALUE_LEN_def

lemma as_str_Some: "as_str v = Some s \<longleftrightarrow> v = JStr s"
  by (cases v) auto

lemma validate_job_request_iff: "validate_job_request req = Inr () \<longleftrightarrow> within_caps req"
proof -
  have env: "(list_ex (\<lambda>(k, v). MAX_ENV_KEY_LEN < length k) m \<or>
      list_ex (\<lambda>(k, v). case as_str v of Some s \<Rightarrow> MAX_ENV_VALUE_LEN < length s | None \<Rightarrow> False) m) \<longleftrightarrow>
      \<not> (\<forall>(k, v) \<in> set m. length k \<le> 255 \<and> (\<forall>s. v = JStr s \<longrightarrow> length s \<le> 4096))" for m :: "(string \<times> json) list"
    by (induction m) (auto simp: cap_defs as_str_Some not_le split: option.splits)
  have args: "find (\<lambda>a. MAX_ARG_LEN < length a) as = None \<longleftrightarrow> (\<forall>a \<in> set as. length a \<le> 4096)" for as :: "string list"
    by (auto simp: find_None_iff MAX_ARG_LEN_def not_less)
  show ?thesis
    using env [of "q_environment req"] args [of "q_arguments req"]
    by (auto simp: validate_job_request_def within_caps_def cap_defs not_le not_less split: option.splits if_splits)
qed

definition stored :: "string job_row \<Rightarrow> stored_job" where
  "stored j = with_node (if jr_node_id j = [] then None else Some (jr_node_id j)) j"

lemma create_job_Ok:
  assumes "create_job E cl req st = (Ok v, st')"
  shows "st_jobs st' = st_jobs st @ [stored (submitted_row E cl req)] \<and> within_caps req \<and>
    trim (q_name req) \<noteq> [] \<and> trim (q_executable req) \<noteq> [] \<and>
    (q_node_id req = [] \<or> q_node_id req \<in> set (st_node_ids st)) \<and>
    e_fresh E ''job_id'' \<notin> jr_job_id ` set (st_jobs st) \<and> st_sched st' = st_sched st"
  using assms validate_job_request_iff [of req]
  by (auto simp: create_job_def Let_def insert_job_def stored_def submitted_row_def split: if_splits sum.splits)

lemma create_job_refused: "create_job E cl req st = (rep, st') \<Longrightarrow> \<nexists>v. rep = Ok v \<Longrightarrow> st_jobs st' = st_jobs st"
  by (auto simp: create_job_def audit_job_rejection_def Let_def split: if_splits sum.splits)


subsection \<open>Listing\<close>

lemma int_param_range: "lo \<le> hi \<Longrightarrow> lo \<le> int_param key d lo hi ps \<and> int_param key d lo hi ps \<le> hi"
  by (simp add: int_param_def Let_def)

lemma list_jobs_in_range:
  assumes "0 \<le> p" "p \<le> 1000000" "1 \<le> s" "s \<le> 500"
  shows "\<exists>rows n. list_jobs c a b d p s t = Inr (rows, n) \<and> length rows \<le> 500"
proof -
  have lo: "0 \<le> p * s" using assms by simp
  have "p * s \<le> 1000000 * 500" using assms by (intro mult_mono) auto
  then have "u64_as_i64 (i64_as_u64 (p * s)) = p * s" using lo by (intro i64_u64_roundtrip) auto
  moreover have "\<not> p * s < 0" using lo by simp
  ultimately show ?thesis using assms by (simp add: list_jobs_def Let_def min.coboundedI2)
qed

text \<open>The listing cannot be made to fail by its parameters: whatever page and size a client asks for,
  well formed or not, the statement is in range, the product of page and size does not overflow, and the
  reply holds at most 500 rows.\<close>

lemma listing_total:
  assumes "\<not> e_fault E ''list_jobs''"
  shows "\<exists>rows n. list_jobs_handler E ps st = Ok (rows, n) \<and> length rows \<le> 500"
proof -
  obtain rows n where "list_jobs (\<not> e_fault E ''count_jobs'') (kget ps ''node_id'') (kget ps ''status'')
      (kget ps ''created_by'') (int_param ''page'' 0 0 1000000 ps) (int_param ''page_size'' 20 1 500 ps) (st_jobs st)
      = Inr (rows, n)" "length rows \<le> 500"
    using list_jobs_in_range [of "int_param ''page'' 0 0 1000000 ps" "int_param ''page_size'' 20 1 500 ps"]
      int_param_range [of 0 1000000 "''page''" 0 ps] int_param_range [of 1 500 "''page_size''" 20 ps]
    by (metis zero_le_numeral one_le_numeral)
  then show ?thesis using assms by (simp add: list_jobs_handler_def)
qed

subsection \<open>Stop requests\<close>

lemma get_job_update:
  assumes "\<And>r. jr_job_id (f r) = jr_job_id r"
  shows "get_job jid (update_where P f t) =
    map_option (\<lambda>r. fetched (if P r then f r else r)) (find_by jr_job_id jid t)"
  using assms by (simp add: get_job_def find_by_update option.map_comp comp_def)

lemma fetched_simps [simp]:
  "jr_job_id (fetched r) = jr_job_id r" "jr_status (fetched r) = jr_status r"
  "jr_error_message (fetched r) = jr_error_message r" "jr_finished_at (fetched r) = jr_finished_at r"
  "jr_started_at (fetched r) = jr_started_at r" "jr_resource_quota (fetched r) = jr_resource_quota r"
  by (simp_all add: fetched_def with_node_def)

lemma get_job_Some:
  assumes "get_job jid t = Some row"
  obtains r where "find_by jr_job_id jid t = Some r" "r \<in> set t" "jr_job_id r = jid" "row = fetched r"
  using assms by (auto simp: get_job_def dest: find_by_Some)

text \<open>The row that stop requests see, under unique identifiers.\<close>

lemma unique_row:
  assumes "distinct (map jr_job_id t)" "find_by jr_job_id jid t = Some r" "q \<in> set t" "jr_job_id q = jid"
  shows "q = r"
  using assms find_by_unique [of jr_job_id t q] by simp

lemma rows_affected_of:
  assumes "distinct (map jr_job_id t)" "find_by jr_job_id jid t = Some r" "\<And>q. P q \<Longrightarrow> jr_job_id q = jid"
  shows "0 < rows_affected P t \<longleftrightarrow> P r"
  using assms unique_row [OF assms(1,2)] find_by_Some [OF assms(2)] by (auto simp: rows_affected_pos)

definition no_faults :: "env \<Rightarrow> bool" where "no_faults E \<longleftrightarrow> (\<forall>s. \<not> e_fault E s)"

lemma stop_active_job_spec:
  assumes "distinct (map jr_job_id t)" "find_by jr_job_id jid t = Some r" "no_faults E"
  shows "stop_active_job E jid force t =
    (if jr_status r \<in> {''starting'', ''running''}
     then (Inr ''stopping'',
           if force then mark_force_cancel jid (snd (mark_stopping_if_active jid t))
           else snd (mark_stopping_if_active jid t))
     else (Inr (jr_status r), t))"
proof -
  have id: "jr_job_id r = jid" using find_by_Some [OF assms(2)] by simp
  have hit: "fst (mark_stopping_if_active jid t) \<longleftrightarrow> jr_status r \<in> {''starting'', ''running''}"
    using rows_affected_of [OF assms(1,2), of "active_job jid"] id
    by (simp add: mark_stopping_if_active_def active_job_def)
  show ?thesis
  proof (cases "jr_status r \<in> {''starting'', ''running''}")
    case True
    then show ?thesis using hit assms(3)
      by (cases "mark_stopping_if_active jid t") (auto simp: stop_active_job_def no_faults_def)
  next
    case False
    then have "snd (mark_stopping_if_active jid t) = t"
      using unique_row [OF assms(1,2)] by (auto simp: mark_stopping_if_active_def active_job_def intro!: update_where_idle)
    then show ?thesis using hit False assms(2,3)
      by (cases "mark_stopping_if_active jid t") (auto simp: stop_active_job_def no_faults_def get_job_def)
  qed
qed

text \<open>C22. Stop requests, when the connection holds. For a finished job the request is refused with 409 and
  nothing changes; a queued job is cancelled at once, with its time, and the scheduler forgets it; a
  starting or running job becomes \<open>stopping\<close>, with the force marker exactly when force was asked for;
  for a job that is already stopping nothing changes, so a force request that comes second is not
  recorded. An unknown job is a 404.\<close>

theorem stop_request_spec:
  assumes "distinct (map jr_job_id (st_jobs st))" and "no_faults E"
    and "stop_job E cl jid ps st = (rep, st')"
  shows "case get_job jid (st_jobs st) of
     None \<Rightarrow> rep = Err NotFound404 \<and> st' = st
   | Some row \<Rightarrow>
      if finished_status (jr_status row) then rep = Err Conflict409 \<and> st' = st
      else if jr_status row = ''queued'' then
        rep = Ok (JObj [(''job_id'', JStr jid), (''status'', JStr ''cancelled'')]) \<and>
        (\<exists>q. get_job jid (st_jobs st') = Some q \<and> jr_status q = ''cancelled'' \<and> jr_finished_at q = Some (e_now E)) \<and>
        kget (sch_running (st_sched st')) jid = None \<and> (\<forall>j \<in> set (sch_queue (st_sched st')). job_id j \<noteq> jid)
      else if jr_status row \<in> {''starting'', ''running''} then
        rep = Ok (JObj [(''job_id'', JStr jid), (''status'', JStr ''stopping'')]) \<and>
        (\<exists>q. get_job jid (st_jobs st') = Some q \<and> jr_status q = ''stopping'' \<and>
           jr_error_message q = (if is_forced ps then Some FORCE_CANCEL_MARKER else jr_error_message row))
      else rep = Ok (JObj [(''job_id'', JStr jid), (''status'', JStr (jr_status row))]) \<and> st_jobs st' = st_jobs st"
proof (cases "get_job jid (st_jobs st)")
  case None
  then show ?thesis using assms(2,3) by (simp add: stop_job_def no_faults_def)
next
  case (Some row)
  then obtain r where r: "find_by jr_job_id jid (st_jobs st) = Some r" "jr_job_id r = jid" "row = fetched r"
    using get_job_Some by metis
  note nf = assms(2) [unfolded no_faults_def]
  note active = stop_active_job_spec [OF assms(1) r(1) assms(2)]
  have queued: "fst (cancel_queued_job (e_now E) jid (st_jobs st))" if "jr_status r = ''queued''"
    using that r(2) rows_affected_of [OF assms(1) r(1), of "queued_job jid"]
    by (simp add: cancel_queued_job_def queued_job_def)
  have cancelled: "get_job jid (snd (cancel_queued_job (e_now E) jid (st_jobs st))) = Some (fetched (cancel_effect (e_now E) r))"
    if "jr_status r = ''queued''"
    using that r by (simp add: cancel_queued_job_def get_job_update cancel_effect_def queued_job_def)
  have stopping: "get_job jid (snd (mark_stopping_if_active jid (st_jobs st))) = Some (fetched (stopping_effect r))"
      "get_job jid (mark_force_cancel jid (snd (mark_stopping_if_active jid (st_jobs st)))) =
        Some (fetched ((stopping_effect r)\<lparr>jr_error_message := Some FORCE_CANCEL_MARKER\<rparr>))"
    if "jr_status r \<in> {''starting'', ''running''}"
    using that r
    by (auto simp: mark_stopping_if_active_def mark_force_cancel_def get_job_update find_by_update stopping_effect_def
        active_job_def)
  consider (finished) "finished_status (jr_status r)" | (queued) "jr_status r = ''queued''"
    | (active) "jr_status r \<in> {''starting'', ''running''}"
    | (other) "\<not> finished_status (jr_status r)" "jr_status r \<notin> {''queued'', ''starting'', ''running''}" by auto
  then show ?thesis
  proof cases
    case finished
    then show ?thesis using Some r nf assms(3) by (simp add: stop_job_def stop_row_def)
  next
    case q: queued
    then show ?thesis using Some r nf assms(3) queued [OF q] cancelled [OF q]
      by (cases "cancel_queued_job (e_now E) jid (st_jobs st)")
         (auto simp: stop_job_def stop_row_def finished_status_def drop_job_def remove_queued_def Let_def kget_kdel
           cancel_effect_def)
  next
    case a: active
    then show ?thesis using Some r nf assms(3) active stopping [OF a]
      by (auto simp: stop_job_def stop_row_def finished_status_def Let_def stopping_effect_def)
  next
    case other
    then show ?thesis using Some r nf assms(3) active
      by (auto simp: stop_job_def stop_row_def Let_def)
  qed
qed

subsection \<open>The properties at concrete requests\<close>

definition sample_submission :: job_create_request where
  "sample_submission = \<lparr>q_node_id = [], q_name = ''train'', q_executable = ''/bin/sh'', q_arguments = [''-c'', ''true''],
     q_working_directory = ''/tmp'', q_environment = [], q_resource_quota = ''gpu:2'', q_max_retries = 99\<rparr>"


theorem stop_request_spec_witness:
  "\<exists>q. get_job ''j1'' (st_jobs (snd (stop_job sample_env sample_claims ''j1'' []
     (sample_state\<lparr>st_jobs := [sample_row ''j1'' ''queued'' None None]\<rparr>)))) = Some q \<and> jr_status q = ''cancelled''"
  using stop_request_spec [of "sample_state\<lparr>st_jobs := [sample_row ''j1'' ''queued'' None None]\<rparr>" sample_env
      sample_claims "''j1''" "[]"
      "fst (stop_job sample_env sample_claims ''j1'' [] (sample_state\<lparr>st_jobs := [sample_row ''j1'' ''queued'' None None]\<rparr>))"
      "snd (stop_job sample_env sample_claims ''j1'' [] (sample_state\<lparr>st_jobs := [sample_row ''j1'' ''queued'' None None]\<rparr>))"]
  by (auto simp: no_faults_def get_job_def sample_row_def fetched_def with_node_def finished_status_def)

end
