(* ===== verification/Grpc_Service.thy ===== *)
theory Grpc_Service
  imports Job_Handlers
begin

text \<open>
  The agent service of \<open>crates/server/src/grpc.rs\<close>: registration, metric reports with the evaluation of
  the alert rules, job submission and delivery, status reports, cancellation, heartbeats. A
  streaming call is the function that handles one message of its stream. The texts of internal errors
  come from the database driver and are left out.
\<close>

datatype grpc_status = GInvalidArgument string | GNotFound string | GFailedPrecondition string | GInternal

subsection \<open>Conversions\<close>

definition status_int_to_str :: "int \<Rightarrow> string option" where
  "status_int_to_str s =
     (if s = 1 then Some ''queued'' else if s = 2 then Some ''starting'' else if s = 3 then Some ''running''
      else if s = 4 then Some ''stopping'' else if s = 5 then Some ''succeeded'' else if s = 6 then Some ''failed''
      else if s = 7 then Some ''cancelled'' else if s = 8 then Some ''lost'' else None)"

text \<open>\<open>serde_json::from_value(..).unwrap_or_default()\<close> at a list and at a map of strings.\<close>

definition strings_of :: "json \<Rightarrow> string list" where
  "strings_of v =
     (case as_array v of
        Some l \<Rightarrow> if list_all (\<lambda>x. as_str x \<noteq> None) l then map (\<lambda>x. the (as_str x)) l else []
      | None \<Rightarrow> [])"

definition string_map_of :: "json \<Rightarrow> (string, string) kmap" where
  "string_map_of v =
     (case as_object v of
        Some m \<Rightarrow> if list_all (\<lambda>(k, x). as_str x \<noteq> None) m
                  then fold (\<lambda>(k, x) acc. kput k (the (as_str x)) acc) m [] else []
      | None \<Rightarrow> [])"

definition alert_rule_from_row :: "alert_rule_row \<Rightarrow> alert_rule option" where
  "alert_rule_from_row row =
     (let operator =
          (if ar_operator row = ''gt'' then Some Gt else if ar_operator row = ''gte'' then Some Gte
           else if ar_operator row = ''lt'' then Some Lt else if ar_operator row = ''lte'' then Some Lte
           else if ar_operator row = ''eq'' then Some Eq else if ar_operator row = ''neq'' then Some Neq else None);
          severity = (if ar_severity row = ''info'' then Info
                      else if ar_severity row = ''critical'' then Critical else Warning)
      in case operator of
           None \<Rightarrow> None
         | Some op \<Rightarrow> Some
            \<lparr>rule_id = ar_rule_id row, rule_name = ar_name row,
             rule_description = (case ar_description row of Some d \<Rightarrow> d | None \<Rightarrow> []), rule_metric = ar_metric row,
             rule_operator = op, rule_threshold = ar_threshold row,
             rule_duration_seconds = i64_as_u64 (max (ar_duration_seconds row) 0), rule_severity = severity,
             rule_node_id = ar_node_id row, rule_gpu_uuids = strings_of (ar_gpu_uuids row),
             rule_labels = string_map_of (ar_labels row), rule_enabled = ar_enabled row,
             rule_created_at = ar_created_at row, rule_updated_at = ar_updated_at row,
             rule_created_by = ar_created_by row\<rparr>)"

fun alert_state_str :: "alert_state \<Rightarrow> string" where
  "alert_state_str Normal = ''normal''"
| "alert_state_str Pending = ''pending''"
| "alert_state_str Firing = ''firing''"
| "alert_state_str Resolved = ''resolved''"

text \<open>A \<open>google.protobuf.Timestamp\<close>.\<close>

record proto_timestamp =
  ts_seconds :: int
  ts_nanos :: int

definition ts_from_datetime :: "time \<Rightarrow> proto_timestamp" where
  "ts_from_datetime t = \<lparr>ts_seconds = timestamp t, ts_nanos = t mod 1000000000\<rparr>"

record proto_job =
  pj_job_id :: string
  pj_node_id :: string
  pj_name :: string
  pj_executable :: string
  pj_arguments :: "string list"
  pj_working_directory :: string
  pj_environment :: "(string, string) kmap"
  pj_status :: int
  pj_pid :: u32
  pj_exit_code :: u32
  pj_error_message :: string
  pj_created_at :: "proto_timestamp option"
  pj_started_at :: "proto_timestamp option"
  pj_finished_at :: "proto_timestamp option"
  pj_created_by :: string
  pj_log_offset :: int
  pj_resource_quota :: string
  pj_retry_count :: u32
  pj_max_retries :: u32

definition proto_status :: "string \<Rightarrow> int" where
  "proto_status s =
     (if s = ''queued'' then 1 else if s = ''starting'' then 2 else if s = ''running'' then 3
      else if s = ''stopping'' then 4 else if s = ''succeeded'' then 5 else if s = ''failed'' then 6
      else if s = ''cancelled'' then 7 else if s = ''lost'' then 8 else 3)"

definition i32_as_u32 :: "int \<Rightarrow> u32" where "i32_as_u32 x = word_of_int x"

definition job_to_proto :: "string job_row \<Rightarrow> proto_job" where
  "job_to_proto j =
     \<lparr>pj_job_id = jr_job_id j, pj_node_id = jr_node_id j, pj_name = jr_name j, pj_executable = jr_executable j,
      pj_arguments = strings_of (jr_arguments j), pj_working_directory = jr_working_directory j,
      pj_environment = string_map_of (jr_environment j), pj_status = proto_status (jr_status j),
      pj_pid = (case jr_pid j of Some p \<Rightarrow> i32_as_u32 p | None \<Rightarrow> 0),
      pj_exit_code = i32_as_u32 (case jr_exit_code j of Some c \<Rightarrow> c | None \<Rightarrow> 0),
      pj_error_message = (case jr_error_message j of Some m \<Rightarrow> m | None \<Rightarrow> []),
      pj_created_at = Some (ts_from_datetime (jr_created_at j)),
      pj_started_at = map_option ts_from_datetime (jr_started_at j),
      pj_finished_at = map_option ts_from_datetime (jr_finished_at j), pj_created_by = jr_created_by j,
      pj_log_offset = 0, pj_resource_quota = (case jr_resource_quota j of Some q \<Rightarrow> q | None \<Rightarrow> []),
      pj_retry_count = i32_as_u32 (jr_retry_count j), pj_max_retries = i32_as_u32 (jr_max_retries j)\<rparr>"

subsection \<open>Registration\<close>

record node_message =
  n_node_id :: string
  n_hostname :: string
  n_ip_address :: string
  n_agent_version :: string
  n_os_info :: string
  n_kernel_version :: string
  n_cpu_model :: string
  n_cpu_cores :: u32
  n_memory_total_bytes :: u64
  n_labels :: "(string, string) kmap"

definition register_node :: "env \<Rightarrow> node_message \<Rightarrow> app_state \<Rightarrow> node_message \<times> app_state" where
  "register_node E n st =
     (let gpu_count = (case registry_get (n_node_id n) (st_registry st) of Some e \<Rightarrow> ne_gpu_count e | None \<Rightarrow> 0);
          entry = \<lparr>ne_node_id = n_node_id n, ne_hostname = n_hostname n, ne_ip_address = n_ip_address n,
            ne_agent_version = n_agent_version n, ne_os_info = n_os_info n, ne_kernel_version = n_kernel_version n,
            ne_cpu_model = n_cpu_model n, ne_cpu_cores = n_cpu_cores n, ne_memory_total_bytes = n_memory_total_bytes n,
            ne_registered_at = e_now E, ne_last_seen = e_now E, ne_status = Online, ne_labels = n_labels n,
            ne_gpu_count = gpu_count\<rparr>;
          st = st\<lparr>st_registry := register entry (st_registry st)\<rparr>;
          row = \<lparr>ni_node_id = n_node_id n, ni_hostname = n_hostname n, ni_ip_address = n_ip_address n,
            ni_agent_version = n_agent_version n, ni_os_info = n_os_info n, ni_kernel_version = n_kernel_version n,
            ni_cpu_model = n_cpu_model n, ni_cpu_cores = sint (n_cpu_cores n),
            ni_memory_total_bytes = u64_as_i64 (n_memory_total_bytes n),
            ni_labels = JObj (map (\<lambda>(k, v). (k, JStr v)) (n_labels n)), ni_gpu_count = sint gpu_count,
            ni_registered_at = e_now E, ni_last_seen = e_now E\<rparr>
      in (n, if e_fault E ''upsert_node_info'' then st
             else st\<lparr>st_node_info := upsert_node_info row (st_node_info st)\<rparr>))"

subsection \<open>Alert evaluation\<close>

text \<open>A reading is the identifier of the GPU, empty for the node, with the value. A metric that is not known
  or a sensor that is not set gives none.\<close>

definition percent_of :: "u64 \<Rightarrow> u64 \<Rightarrow> f64" where
  "percent_of used cap =
     (case round64 (of_nat (unat cap)) of
        Fin t \<Rightarrow> f64_mul (f64_div_fin (round64 (of_nat (unat used))) t) (Fin 100)
      | _ \<Rightarrow> Fin 0)"

definition gpu_reading :: "string \<Rightarrow> gpu_metrics \<Rightarrow> f64 option" where
  "gpu_reading metric g =
     (if metric = ''gpu_temperature'' then g_temperature_celsius g
      else if metric = ''gpu_utilization'' then Some (g_utilization_gpu g)
      else if metric = ''gpu_memory_used_percent'' then
        (case g_memory_used_bytes g of
           Some used \<Rightarrow> (case g_memory_total_bytes g of
               Some cap \<Rightarrow> if 0 < cap then Some (percent_of used cap) else None | None \<Rightarrow> None)
         | None \<Rightarrow> None)
      else if metric = ''gpu_power_watts'' then g_power_watts g else None)"

definition node_reading :: "string \<Rightarrow> node_metrics_report \<Rightarrow> f64 option" where
  "node_reading metric r =
     (if metric = ''cpu_usage_percent'' then Some (rp_cpu_usage_percent r)
      else if metric = ''memory_usage_percent'' then
        Some (if 0 < rp_memory_total_bytes r then percent_of (rp_memory_used_bytes r) (rp_memory_total_bytes r) else Fin 0)
      else if metric = ''load_1'' then Some (rp_load_1 r) else None)"

definition rule_readings :: "node_metrics_report \<Rightarrow> alert_rule \<Rightarrow> (string \<times> f64) list" where
  "rule_readings r rule =
     (if starts_with (rule_metric rule) ''gpu_''
      then List.map_filter (\<lambda>g. map_option (\<lambda>v. (g_uuid g, v)) (gpu_reading (rule_metric rule) g)) (rp_gpus r)
      else (case node_reading (rule_metric rule) r of Some v \<Rightarrow> [([], v)] | None \<Rightarrow> []))"

definition event_row :: "time \<Rightarrow> alert_event \<Rightarrow> alert_event_row" where
  "event_row now e =
     \<lparr>ae_event_id = ev_event_id e, ae_rule_id = ev_rule_id e, ae_node_id = ev_node_id e,
      ae_gpu_uuid = ev_gpu_uuid e, ae_old_state = Some (alert_state_str (ev_old_state e)),
      ae_new_state = alert_state_str (ev_new_state e), ae_current_value = ev_current_value e,
      ae_threshold = ev_threshold e, ae_notification_sent = None, ae_timestamp = now\<rparr>"

definition event_json :: "alert_event \<Rightarrow> json" where
  "event_json e = json_obj
     [(''type'', JStr ''alert_update''), (''node_id'', JStr (ev_node_id e)),
      (''payload'', json_obj
         [(''event_id'', JStr (ev_event_id e)), (''rule_id'', JStr (ev_rule_id e)),
          (''gpu_uuid'', JStr (ev_gpu_uuid e)), (''old_state'', JStr (alert_state_str (ev_old_state e))),
          (''new_state'', JStr (alert_state_str (ev_new_state e))),
          (''current_value'', json_opt json_f64 (ev_current_value e)), (''threshold'', json_f64 (ev_threshold e))])]"

definition persist_alert_event :: "env \<Rightarrow> alert_event \<Rightarrow> app_state \<Rightarrow> app_state" where
  "persist_alert_event E e st =
     (let st = (if e_fault E (''insert_alert_event '' @ ev_event_id e) then st
                else case insert_alert_event (event_row (e_now E) e) (st_alerts st) of
                       Inl _ \<Rightarrow> st | Inr A \<Rightarrow> st\<lparr>st_alerts := A\<rparr>)
      in st\<lparr>st_ws := push_alert (e_to_string E (event_json e)) (st_ws st)\<rparr>)"

text \<open>The evaluations of a report in their order, numbered for their fresh event identifiers. The result
  tells whether the task survived: a panic of the engine ends it.\<close>

definition evaluate_reading :: "env \<Rightarrow> string \<Rightarrow> nat \<Rightarrow> alert_rule \<times> string \<times> f64 \<Rightarrow> app_state \<Rightarrow> bool \<times> app_state" where
  "evaluate_reading E node_id i rd st =
     (case evaluate (e_fresh E (''event '' @ show_nat i)) (fst rd) node_id (fst (snd rd)) (snd (snd rd)) (e_now E)
             (st_engine st) of
        Inl eng \<Rightarrow> (False, st\<lparr>st_engine := eng\<rparr>)
      | Inr (event, eng) \<Rightarrow>
          (True, case event of None \<Rightarrow> st\<lparr>st_engine := eng\<rparr>
                             | Some e \<Rightarrow> persist_alert_event E e (st\<lparr>st_engine := eng\<rparr>)))"

fun evaluate_readings ::
  "env \<Rightarrow> string \<Rightarrow> nat \<Rightarrow> (alert_rule \<times> string \<times> f64) list \<Rightarrow> app_state \<Rightarrow> bool \<times> app_state" where
  "evaluate_readings E node_id i [] st = (True, st)"
| "evaluate_readings E node_id i (rd # rds) st =
     (case evaluate_reading E node_id i rd st of
        (True, st) \<Rightarrow> evaluate_readings E node_id (Suc i) rds st
      | (False, st) \<Rightarrow> (False, st))"

definition report_readings :: "node_metrics_report \<Rightarrow> alert_rule list \<Rightarrow> (alert_rule \<times> string \<times> f64) list" where
  "report_readings r rules = concat (map (\<lambda>rule. map (\<lambda>p. (rule, p)) (rule_readings r rule)) rules)"

definition evaluate_alerts :: "env \<Rightarrow> node_metrics_report \<Rightarrow> app_state \<Rightarrow> bool \<times> app_state" where
  "evaluate_alerts E r st =
     evaluate_readings E (rp_node_id r) 0 (report_readings r (st_alert_rules st)) st"

subsection \<open>Metric reports\<close>

definition save_metrics_to_db :: "env \<Rightarrow> node_metrics_report \<Rightarrow> app_state \<Rightarrow> app_state" where
  "save_metrics_to_db E r st =
     (if e_fault E ''insert_node_metrics'' then st
      else let row = report_row (st_metrics_serial st) (e_now E) r;
               st' = st\<lparr>st_metrics_serial := st_metrics_serial st + 1\<rparr>
           in case insert_node_metrics (st_node_ids st) row (st_metrics st) of
                Inl _ \<Rightarrow> st' | Inr t \<Rightarrow> st'\<lparr>st_metrics := t\<rparr>)"

text \<open>The single precision mean of the utilisations.\<close>

definition avg_gpu_utilization :: "gpu_metrics list \<Rightarrow> f64" where
  "avg_gpu_utilization gs =
     (if gs = [] then Fin 0
      else case round32 (of_nat (length gs)) of
             Fin n \<Rightarrow> f32_div_fin (foldl f32_add (Fin 0) (map g_utilization_gpu gs)) n | _ \<Rightarrow> Fin 0)"

definition metrics_json :: "node_metrics_report \<Rightarrow> json" where
  "metrics_json r = json_obj
     [(''type'', JStr ''metrics_update''), (''node_id'', JStr (rp_node_id r)),
      (''payload'', json_obj
         [(''sequence'', json_word (rp_sequence r)), (''timestamp_ms'', json_word (rp_timestamp_ms r)),
          (''cpu_usage_percent'', json_f64 (rp_cpu_usage_percent r)),
          (''avg_gpu_utilization'', json_f64 (avg_gpu_utilization (rp_gpus r))), (''load_1'', json_f64 (rp_load_1 r)),
          (''memory_total_bytes'', json_word (rp_memory_total_bytes r)),
          (''memory_used_bytes'', json_word (rp_memory_used_bytes r)), (''gpu_count'', JInt (int (length (rp_gpus r))))])]"

text \<open>The cache of seen reports evicts its least recent key; keys are only read without touching them and
  inserted when absent, so the order is the order of insertion.\<close>

definition SEEN_CAPACITY :: nat where "SEEN_CAPACITY = 100000"

definition cache_key :: "node_metrics_report \<Rightarrow> string" where
  "cache_key r = rp_node_id r @ '':'' @ show_nat (unat (rp_sequence r))"

definition learn_node :: "env \<Rightarrow> node_metrics_report \<Rightarrow> app_state \<Rightarrow> app_state" where
  "learn_node E r st =
     (let st = st\<lparr>st_registry := snd (update_last_seen (rp_node_id r) (e_now E) (st_registry st))\<rparr>;
          gpu_count = word_of_nat (length (rp_gpus r)) :: u32
      in if 0 < gpu_count then
           (let st = st\<lparr>st_registry := update_gpu_count (rp_node_id r) gpu_count (st_registry st)\<rparr>
            in if e_fault E ''update_node_gpu_count'' then st
               else st\<lparr>st_node_info := update_node_gpu_count (rp_node_id r) (sint gpu_count) (st_node_info st)\<rparr>)
         else st)"

record metrics_ack =
  ma_node_id :: string
  ma_sequence :: u64
  ma_received_at :: "int option"

text \<open>One message of the stream; no acknowledgement is the panic that ends the task.\<close>

definition report_metrics :: "env \<Rightarrow> node_metrics_report \<Rightarrow> app_state \<Rightarrow> metrics_ack option \<times> app_state" where
  "report_metrics E r st =
     (let st = learn_node E r st
      in if cache_key r \<in> set (st_seen st)
         then (Some \<lparr>ma_node_id = rp_node_id r, ma_sequence = rp_sequence r, ma_received_at = None\<rparr>, st)
         else
           let st = st\<lparr>st_seen := take SEEN_CAPACITY (cache_key r # st_seen st)\<rparr>;
               st = save_metrics_to_db E r st
           in case evaluate_alerts E r st of
                (False, st) \<Rightarrow> (None, st)
              | (True, st) \<Rightarrow>
                  (Some \<lparr>ma_node_id = rp_node_id r, ma_sequence = rp_sequence r,
                         ma_received_at = Some (timestamp (e_now E))\<rparr>,
                   st\<lparr>st_ws := push_metrics (rp_node_id r) (e_to_string E (metrics_json r)) (st_ws st)\<rparr>))"

subsection \<open>Submission and delivery\<close>

record job_submission =
  pd_job_id :: string
  pd_node_id :: string
  pd_name :: string
  pd_executable :: string
  pd_arguments :: "string list"
  pd_working_directory :: string
  pd_environment :: "(string, string) kmap"
  pd_created_at :: "proto_timestamp option"
  pd_created_by :: string
  pd_resource_quota :: string

text \<open>\<open>DateTime::from_timestamp(seconds, nanos as u32)\<close>; a leap second is only accepted at the end of a minute.\<close>

definition from_timestamp_nanos :: "int \<Rightarrow> u32 \<Rightarrow> time option" where
  "from_timestamp_nanos s n =
     (if unat n < 1000000000 \<or> unat n < 2000000000 \<and> s mod 60 = 59
      then map_option (\<lambda>t. t + int (unat n)) (from_timestamp s) else None)"

definition submission_oversized :: "job_submission \<Rightarrow> bool" where
  "submission_oversized d \<longleftrightarrow>
     MAX_JOB_NAME_LEN < length (pd_name d) \<or> MAX_EXECUTABLE_LEN < length (pd_executable d)
     \<or> MAX_WORKDIR_LEN < length (pd_working_directory d) \<or> MAX_QUOTA_LEN < length (pd_resource_quota d)
     \<or> 255 < length (pd_node_id d) \<or> 255 < length (pd_created_by d) \<or> MAX_ARGS < length (pd_arguments d)
     \<or> list_ex (\<lambda>a. MAX_ARG_LEN < length a) (pd_arguments d)
     \<or> MAX_ENV_ENTRIES < length (pd_environment d)
     \<or> list_ex (\<lambda>(k, v). MAX_ENV_KEY_LEN < length k) (pd_environment d)
     \<or> list_ex (\<lambda>(k, v). MAX_ENV_VALUE_LEN < length v) (pd_environment d)"

definition submission_row :: "env \<Rightarrow> job_submission \<Rightarrow> string job_row" where
  "submission_row E d =
     \<lparr>jr_job_id = pd_job_id d, jr_node_id = pd_node_id d, jr_name = pd_name d, jr_executable = pd_executable d,
      jr_arguments = JArr (map JStr (pd_arguments d)), jr_working_directory = pd_working_directory d,
      jr_environment = JObj (map (\<lambda>(k, v). (k, JStr v)) (pd_environment d)), jr_status = ''queued'', jr_pid = None,
      jr_exit_code = None, jr_error_message = None,
      jr_created_at = (case pd_created_at d of
          Some t \<Rightarrow> (case from_timestamp_nanos (ts_seconds t) (i32_as_u32 (ts_nanos t)) of
              Some c \<Rightarrow> c | None \<Rightarrow> e_now E)
        | None \<Rightarrow> e_now E),
      jr_started_at = None, jr_finished_at = None, jr_created_by = pd_created_by d,
      jr_resource_quota = (if pd_resource_quota d = [] then None else Some (pd_resource_quota d)),
      jr_retry_count = 0, jr_max_retries = 0\<rparr>"

definition submitted_job :: "job_submission \<Rightarrow> proto_job" where
  "submitted_job d =
     \<lparr>pj_job_id = pd_job_id d, pj_node_id = pd_node_id d, pj_name = pd_name d, pj_executable = pd_executable d,
      pj_arguments = pd_arguments d, pj_working_directory = pd_working_directory d,
      pj_environment = pd_environment d, pj_status = 1, pj_pid = 0, pj_exit_code = 0, pj_error_message = [],
      pj_created_at = pd_created_at d, pj_started_at = None, pj_finished_at = None,
      pj_created_by = pd_created_by d, pj_log_offset = 0, pj_resource_quota = pd_resource_quota d,
      pj_retry_count = 0, pj_max_retries = 0\<rparr>"

definition submit_job :: "env \<Rightarrow> job_submission \<Rightarrow> app_state \<Rightarrow> (grpc_status + proto_job) \<times> app_state" where
  "submit_job E d st =
     (if trim (pd_name d) = [] \<or> trim (pd_executable d) = []
      then (Inl (GInvalidArgument ''name and executable are required''), st)
      else if submission_oversized d then (Inl (GInvalidArgument ''job fields exceed size limits''), st)
      else if e_fault E ''insert_job'' then (Inl GInternal, st)
      else case insert_job (st_node_ids st) (submission_row E d) (st_jobs st) of
             Inl _ \<Rightarrow> (Inl GInternal, st)
           | Inr t \<Rightarrow> (Inr (submitted_job d), st\<lparr>st_jobs := t\<rparr>))"

text \<open>One tick of the stream of \<open>get_pending_jobs\<close>.\<close>

definition get_pending_jobs :: "env \<Rightarrow> string \<Rightarrow> app_state \<Rightarrow> proto_job list" where
  "get_pending_jobs E node_id st =
     (if e_fault E ''get_jobs_for_node'' then [] else map job_to_proto (get_jobs_for_node node_id (st_jobs st)))"

subsection \<open>Status reports\<close>

record status_update =
  su_job_id :: string
  su_status :: int
  su_message :: string

definition update_message :: "status_update \<Rightarrow> string option" where
  "update_message u = (if su_message u = [] then None else Some (su_message u))"

definition update_status_row :: "env \<Rightarrow> status_update \<Rightarrow> string \<Rightarrow> job_status \<Rightarrow> job_table \<Rightarrow> job_table" where
  "update_status_row E u to_str to t =
     update_job_status (su_job_id u) to_str None None (update_message u) None
       (if is_terminal to then Some (e_now E) else None) t"

definition notify_update :: "env \<Rightarrow> status_update \<Rightarrow> job_status \<Rightarrow> app_state \<Rightarrow> app_state" where
  "notify_update E u to st =
     (let st = (if is_terminal to then st\<lparr>st_sched := complete_job (su_job_id u) to (st_sched st)\<rparr> else st)
      in st\<lparr>st_ws := push_job_update (e_to_string E) (su_job_id u) (st_ws st)\<rparr>)"

text \<open>A message of the stream of \<open>watch_job_status\<close>, with the acknowledgement if there is one.\<close>

definition watch_job_status :: "env \<Rightarrow> status_update \<Rightarrow> app_state \<Rightarrow> status_update option \<times> app_state" where
  "watch_job_status E u st =
     (case status_int_to_str (su_status u) of
        None \<Rightarrow> (None, st)
      | Some to_str \<Rightarrow>
     (case status_from_str to_str of
        None \<Rightarrow> (None, st)
      | Some to \<Rightarrow>
     (case (if e_fault E ''get_job'' then None else get_job (su_job_id u) (st_jobs st)) of
        None \<Rightarrow> (None, st)
      | Some row \<Rightarrow>
     (case status_from_str (jr_status row) of
        None \<Rightarrow> (None, st)
      | Some from \<Rightarrow>
     (case validate_transition from to of
        Inl _ \<Rightarrow> (None, st)
      | Inr _ \<Rightarrow>
          let st = (if e_fault E ''update_job_status'' then st
                    else st\<lparr>st_jobs := update_status_row E u to_str to (st_jobs st)\<rparr>)
          in (Some (u\<lparr>su_message := []\<rparr>), notify_update E u to st))))))"

definition update_job_status_rpc ::
  "env \<Rightarrow> status_update \<Rightarrow> app_state \<Rightarrow> (grpc_status + status_update) \<times> app_state" where
  "update_job_status_rpc E u st =
     (case status_int_to_str (su_status u) of
        None \<Rightarrow> (Inl (GInvalidArgument (''unknown job status: '' @ show_int (su_status u))), st)
      | Some to_str \<Rightarrow>
     (case status_from_str to_str of
        None \<Rightarrow> (Inl (GInvalidArgument ''unknown job status''), st)
      | Some to \<Rightarrow>
        if e_fault E ''get_job'' then (Inl GInternal, st) else
     (case get_job (su_job_id u) (st_jobs st) of
        None \<Rightarrow> (Inl (GNotFound (''job '' @ su_job_id u @ '' not found'')), st)
      | Some row \<Rightarrow>
     (case status_from_str (jr_status row) of
        None \<Rightarrow> (Inl (GFailedPrecondition (''job in unknown state: '' @ jr_status row)), st)
      | Some from \<Rightarrow>
     (case validate_transition from to of
        Inl e \<Rightarrow> (Inl (GInvalidArgument (''invalid transition '' @ status_debug from @ '' -> '' @ status_debug to
                   @ '': '' @ app_error_display e)), st)
      | Inr _ \<Rightarrow>
          if e_fault E ''update_job_status'' then (Inl GInternal, st)
          else (Inr u, notify_update E u to
                  (st\<lparr>st_jobs := update_status_row E u to_str to (st_jobs st)\<rparr>)))))))"

subsection \<open>Heartbeats and cancellation\<close>

record heartbeat_ack =
  ha_node_id :: string
  ha_timestamp_ms :: u64
  ha_pending_job_count :: u32

definition count_active_on :: "string \<Rightarrow> job_table \<Rightarrow> nat" where
  "count_active_on node_id t = length (select_where (\<lambda>r. jr_node_id r = Some node_id \<and>
     jr_status r \<in> {''starting'', ''running'', ''stopping''}) t)"

definition heartbeat :: "env \<Rightarrow> string \<Rightarrow> u64 \<Rightarrow> app_state \<Rightarrow> heartbeat_ack \<times> app_state" where
  "heartbeat E node_id timestamp_ms st =
     (let st = st\<lparr>st_registry := snd (update_last_seen node_id (e_now E) (st_registry st))\<rparr>;
          pending = (if e_fault E ''count_active'' then 0 else count_active_on node_id (st_jobs st))
      in (\<lparr>ha_node_id = node_id, ha_timestamp_ms = timestamp_ms, ha_pending_job_count = of_nat pending\<rparr>, st))"

definition cancel_job_rpc :: "env \<Rightarrow> string \<Rightarrow> app_state \<Rightarrow> (grpc_status + proto_job) \<times> app_state" where
  "cancel_job_rpc E jid st =
     (if e_fault E ''get_job'' then (Inl GInternal, st)
      else case get_job jid (st_jobs st) of
             None \<Rightarrow> (Inl (GNotFound (''job '' @ jid @ '' not found'')), st)
           | Some row \<Rightarrow>
               let active = jr_status row \<in> {''starting'', ''running'', ''stopping''}
               in if active \<and> e_fault E ''update_job_status'' then (Inl GInternal, st)
                  else let st = (if active then
                             st\<lparr>st_jobs := update_job_status jid ''stopping'' None None None None None (st_jobs st),
                                st_ws := push_job_update (e_to_string E) jid (st_ws st)\<rparr>
                           else st)
                       in if e_fault E ''get_job_again'' then (Inl GInternal, st)
                          else (Inr (job_to_proto (case get_job jid (st_jobs st) of Some r \<Rightarrow> r | None \<Rightarrow> row)), st))"

subsection \<open>Status reports respect the life cycle\<close>

lemma status_int_to_str_Some:
  assumes "status_int_to_str n = Some s"
  shows "\<exists>to. status_from_str s = Some to \<and> s = status_to_str to \<and> proto_status s = n"
  using assms by (auto simp: status_int_to_str_def status_from_str_def proto_status_def split: if_splits)

text \<open>When a report is accepted, and what it does.\<close>

definition acceptable :: "status_update \<Rightarrow> job_table \<Rightarrow> job_status \<Rightarrow> bool" where
  "acceptable u t to \<longleftrightarrow>
     (\<exists>row from. status_int_to_str (su_status u) = Some (status_to_str to) \<and> get_job (su_job_id u) t = Some row \<and>
        jr_status row = status_to_str from \<and> can_transition from to)"

lemma update_rpc_cases:
  assumes "update_job_status_rpc E u st = (rep, st')"
  shows "(\<exists>e. rep = Inl e) \<and> st' = st \<or>
    (\<exists>to. rep = Inr u \<and> acceptable u (st_jobs st) to \<and>
       st' = notify_update E u to (st\<lparr>st_jobs := update_status_row E u (status_to_str to) to (st_jobs st)\<rparr>))"
  using assms
  by (auto simp: update_job_status_rpc_def acceptable_def validate_transition_def
      split: if_splits option.splits sum.splits dest!: status_from_str_Some)

lemma notify_update_jobs [simp]: "st_jobs (notify_update E u to st) = st_jobs st"
  by (simp add: notify_update_def Let_def)

lemma update_status_row_get:
  "get_job jid (update_status_row E u s to t) =
     (if jid = su_job_id u
      then map_option (\<lambda>r. r\<lparr>jr_status := s, jr_pid := None, jr_exit_code := None, jr_error_message := update_message u,
             jr_finished_at := (if is_terminal to then Some (e_now E) else jr_finished_at r)\<rparr>) (get_job jid t)
      else get_job jid t)"
  by (cases "find_by jr_job_id jid t")
     (auto simp: update_status_row_def update_job_status_def find_by_update coalesce_def get_job_def fetched_def
        with_node_def dest: find_by_Some)

lemma not_from_lost: "can_transition s t \<Longrightarrow> s \<noteq> Lost"
  by (auto simp: transition_table)


definition report_running :: status_update where
  "report_running = \<lparr>su_job_id = ''j1'', su_status = 3, su_message = []\<rparr>"


lemma watch_as_unary:
  assumes "\<not> e_fault E ''get_job''" "\<not> e_fault E ''update_job_status''"
  shows "snd (watch_job_status E u st) = snd (update_job_status_rpc E u st) \<and>
    (fst (watch_job_status E u st) \<noteq> None \<longleftrightarrow> (\<exists>v. fst (update_job_status_rpc E u st) = Inr v))"
  using assms unfolding watch_job_status_def update_job_status_rpc_def
  by (auto split: option.split sum.split simp: Let_def)



subsection \<open>Reports that come again\<close>

lemma learn_node_frame [simp]:
  "st_seen (learn_node E r st) = st_seen st" "st_metrics (learn_node E r st) = st_metrics st"
  "st_engine (learn_node E r st) = st_engine st" "st_alerts (learn_node E r st) = st_alerts st"
  "st_ws (learn_node E r st) = st_ws st" "st_metrics_serial (learn_node E r st) = st_metrics_serial st"
  "st_alert_rules (learn_node E r st) = st_alert_rules st" "st_node_ids (learn_node E r st) = st_node_ids st"
  by (simp_all add: learn_node_def Let_def st_node_ids_def update_node_gpu_count_def update_where_def comp_def if_distrib cong: if_cong)

lemma evaluate_readings_frame:
  "evaluate_readings E n i rds st = (ok, st') \<Longrightarrow>
     st_seen st' = st_seen st \<and> st_metrics st' = st_metrics st \<and> st_alert_rules st' = st_alert_rules st"
proof (induction E n i rds st rule: evaluate_readings.induct)
  case (2 E n i rd rds st)
  have "st_seen (snd (evaluate_reading E n i rd st)) = st_seen st \<and> st_metrics (snd (evaluate_reading E n i rd st)) = st_metrics st
      \<and> st_alert_rules (snd (evaluate_reading E n i rd st)) = st_alert_rules st"
    by (auto simp: evaluate_reading_def persist_alert_event_def Let_def split: sum.split option.split)
  then show ?case using 2
    by (cases "evaluate_reading E n i rd st"; cases "fst (evaluate_reading E n i rd st)") auto
qed simp

lemma save_metrics_frame [simp]:
  "st_seen (save_metrics_to_db E r st) = st_seen st" "st_engine (save_metrics_to_db E r st) = st_engine st"
  "st_alert_rules (save_metrics_to_db E r st) = st_alert_rules st"
  by (simp_all add: save_metrics_to_db_def Let_def split: sum.split)

lemma report_metrics_seen:
  "st_seen (snd (report_metrics E r st)) =
     (if cache_key r \<in> set (st_seen st) then st_seen st else take SEEN_CAPACITY (cache_key r # st_seen st))"
proof -
  let ?s = "save_metrics_to_db E r ((learn_node E r st)\<lparr>st_seen := take SEEN_CAPACITY (cache_key r # st_seen st)\<rparr>)"
  obtain ok s' where ev: "evaluate_alerts E r ?s = (ok, s')" by (cases "evaluate_alerts E r ?s")
  then have "st_seen s' = take SEEN_CAPACITY (cache_key r # st_seen st)"
    using evaluate_readings_frame by (fastforce simp: evaluate_alerts_def)
  then show ?thesis using ev by (cases ok) (simp_all add: report_metrics_def Let_def)
qed

definition receive :: "env \<times> node_metrics_report \<Rightarrow> app_state \<Rightarrow> app_state" where
  "receive m st = snd (report_metrics (fst m) (snd m) st)"

lemma seen_recent:
  assumes "k \<in> set (take n (st_seen st))" "n + length ms \<le> SEEN_CAPACITY"
  shows "k \<in> set (take (n + length ms) (st_seen (fold receive ms st)))"
  using assms
proof (induction ms arbitrary: n st)
  case (Cons m ms)
  have "k \<in> set (take (Suc n) (st_seen (receive m st)))"
    using Cons.prems set_take_subset_set_take [of n "Suc n" "st_seen st"]
    by (auto simp: receive_def report_metrics_seen)
  then show ?case using Cons.IH [of "Suc n" "receive m st"] Cons.prems(2) by simp
qed simp

text \<open>C14. A report is stored and evaluated at most once. When a report with the same node and sequence number
  comes again, with any content and after fewer than 100000 other reports, it is acknowledged without a
  time; the metrics, the alert engine, the alert tables and the WebSocket clients stay as they are. Only the
  liveness and the GPU count of the node are learnt from it.\<close>

theorem resent_report_ignored:
  assumes "cache_key r \<notin> set (st_seen st)" and "length ms < 100000" and "cache_key r' = cache_key r"
    and "st' = fold receive ms (receive (E, r) st)"
  shows "report_metrics E' r' st' =
      (Some \<lparr>ma_node_id = rp_node_id r', ma_sequence = rp_sequence r', ma_received_at = None\<rparr>, learn_node E' r' st') \<and>
    st_metrics (learn_node E' r' st') = st_metrics st' \<and> st_engine (learn_node E' r' st') = st_engine st' \<and>
    st_alerts (learn_node E' r' st') = st_alerts st' \<and> st_ws (learn_node E' r' st') = st_ws st'"
proof -
  have "cache_key r \<in> set (take 1 (st_seen (receive (E, r) st)))"
    using assms(1) by (simp add: receive_def report_metrics_seen SEEN_CAPACITY_def)
  from seen_recent [OF this, of ms] have "cache_key r \<in> set (st_seen st')"
    using assms(2,4) set_take_subset by (fastforce simp: SEEN_CAPACITY_def)
  then show ?thesis using assms(3) by (simp add: report_metrics_def Let_def)
qed

subsection \<open>Readings that reach the engine\<close>

lemma evaluate_reading_engine:
  assumes "kget (st_engine (snd (evaluate_reading E n i rd st))) key \<noteq> kget (st_engine st) key"
  shows "key = AlertKey (rule_id (fst rd)) n (fst (snd rd)) \<and> rule_applies (fst rd) n (fst (snd rd))"
proof (rule ccontr)
  assume no: "\<not> ?thesis"
  have "kget (st_engine (snd (evaluate_reading E n i rd st))) key = kget (st_engine st) key"
  proof (cases "rule_applies (fst rd) n (fst (snd rd))")
    case False
    then show ?thesis by (simp add: evaluate_reading_def evaluate_def)
  next
    case True
    then have "key \<noteq> AlertKey (rule_id (fst rd)) n (fst (snd rd))" using no by simp
    from evaluate_frame [OF this] show ?thesis
      by (auto simp: evaluate_reading_def persist_alert_event_def Let_def split: sum.split option.split)
  qed
  with assms show False by simp
qed

lemma evaluate_readings_engine:
  assumes "kget (st_engine (snd (evaluate_readings E n i rds st))) key \<noteq> kget (st_engine st) key"
  shows "\<exists>rd \<in> set rds. key = AlertKey (rule_id (fst rd)) n (fst (snd rd)) \<and> rule_applies (fst rd) n (fst (snd rd))"
  using assms
proof (induction E n i rds st rule: evaluate_readings.induct)
  case (2 E n i rd rds st)
  obtain ok st1 where one: "evaluate_reading E n i rd st = (ok, st1)" by (cases "evaluate_reading E n i rd st")
  then show ?case using "2.IH" "2.prems" evaluate_reading_engine [of E n i rd st key]
    by (cases ok; cases "kget (st_engine st1) key = kget (st_engine st) key") auto
qed simp

lemma rule_readings_iff:
  "(g, v) \<in> set (rule_readings r rule) \<longleftrightarrow>
     (if starts_with (rule_metric rule) ''gpu_''
      then \<exists>gpu \<in> set (rp_gpus r). g_uuid gpu = g \<and> gpu_reading (rule_metric rule) gpu = Some v
      else g = [] \<and> node_reading (rule_metric rule) r = Some v)"
  by (force simp: rule_readings_def map_filter_def split: option.splits)

lemma report_readings_iff:
  "(rule, g, v) \<in> set (report_readings r rules) \<longleftrightarrow> rule \<in> set rules \<and>
     (if starts_with (rule_metric rule) ''gpu_''
      then \<exists>gpu \<in> set (rp_gpus r). g_uuid gpu = g \<and> gpu_reading (rule_metric rule) gpu = Some v
      else g = [] \<and> node_reading (rule_metric rule) r = Some v)"
  unfolding rule_readings_iff [symmetric] by (auto simp: report_readings_def)

lemma engine_change_has_reading:
  assumes "kget (st_engine (snd (report_metrics E r st))) (AlertKey rid n g) \<noteq> kget (st_engine st) (AlertKey rid n g)"
  shows "n = rp_node_id r \<and> cache_key r \<notin> set (st_seen st) \<and>
    (\<exists>rule v. rule \<in> set (st_alert_rules st) \<and> rule_id rule = rid \<and> rule_applies rule n g \<and>
       (if starts_with (rule_metric rule) ''gpu_''
        then \<exists>gpu \<in> set (rp_gpus r). g_uuid gpu = g \<and> gpu_reading (rule_metric rule) gpu = Some v
        else g = [] \<and> node_reading (rule_metric rule) r = Some v))"
proof -
  let ?s = "save_metrics_to_db E r ((learn_node E r st)\<lparr>st_seen := take SEEN_CAPACITY (cache_key r # st_seen st)\<rparr>)"
  have new: "cache_key r \<notin> set (st_seen st)"
    using assms by (cases "cache_key r \<in> set (st_seen st)") (simp_all add: report_metrics_def Let_def)
  obtain ok s' where ev: "evaluate_alerts E r ?s = (ok, s')" by (cases "evaluate_alerts E r ?s")
  have "st_engine (snd (report_metrics E r st)) = st_engine s'"
    using ev new by (cases ok) (simp_all add: report_metrics_def Let_def)
  then obtain rd where "rd \<in> set (report_readings r (st_alert_rules st))"
      "AlertKey rid n g = AlertKey (rule_id (fst rd)) (rp_node_id r) (fst (snd rd))"
      "rule_applies (fst rd) (rp_node_id r) (fst (snd rd))"
    using evaluate_readings_engine [of E "rp_node_id r" 0 "report_readings r (st_alert_rules st)" ?s "AlertKey rid n g"]
      ev assms by (auto simp: evaluate_alerts_def)
  then show ?thesis using new report_readings_iff [of "fst rd" "fst (snd rd)" "snd (snd rd)"] by force
qed

text \<open>A report changes the state of an alert only through a reading it carries. If the entry of a key in the
  engine changes, then the report is new, the key names its node and a rule that is loaded, enabled and meant
  for this node and GPU, and the report holds a value for the metric of the rule there: a sensor that could
  not be read, a GPU that was not reported and an unknown metric leave every alert alone.\<close>

lemma only_readings_change_alerts:
  assumes "kget (st_engine (snd (report_metrics E r st))) (AlertKey rid n g) \<noteq> kget (st_engine st) (AlertKey rid n g)"
  shows "n = rp_node_id r \<and> cache_key r \<notin> set (st_seen st) \<and>
    (\<exists>rule v. rule \<in> set (st_alert_rules st) \<and> rule_id rule = rid \<and> rule_applies rule n g \<and>
       (if starts_with (rule_metric rule) ''gpu_''
        then \<exists>gpu \<in> set (rp_gpus r). g_uuid gpu = g \<and> gpu_reading (rule_metric rule) gpu = Some v
        else g = [] \<and> node_reading (rule_metric rule) r = Some v))"
  using assms by (rule engine_change_has_reading)

definition sample_report :: node_metrics_report where
  "sample_report = \<lparr>rp_node_id = ''n1'', rp_sequence = 7, rp_timestamp_ms = 0, rp_monotonic_clock_ms = 0,
     rp_cpu_usage_percent = Fin 5, rp_cpu_cores = [], rp_load_1 = Fin 1, rp_load_5 = Fin 1, rp_load_15 = Fin 1,
     rp_memory_total_bytes = 0, rp_memory_used_bytes = 0, rp_swap_total_bytes = 0, rp_swap_used_bytes = 0,
     rp_uptime_seconds = 0, rp_boot_time_seconds = 0, rp_disks = [], rp_networks = [],
     rp_gpus = [\<lparr>g_index = 0, g_uuid = ''g1'', g_name = [], g_utilization_gpu = Fin 0, g_utilization_memory = Fin 0,
        g_memory_total_bytes = None, g_memory_used_bytes = None, g_temperature_celsius = Some (Fin 90),
        g_power_watts = None, g_fan_speed_percent = None, g_mig_enabled = False\<rparr>],
     rp_gpu_processes = [], rp_cpu_processes = []\<rparr>"

theorem resent_report_ignored_witness:
  "fst (report_metrics sample_env sample_report (receive (sample_env, sample_report) sample_state)) =
     Some \<lparr>ma_node_id = ''n1'', ma_sequence = 7, ma_received_at = None\<rparr>"
  using resent_report_ignored [of sample_report sample_state "[]" sample_report
      "receive (sample_env, sample_report) sample_state" sample_env sample_env]
  by (simp add: sample_state_def) (simp add: sample_report_def)

end
