(* ===== verification/Alert_Handlers.thy ===== *)
theory Alert_Handlers
  imports Grpc_Service
begin

text \<open>
  The alert endpoints of \<open>crates/server/src/handlers.rs\<close> and the refresh of the rule cache in
  \<open>lib.rs\<close>. The lemmas follow a rule from its creation through the cache into the engine, and out of it
  again when it is deleted.
\<close>

definition alert_metrics :: "string list" where
  "alert_metrics = [''cpu_usage_percent'', ''memory_usage_percent'', ''load_1'', ''gpu_temperature'',
     ''gpu_utilization'', ''gpu_memory_used_percent'', ''gpu_power_watts'']"

definition json_or :: "string \<Rightarrow> json \<Rightarrow> json \<Rightarrow> json" where
  "json_or k d v = (case json_get k v of Some x \<Rightarrow> x | None \<Rightarrow> d)"

definition long_str :: "nat \<Rightarrow> json \<Rightarrow> bool" where
  "long_str n v \<longleftrightarrow> (case as_str v of Some s \<Rightarrow> n < length s | None \<Rightarrow> False)"

text \<open>The caps on the two free-form values of a rule.\<close>

definition gpu_uuids_ok :: "json \<Rightarrow> bool" where
  "gpu_uuids_ok v \<longleftrightarrow>
     (case as_array v of Some arr \<Rightarrow> \<not> 256 < length arr \<and> \<not> list_ex (long_str 255) arr | None \<Rightarrow> True)"

definition labels_ok :: "json \<Rightarrow> bool" where
  "labels_ok v \<longleftrightarrow>
     (case as_object v of
        Some obj \<Rightarrow> \<not> 64 < length obj \<and> \<not> list_ex (\<lambda>(k, x). 255 < length k) obj
                    \<and> \<not> list_ex (\<lambda>(k, x). long_str 4096 x) obj
      | None \<Rightarrow> True)"

definition rule_duration :: "json \<Rightarrow> int option" where
  "rule_duration req =
     (let d = (case Option.bind (json_get ''duration_seconds'' req) as_i64 of Some d \<Rightarrow> d | None \<Rightarrow> 30)
      in if - (2 ^ 31) \<le> d \<and> d < 2 ^ 31 \<and> 0 \<le> d then Some d else None)"

definition rule_threshold_of :: "json \<Rightarrow> f64" where
  "rule_threshold_of req =
     (case Option.bind (json_get ''threshold'' req) as_f64 of Some x \<Rightarrow> x | None \<Rightarrow> Fin 0)"

text \<open>The checks, each answered with 400 before any effect, and the row of a valid request.\<close>

definition request_valid :: "json \<Rightarrow> bool" where
  "request_valid req \<longleftrightarrow>
     get_str_or ''name'' [] req \<noteq> []
     \<and> \<not> (255 < length (get_str_or ''name'' [] req) \<or> 4096 < length (get_str_or ''description'' [] req))
     \<and> gpu_uuids_ok (json_or ''gpu_uuids'' (JArr []) req) \<and> labels_ok (json_or ''labels'' (JObj []) req)
     \<and> get_str_or ''operator'' ''gt'' req \<in> set [''gt'', ''gte'', ''lt'', ''lte'', ''eq'', ''neq'']
     \<and> \<not> 255 < length (get_str_or ''node_id'' [] req)
     \<and> get_str_or ''severity'' ''warning'' req \<in> set [''info'', ''warning'', ''critical'']
     \<and> get_str_or ''metric'' [] req \<in> set alert_metrics"

definition request_row :: "env \<Rightarrow> claims \<Rightarrow> json \<Rightarrow> int \<Rightarrow> alert_rule_row" where
  "request_row E cl req duration =
     \<lparr>ar_rule_id = e_fresh E ''rule_id'', ar_name = get_str_or ''name'' [] req,
      ar_description = Some (get_str_or ''description'' [] req), ar_metric = get_str_or ''metric'' [] req,
      ar_operator = get_str_or ''operator'' ''gt'' req, ar_threshold = rule_threshold_of req,
      ar_duration_seconds = duration, ar_severity = get_str_or ''severity'' ''warning'' req,
      ar_node_id = get_str_or ''node_id'' [] req, ar_gpu_uuids = json_or ''gpu_uuids'' (JArr []) req,
      ar_labels = json_or ''labels'' (JObj []) req, ar_enabled = True, ar_created_at = e_now E,
      ar_updated_at = e_now E, ar_created_by = sub cl\<rparr>"

definition rule_from_request :: "env \<Rightarrow> claims \<Rightarrow> json \<Rightarrow> alert_rule_row option" where
  "rule_from_request E cl req =
     (case rule_duration req of
        None \<Rightarrow> None
      | Some duration \<Rightarrow> if request_valid req then Some (request_row E cl req duration) else None)"

definition create_alert_rule :: "env \<Rightarrow> claims \<Rightarrow> json \<Rightarrow> app_state \<Rightarrow> string reply \<times> app_state" where
  "create_alert_rule E cl req st =
     (case rule_from_request E cl req of
        None \<Rightarrow> (Err BadRequest400, st)
      | Some row \<Rightarrow>
          if e_fault E ''insert_alert_rule'' then (Err Internal500, st)
          else case insert_alert_rule row (st_alerts st) of
                 Inl _ \<Rightarrow> (Err Internal500, st)
               | Inr A \<Rightarrow>
                   let ip = client_ip E st; st = st\<lparr>st_alerts := A\<rparr>
                   in (Ok (ar_rule_id row),
                       audit E (audit_username E cl st) ''create_alert_rule'' (Some (ar_rule_id row)) (Some ''alert_rule'')
                         (Some (''Created alert rule '' @ [CHR 0x27] @ ar_name row @ [CHR 0x27] @ '' on '' @ ar_metric row))
                         ''success'' ip st))"

definition list_alert_rules_handler :: "env \<Rightarrow> app_state \<Rightarrow> alert_rule_row list reply" where
  "list_alert_rules_handler E st =
     (if e_fault E ''list_alert_rules'' then Err Internal500 else Ok (list_alert_rules (st_alerts st)))"

definition delete_alert_rule :: "env \<Rightarrow> claims \<Rightarrow> string \<Rightarrow> app_state \<Rightarrow> unit reply \<times> app_state" where
  "delete_alert_rule E cl rid st =
     (if e_fault E ''delete_alert_rule'' then (Err Internal500, st)
      else let ip = client_ip E st;
               st = st\<lparr>st_alerts := snd (delete_alert_rule_cascade rid (st_alerts st))\<rparr>;
               st = st\<lparr>st_engine := remove_rule_instances rid (st_engine st)\<rparr>
           in (Ok (), audit E (audit_username E cl st) ''delete_alert_rule'' (Some rid) (Some ''alert_rule'')
                 (Some ''Alert rule deleted'') ''success'' ip st))"

definition get_alert_state :: "string \<Rightarrow> app_state \<Rightarrow> alert_instance list" where
  "get_alert_state rid st = filter (\<lambda>s. key_rule_id (inst_key s) = rid) (get_all_states (st_engine st))"

definition list_alert_events :: "env \<Rightarrow> app_state \<Rightarrow> alert_event_row list reply" where
  "list_alert_events E st =
     (if e_fault E ''get_active_alert_events'' then Err Internal500 else Ok (get_active_alert_events (st_alerts st)))"

definition acknowledge_alert :: "env \<Rightarrow> string \<Rightarrow> json \<Rightarrow> app_state \<Rightarrow> unit reply \<times> app_state" where
  "acknowledge_alert E rid req st =
     (let node_id = get_str_or ''node_id'' [] req; gpu_uuid = get_str_or ''gpu_uuid'' [] req
      in if 255 < length node_id \<or> 255 < length gpu_uuid then (Err BadRequest400, st)
         else
           let key = AlertKey rid node_id gpu_uuid;
               (current_value, threshold) =
                 (case find (\<lambda>s. inst_key s = key) (get_all_states (st_engine st)) of
                    Some s \<Rightarrow> (inst_current_value s, inst_threshold s) | None \<Rightarrow> (None, Fin 0));
               st = st\<lparr>st_engine := reset_state key (st_engine st)\<rparr>;
               row = \<lparr>ae_event_id = e_fresh E ''event_id'', ae_rule_id = rid, ae_node_id = node_id,
                 ae_gpu_uuid = gpu_uuid, ae_old_state = Some ''firing'', ae_new_state = ''resolved'',
                 ae_current_value = current_value, ae_threshold = threshold,
                 ae_notification_sent = Some ''acknowledged'', ae_timestamp = e_now E\<rparr>
           in if e_fault E ''insert_alert_event'' then (Err Internal500, st)
              else case insert_alert_event row (st_alerts st) of
                     Inl _ \<Rightarrow> (Err Internal500, st)
                   | Inr A \<Rightarrow> (Ok (), st\<lparr>st_alerts := A\<rparr>))"

definition refresh_alert_rules :: "env \<Rightarrow> app_state \<Rightarrow> app_state" where
  "refresh_alert_rules E st =
     (if e_fault E ''list_alert_rules'' then st
      else st\<lparr>st_alert_rules := List.map_filter alert_rule_from_row (list_alert_rules (st_alerts st))\<rparr>)"

subsection \<open>From the request to the engine\<close>

lemma rule_from_request_valid:
  assumes "rule_from_request E cl req = Some row"
  shows "\<exists>rule. alert_rule_from_row row = Some rule \<and> rule_id rule = e_fresh E ''rule_id'' \<and> rule_enabled rule \<and>
    rule_metric rule \<in> set alert_metrics \<and> rule_threshold rule = rule_threshold_of req \<and>
    rule_duration req = Some (int (unat (rule_duration_seconds rule))) \<and>
    rule_node_id rule = get_str_or ''node_id'' [] req \<and>
    rule_gpu_uuids rule = strings_of (json_or ''gpu_uuids'' (JArr []) req)"
proof -
  obtain d where d: "rule_duration req = Some d" "request_valid req" "row = request_row E cl req d"
    using assms by (auto simp: rule_from_request_def split: option.splits if_splits)
  then have "0 \<le> d" "d < 2 ^ 31" by (auto simp: rule_duration_def Let_def split: if_splits)
  then have u: "int (unat (i64_as_u64 d)) = d" using unat_i64_as_u64_nonneg [of d] by simp
  have row: "ar_operator row \<in> set [''gt'', ''gte'', ''lt'', ''lte'', ''eq'', ''neq'']" "ar_metric row \<in> set alert_metrics"
    using d(2,3) by (simp_all only: request_valid_def request_row_def alert_rule_row.simps)
  have more: "ar_rule_id row = e_fresh E ''rule_id''" "ar_enabled row" "ar_threshold row = rule_threshold_of req"
    "ar_duration_seconds row = d" "ar_node_id row = get_str_or ''node_id'' [] req"
    "ar_gpu_uuids row = json_or ''gpu_uuids'' (JArr []) req"
    using d(3) by (simp_all add: request_row_def)
  obtain op where "alert_rule_from_row row = Some \<lparr>rule_id = ar_rule_id row, rule_name = ar_name row,
      rule_description = (case ar_description row of Some d \<Rightarrow> d | None \<Rightarrow> []), rule_metric = ar_metric row,
      rule_operator = op, rule_threshold = ar_threshold row,
      rule_duration_seconds = i64_as_u64 (max (ar_duration_seconds row) 0),
      rule_severity = (if ar_severity row = ''info'' then Info else if ar_severity row = ''critical'' then Critical else Warning),
      rule_node_id = ar_node_id row, rule_gpu_uuids = strings_of (ar_gpu_uuids row),
      rule_labels = string_map_of (ar_labels row), rule_enabled = ar_enabled row,
      rule_created_at = ar_created_at row, rule_updated_at = ar_updated_at row, rule_created_by = ar_created_by row\<rparr>"
    using row(1) by (auto simp: alert_rule_from_row_def Let_def)
  then show ?thesis using row(2) more d(1) u \<open>0 \<le> d\<close> by (simp add: max_absorb1)
qed

lemma create_alert_rule_Ok:
  assumes "create_alert_rule E cl req st = (Ok rid, st')"
  shows "\<exists>row. rule_from_request E cl req = Some row \<and> rid = ar_rule_id row \<and> adb_rules (st_alerts st') = adb_rules (st_alerts st) @ [row]"
  using assms
  by (auto simp: create_alert_rule_def insert_alert_rule_def Let_def split: option.splits if_splits sum.splits)



subsection \<open>Deletion\<close>

lemma learn_save_alerts [simp]:
  "st_alerts (save_metrics_to_db E r st) = st_alerts st" "st_alerts (learn_node E r st) = st_alerts st"
  by (simp_all add: save_metrics_to_db_def learn_node_def Let_def split: sum.split)

lemma insert_event_rules: "insert_alert_event e A = Inr A' \<Longrightarrow> adb_rules A' = adb_rules A \<and>
    adb_events A' = adb_events A @ [e] \<and> ae_rule_id e \<in> ar_rule_id ` set (adb_rules A)"
  by (auto simp: insert_alert_event_def split: if_splits)

definition no_events_of :: "string \<Rightarrow> app_state \<Rightarrow> bool" where
  "no_events_of rid st \<longleftrightarrow> rid \<notin> ar_rule_id ` set (adb_rules (st_alerts st)) \<and>
     (\<forall>e \<in> set (adb_events (st_alerts st)). ae_rule_id e \<noteq> rid)"

lemma evaluate_readings_no_events:
  "no_events_of rid st \<Longrightarrow> no_events_of rid (snd (evaluate_readings E n i rds st))"
proof (induction E n i rds st rule: evaluate_readings.induct)
  case (2 E n i rd rds st)
  have "no_events_of rid (snd (evaluate_reading E n i rd st))"
    using "2.prems"
    by (auto simp: no_events_of_def evaluate_reading_def persist_alert_event_def Let_def dest!: insert_event_rules
        split: sum.split option.split)
  then show ?case using "2.IH"
    by (cases "evaluate_reading E n i rd st"; cases "fst (evaluate_reading E n i rd st)") auto
qed simp

lemma receive_frame:
  "no_events_of rid st \<Longrightarrow> no_events_of rid (receive m st) \<and> st_alert_rules (receive m st) = st_alert_rules st"
proof -
  obtain E r where m: "m = (E, r)" by (cases m)
  let ?s = "save_metrics_to_db E r ((learn_node E r st)\<lparr>st_seen := take SEEN_CAPACITY (cache_key r # st_seen st)\<rparr>)"
  obtain ok s' where ev: "evaluate_alerts E r ?s = (ok, s')" by (cases "evaluate_alerts E r ?s")
  assume a: "no_events_of rid st"
  then have "no_events_of rid ?s" by (simp add: no_events_of_def)
  then have "no_events_of rid s'" using evaluate_readings_no_events ev unfolding evaluate_alerts_def by (metis snd_conv)
  moreover have "st_alert_rules s' = st_alert_rules st"
    using ev evaluate_readings_frame [of E "rp_node_id r" 0 _ ?s ok s'] by (simp add: evaluate_alerts_def)
  ultimately show ?thesis using ev a m
    by (cases ok) (simp_all add: receive_def report_metrics_def Let_def no_events_of_def)
qed

definition forgotten :: "string \<Rightarrow> app_state \<Rightarrow> bool" where
  "forgotten rid st \<longleftrightarrow> no_events_of rid st \<and> (\<forall>rule \<in> set (st_alert_rules st). rule_id rule \<noteq> rid) \<and>
     (\<forall>n g. kget (st_engine st) (AlertKey rid n g) = None)"

lemma receive_forgotten: "forgotten rid st \<Longrightarrow> forgotten rid (receive m st)"
proof -
  assume a: "forgotten rid st"
  have "kget (st_engine (receive m st)) (AlertKey rid n g) = kget (st_engine st) (AlertKey rid n g)" for n g
    using engine_change_has_reading [of "fst m" "snd m" st rid n g] a unfolding forgotten_def receive_def by blast
  then show ?thesis using a receive_frame [of rid st m] by (simp add: forgotten_def)
qed

lemma kget_removed: "kget (kretain (\<lambda>key _. key_rule_id key \<noteq> rid) eng) (AlertKey rid n g) = None"
  unfolding kretain_def kget_def by (induction eng) auto

lemma delete_refresh_forgotten:
  assumes "delete_alert_rule E cl rid st = (Ok (), st')" "\<not> e_fault E' ''list_alert_rules''"
  shows "forgotten rid (refresh_alert_rules E' st')"
proof -
  have st': "st_alerts st' = snd (delete_alert_rule_cascade rid (st_alerts st))"
    "st_engine st' = remove_rule_instances rid (st_engine st)"
    using assms(1) by (auto simp: delete_alert_rule_def Let_def split: if_splits)
  have "rule_id rule = ar_rule_id row" if "alert_rule_from_row row = Some rule" for row rule
    using that by (auto simp: alert_rule_from_row_def Let_def split: option.splits)
  moreover have "ar_rule_id row \<noteq> rid" if "row \<in> set (list_alert_rules (st_alerts st'))" for row
    using that by (simp add: st' list_alert_rules_def delete_alert_rule_cascade_def delete_where_def)
  ultimately have "\<forall>rule \<in> set (st_alert_rules (refresh_alert_rules E' st')). rule_id rule \<noteq> rid"
    using assms(2) by (fastforce simp: refresh_alert_rules_def map_filter_def)
  moreover have "kget (st_engine st') (AlertKey rid n g) = None" for n g
    unfolding st' remove_rule_instances_def by (rule kget_removed)
  ultimately show ?thesis
    by (auto simp: forgotten_def no_events_of_def refresh_alert_rules_def st' delete_alert_rule_cascade_def delete_where_def)
qed

text \<open>A deleted rule stays deleted. Once the cache has been refreshed after the deletion, no sequence of
  reports brings back an instance of the rule in the engine or an event of it in the database. (Between the
  deletion and the refresh the cached rule is still evaluated.)\<close>

lemma deleted_rule_stays_gone:
  assumes "delete_alert_rule E cl rid st = (Ok (), st')" and "\<not> e_fault E' ''list_alert_rules''"
  shows "(\<forall>n g. get_state (AlertKey rid n g) (st_engine (fold receive ms (refresh_alert_rules E' st'))) = None) \<and>
    (\<forall>e \<in> set (adb_events (st_alerts (fold receive ms (refresh_alert_rules E' st')))). ae_rule_id e \<noteq> rid)"
proof -
  have "forgotten rid (fold receive ms (refresh_alert_rules E' st'))"
    using delete_refresh_forgotten [OF assms] by (induction ms rule: rev_induct) (auto intro: receive_forgotten)
  then show ?thesis by (simp add: forgotten_def no_events_of_def get_state_def)
qed

end
