(* ===== verification/Background.thy ===== *)
theory Background
  imports Alert_Handlers
begin

text \<open>
  The server's own activity in \<open>crates/server/src/lib.rs\<close>: the start that restores the scheduler from the
  database, the scheduling cycle and the ten second tick with its maintenance statements. A tick is handled from
  one reading of the clock.
\<close>

definition job_row_to_job :: "string job_row \<Rightarrow> job option" where
  "job_row_to_job row = Some
     \<lparr>job_id = jr_job_id row, job_node_id = jr_node_id row, job_name = jr_name row,
      job_executable = jr_executable row, job_arguments = strings_of (jr_arguments row),
      job_working_directory = jr_working_directory row, job_environment = string_map_of (jr_environment row),
      job_state = (case status_from_str (jr_status row) of Some s \<Rightarrow> s | None \<Rightarrow> Queued),
      job_pid = map_option (\<lambda>p. unat (i32_as_u32 p)) (jr_pid row), job_exit_code = jr_exit_code row,
      job_error_message = jr_error_message row, job_created_at = jr_created_at row,
      job_started_at = jr_started_at row, job_finished_at = jr_finished_at row, job_created_by = jr_created_by row,
      job_resource_quota = (case jr_resource_quota row of Some q \<Rightarrow> q | None \<Rightarrow> []),
      job_retry_count = unat (i32_as_u32 (jr_retry_count row)),
      job_max_retries = unat (i32_as_u32 (jr_max_retries row))\<rparr>"

subsection \<open>Start\<close>

text \<open>The state that \<open>run\<close> builds over the database it finds.\<close>

definition startup :: "env \<Rightarrow> app_state \<Rightarrow> app_state" where
  "startup E st =
     (let cfg = st_config st;
          scheduler =
            (if e_fault E ''list_active_jobs'' then scheduler_new
             else restore_running (List.map_filter job_row_to_job (list_active_jobs (st_jobs st))) scheduler_new)
      in st\<lparr>st_jwt_secret := sc_jwt_secret cfg, st_limiter := limiter_new, st_ws := ws_new, st_engine := [],
            st_alert_rules := [],
            st_registry := with_thresholds
              \<lparr>online_secs = sc_node_online_threshold_secs cfg, degraded_secs = sc_node_degraded_threshold_secs cfg,
               offline_secs = sc_node_offline_threshold_secs cfg\<rparr>,
            st_sched := scheduler, st_seen := []\<rparr>)"

subsection \<open>Scheduling cycle\<close>

definition refresh_capacity :: "app_state \<Rightarrow> app_state" where
  "refresh_capacity st =
     st\<lparr>st_sched := fold (\<lambda>n. set_node_gpu_capacity (ne_node_id n) (if ne_status n = Online then ne_gpu_count n else 0))
          (registry_list (st_registry st)) (st_sched st)\<rparr>"

definition requeue_stale :: "env \<Rightarrow> app_state \<Rightarrow> app_state" where
  "requeue_stale E st =
     (let online = map ne_node_id (list_online (st_registry st))
      in if e_fault E ''reset_stale_starting_jobs'' then st
         else let (ids, t) = reset_stale_starting_jobs (e_now E - minutes 10) online (st_jobs st)
              in st\<lparr>st_jobs := t, st_sched := fold (\<lambda>i S. snd (drop_job i (remove_running i S))) ids (st_sched st)\<rparr>)"

definition push_update :: "env \<Rightarrow> string \<Rightarrow> app_state \<Rightarrow> app_state" where
  "push_update E jid st = st\<lparr>st_ws := push_job_update (e_to_string E) jid (st_ws st)\<rparr>"

text \<open>The loop over jobs that were declared lost.\<close>

definition retire :: "env \<Rightarrow> string list \<Rightarrow> app_state \<Rightarrow> app_state" where
  "retire E ids st =
     fold (\<lambda>i st. push_update E i (st\<lparr>st_sched := complete_job i Lost (st_sched st)\<rparr>)) ids st"

definition presumed_lost :: string where
  "presumed_lost = ''node offline '' @ [CHR 0xE2, CHR 0x80, CHR 0x94] @ '' job presumed lost''"

definition recycle_dead_nodes :: "env \<Rightarrow> app_state \<Rightarrow> app_state" where
  "recycle_dead_nodes E st =
     (let dead = map ne_node_id (filter (\<lambda>n. ne_status n = Offline \<and> ne_last_seen n < e_now E - minutes 10)
                   (registry_list (st_registry st)))
      in if dead = [] \<or> e_fault E ''mark_lost_jobs_on_nodes'' then st
         else let (ids, t) = mark_lost_jobs_on_nodes (e_now E) dead presumed_lost (st_jobs st)
              in retire E ids (st\<lparr>st_jobs := t\<rparr>))"

definition load_queue :: "env \<Rightarrow> app_state \<Rightarrow> app_state" where
  "load_queue E st =
     (if e_fault E ''list_queued_jobs'' then st
      else st\<lparr>st_sched := fold (\<lambda>row S. case job_row_to_job row of Some j \<Rightarrow> snd (enqueue j S) | None \<Rightarrow> S)
                (list_queued_jobs_for_scheduling (st_jobs st)) (st_sched st)\<rparr>)"

definition dispatch :: "env \<Rightarrow> job \<Rightarrow> app_state \<Rightarrow> app_state" where
  "dispatch E j st =
     push_update E (job_id j)
       (case (if e_fault E (''assign '' @ job_id j) then Inl Unavailable
              else assign_job_to_node (st_node_ids st) (e_now E) (job_id j) (job_node_id j) (st_jobs st)) of
          Inr (True, t) \<Rightarrow> push_update E (job_id j) (st\<lparr>st_jobs := t\<rparr>)
        | Inr (False, t) \<Rightarrow> st\<lparr>st_jobs := t, st_sched := snd (drop_job (job_id j) (st_sched st))\<rparr>
        | Inl _ \<Rightarrow> st\<lparr>st_sched := snd (drop_job (job_id j) (st_sched st))\<rparr>)"

definition run_scheduler_cycle :: "env \<Rightarrow> app_state \<Rightarrow> app_state" where
  "run_scheduler_cycle E st =
     (let st = load_queue E (recycle_dead_nodes E (requeue_stale E (refresh_capacity st)));
          (scheduled, S) = schedule (st_sched st)
      in fold (dispatch E) scheduled (st\<lparr>st_sched := S\<rparr>))"

subsection \<open>The tick\<close>

definition expire_alerts :: "env \<Rightarrow> app_state \<Rightarrow> app_state" where
  "expire_alerts E st =
     (if e_fault E ''expire_stale_alerts'' then st
      else case expire_stale_alerts (\<lambda>i. e_fresh E (''expired '' @ show_nat i)) (e_now E) (e_now E - minutes 10)
                  (st_alerts st) of
             Inl _ \<Rightarrow> st
           | Inr (keys, A) \<Rightarrow> st\<lparr>st_alerts := A, st_engine := fold reset_state keys (st_engine st)\<rparr>)"

definition reap_stopping :: "env \<Rightarrow> app_state \<Rightarrow> app_state" where
  "reap_stopping E st =
     (if e_fault E ''reset_stale_stopping_jobs'' then st
      else let (ids, t) = reset_stale_stopping_jobs (e_now E) (e_now E - minutes 10) (st_jobs st)
           in retire E ids (st\<lparr>st_jobs := t\<rparr>))"

definition reap_running :: "env \<Rightarrow> app_state \<Rightarrow> app_state" where
  "reap_running E st =
     (let dead = map ne_node_id (filter (\<lambda>n. ne_last_seen n < e_now E - minutes 10) (registry_list (st_registry st)))
      in if dead = [] \<or> e_fault E ''mark_running_jobs_lost'' then st
         else let (ids, t) = mark_running_jobs_lost (e_now E) dead (st_jobs st)
              in retire E ids (st\<lparr>st_jobs := t\<rparr>))"

text \<open>The statements of the hour and of the day, each skipped when it fails; the rollups come first.\<close>

definition unless_fault :: "env \<Rightarrow> string \<Rightarrow> (app_state \<Rightarrow> app_state) \<Rightarrow> app_state \<Rightarrow> app_state" where
  "unless_fault E what f st = (if e_fault E what then st else f st)"

definition hourly_tasks :: "postgres \<Rightarrow> env \<Rightarrow> app_state \<Rightarrow> app_state" where
  "hourly_tasks P E st =
     (let now = e_now E;
          st = unless_fault E ''aggregate_to_hourly''
            (\<lambda>st. case aggregate_to_hourly P now (st_metrics st) (st_hourly st) of
               Inl _ \<Rightarrow> st | Inr t \<Rightarrow> st\<lparr>st_hourly := t\<rparr>) st;
          st = unless_fault E ''cleanup_hourly_data'' (\<lambda>st. st\<lparr>st_hourly := snd (cleanup_rollups now 7 (st_hourly st))\<rparr>) st;
          st = unless_fault E ''prune_old_job_logs''
            (\<lambda>st. st\<lparr>st_logs := snd (prune_old_job_logs (now - days 30) (st_logs st))\<rparr>) st;
          st = unless_fault E ''prune_old_alert_events''
            (\<lambda>st. st\<lparr>st_alerts := prune_old_alert_events now (st_alerts st)\<rparr>) st;
          st = unless_fault E ''prune_old_audit_logs'' (\<lambda>st. st\<lparr>st_audit := prune_old_audit_logs now (st_audit st)\<rparr>) st
      in unless_fault E ''prune_refresh_tokens'' (\<lambda>st. st\<lparr>st_tokens := prune_refresh_tokens now (st_tokens st)\<rparr>) st)"

definition daily_tasks :: "postgres \<Rightarrow> env \<Rightarrow> app_state \<Rightarrow> app_state" where
  "daily_tasks P E st =
     (let now = e_now E;
          st = unless_fault E ''aggregate_to_daily''
            (\<lambda>st. case aggregate_to_daily P now (st_hourly st) (st_daily st) of
               Inl _ \<Rightarrow> st | Inr t \<Rightarrow> st\<lparr>st_daily := t\<rparr>) st
      in unless_fault E ''cleanup_daily_data'' (\<lambda>st. st\<lparr>st_daily := snd (cleanup_rollups now 90 (st_daily st))\<rparr>) st)"

definition background_tick ::
  "postgres \<Rightarrow> env \<Rightarrow> nat \<Rightarrow> app_state \<Rightarrow> app_state" where
  "background_tick P E cycle st =
     (let st = st\<lparr>st_registry := check_node_status (e_now E) (st_registry st)\<rparr>;
          st = prune_login_attempts (e_now E) st;
          st = unless_fault E ''prune_old_metrics'' (\<lambda>st. st\<lparr>st_metrics := prune_old_metrics (e_now E) (st_metrics st)\<rparr>) st;
          st = run_scheduler_cycle E st;
          st = refresh_alert_rules E st;
          st = (if cycle mod 12 = 0 then expire_alerts E st else st);
          st = reap_stopping E st;
          st = reap_running E st;
          st = (if cycle mod 60 = 0 then hourly_tasks P E st else st)
      in if cycle mod 360 = 0 then daily_tasks P E st else st)"

end
