(* ===== verification/Dispatch.thy ===== *)
theory Dispatch
  imports Background
begin

text \<open>
  The scheduler and the database together. The running set of the scheduler is only memory; these lemmas
  show that it mirrors the active rows of the \<open>jobs\<close> table through every request, report, tick and restart,
  and so that the GPU accounting of the scheduler bounds what the database has on every node.
\<close>

definition active_row :: "stored_job \<Rightarrow> bool" where
  "active_row r \<longleftrightarrow> jr_status r \<in> {''starting'', ''running'', ''stopping''}"

definition row_quota :: "stored_job \<Rightarrow> string" where
  "row_quota r = (case jr_resource_quota r of Some q \<Rightarrow> q | None \<Rightarrow> [])"

text \<open>A row and the entry of the running set under its identifier.\<close>

definition holds_slot :: "stored_job \<Rightarrow> job option \<Rightarrow> bool" where
  "holds_slot r jo \<longleftrightarrow> (\<exists>j. jo = Some j \<and> jr_node_id r = Some (job_node_id j) \<and> job_resource_quota j = row_quota r)"

definition slot_ok :: "stored_job option \<Rightarrow> job option \<Rightarrow> bool" where
  "slot_ok ro jo \<longleftrightarrow>
     (case ro of None \<Rightarrow> jo = None | Some r \<Rightarrow> if active_row r then holds_slot r jo else jo = None)"

definition known_job :: "job_table \<Rightarrow> job \<Rightarrow> bool" where
  "known_job t j \<longleftrightarrow> (\<exists>r. find_by jr_job_id (job_id j) t = Some r \<and> job_resource_quota j = row_quota r)"

definition mirror :: "job_table \<Rightarrow> scheduler \<Rightarrow> bool" where
  "mirror t S \<longleftrightarrow> distinct (map jr_job_id t) \<and> sched_wf S \<and>
     (\<forall>k. slot_ok (find_by jr_job_id k t) (kget (sch_running S) k)) \<and> (\<forall>j \<in> set (sch_queue S). known_job t j)"

lemma mirror_fresh: "mirror [] scheduler_new"
proof -
  have "sched_wf scheduler_new" by (simp add: sched_wf_def ready_def keyed_by_id_def scheduler_new_def km.get_emp gpu_demand_def)
  then show ?thesis by (simp add: mirror_def slot_ok_def) (simp add: scheduler_new_def km.get_emp)
qed

lemma mirror_slot: "mirror t S \<Longrightarrow> slot_ok (find_by jr_job_id k t) (kget (sch_running S) k)"
  by (simp add: mirror_def)

text \<open>The rule for statements that update rows, with the entries of the running set that are removed
  along with them.\<close>

lemma mirror_update:
  assumes "mirror t S" and "sched_wf S'" and "set (sch_queue S') \<subseteq> set (sch_queue S)"
    and f: "\<And>r. jr_job_id (f r) = jr_job_id r" "\<And>r. jr_resource_quota (f r) = jr_resource_quota r"
    and hit: "\<And>r. r \<in> set t \<Longrightarrow> P r \<Longrightarrow> slot_ok (Some r) (kget (sch_running S) (jr_job_id r)) \<Longrightarrow>
      slot_ok (Some (f r)) (kget (sch_running S') (jr_job_id r))"
    and miss: "\<And>r. r \<in> set t \<Longrightarrow> \<not> P r \<Longrightarrow> slot_ok (Some r) (kget (sch_running S) (jr_job_id r)) \<Longrightarrow>
      slot_ok (Some r) (kget (sch_running S') (jr_job_id r))"
    and none: "\<And>k. kget (sch_running S) k = None \<Longrightarrow> kget (sch_running S') k = None"
  shows "mirror (update_where P f t) S'"
proof -
  have "slot_ok (find_by jr_job_id k (update_where P f t)) (kget (sch_running S') k)" for k
  proof (cases "find_by jr_job_id k t")
    case None
    then have "kget (sch_running S) k = None" using mirror_slot [OF assms(1), of k] by (simp add: slot_ok_def)
    then show ?thesis using None none [of k] f(1) by (simp add: find_by_update slot_ok_def)
  next
    case (Some r)
    then have r: "r \<in> set t" "jr_job_id r = k" using find_by_Some by fastforce+
    moreover have "slot_ok (Some r) (kget (sch_running S) k)" using mirror_slot [OF assms(1), of k] Some by simp
    ultimately show ?thesis using Some f(1) hit [of r] miss [of r] by (simp add: find_by_update)
  qed
  moreover have "known_job (update_where P f t) j" if mem: "j \<in> set (sch_queue S')" for j
  proof -
    obtain r where "find_by jr_job_id (job_id j) t = Some r" "job_resource_quota j = row_quota r"
      using mem assms(1,3) unfolding mirror_def known_job_def by blast
    then show ?thesis using f by (simp add: known_job_def find_by_update row_quota_def)
  qed
  moreover have "distinct (map jr_job_id (update_where P f t))"
    using assms(1) f(1) by (simp add: mirror_def map_update_where)
  ultimately show ?thesis using assms(2) by (simp add: mirror_def)
qed

text \<open>Statements that leave the scheduler alone.\<close>

lemma mirror_update_same:
  assumes "mirror t S" and f: "\<And>r. jr_job_id (f r) = jr_job_id r" "\<And>r. jr_resource_quota (f r) = jr_resource_quota r"
    "\<And>r. r \<in> set t \<Longrightarrow> P r \<Longrightarrow> active_row (f r) = active_row r" "\<And>r. r \<in> set t \<Longrightarrow> P r \<Longrightarrow> jr_node_id (f r) = jr_node_id r"
  shows "mirror (update_where P f t) S"
  using assms(1) by (rule mirror_update) (use assms in \<open>auto simp: mirror_def slot_ok_def holds_slot_def row_quota_def\<close>)

text \<open>Statements after which the changed rows are no longer active, with their entries dropped.\<close>

definition forget :: "string list \<Rightarrow> scheduler \<Rightarrow> scheduler" where
  "forget ids S = fold (\<lambda>i S. S\<lparr>sch_running := kdel i (sch_running S)\<rparr>) ids S"

lemma forget_get: "kget (sch_running (forget ids S)) k = (if k \<in> set ids then None else kget (sch_running S) k)"
  unfolding forget_def by (induction ids arbitrary: S) (auto simp: store_simps)

lemma forget_frame [simp]: "sch_queue (forget ids S) = sch_queue S" "sch_capacity (forget ids S) = sch_capacity S"
  unfolding forget_def by (induction ids arbitrary: S) auto

lemma forget_wf: "sched_wf S \<Longrightarrow> sched_wf (forget ids S)"
  unfolding forget_def by (induction ids arbitrary: S) (auto intro: sched_wf_forget)

lemma mirror_deactivate:
  assumes "mirror t S" and f: "\<And>r. jr_job_id (f r) = jr_job_id r" "\<And>r. jr_resource_quota (f r) = jr_resource_quota r"
    "\<And>r. P r \<Longrightarrow> \<not> active_row (f r)"
  shows "mirror (update_where P f t) (forget (map jr_job_id (select_where P t)) S)"
proof (rule mirror_update [OF assms(1)])
  have d: "distinct (map jr_job_id t)" using assms(1) by (simp add: mirror_def)
  show "sched_wf (forget (map jr_job_id (select_where P t)) S)" using assms(1) forget_wf by (simp add: mirror_def)
  show "slot_ok (Some r) (kget (sch_running (forget (map jr_job_id (select_where P t)) S)) (jr_job_id r))"
    if "r \<in> set t" "\<not> P r" "slot_ok (Some r) (kget (sch_running S) (jr_job_id r))" for r
    using that d by (auto simp: forget_get select_where_def dest: inj_onD [OF distinct_map [THEN iffD1, THEN conjunct2]])
  show "slot_ok (Some (f r)) (kget (sch_running (forget (map jr_job_id (select_where P t)) S)) (jr_job_id r))"
    if "r \<in> set t" "P r" for r
    using that f(3) by (simp add: forget_get select_where_def slot_ok_def)
qed (use f in \<open>auto simp: forget_get\<close>)

lemma mirror_insert:
  assumes "mirror t S" "jr_job_id r \<notin> jr_job_id ` set t" "\<not> active_row r"
  shows "mirror (t @ [r]) S"
proof -
  have n: "find_by jr_job_id (jr_job_id r) t = None" using assms(2) by (simp add: find_by_None)
  have "slot_ok (find_by jr_job_id k (t @ [r])) (kget (sch_running S) k)" for k
    using assms(1,3) n unfolding mirror_def by (cases "k = jr_job_id r") (fastforce simp: find_by_append slot_ok_def split: option.splits)+
  moreover have "known_job (t @ [r]) j" if "j \<in> set (sch_queue S)" for j
    using that assms(1) by (auto simp: mirror_def known_job_def find_by_append)
  ultimately show ?thesis using assms(1,2) by (simp add: mirror_def)
qed

subsection \<open>Requests and reports\<close>

abbreviation in_step :: "app_state \<Rightarrow> bool" where
  "in_step st \<equiv> mirror (st_jobs st) (st_sched st)"

lemma insert_job_row:
  assumes "insert_job node_ids j t = Inr t'" "jr_status j = ''queued''"
  obtains r where "t' = t @ [r]" "jr_job_id r \<notin> jr_job_id ` set t" "\<not> active_row r"
  using assms that by (auto simp: insert_job_def active_row_def with_node_def split: if_splits)

lemma create_job_in_step: "in_step st \<Longrightarrow> in_step (snd (create_job E cl req st))"
  by (auto simp: create_job_def audit_job_rejection_def submitted_row_def Let_def split: sum.split
      elim!: insert_job_row intro!: mirror_insert)

lemma submit_job_in_step: "in_step st \<Longrightarrow> in_step (snd (submit_job E d st))"
  by (auto simp: submit_job_def submission_row_def split: sum.split elim!: insert_job_row intro!: mirror_insert)

lemma mark_stopping_in_step: "mirror t S \<Longrightarrow> mirror (snd (mark_stopping_if_active jid t)) S"
  by (auto simp: mark_stopping_if_active_def active_job_def stopping_effect_def active_row_def intro!: mirror_update_same)

lemma mark_force_in_step: "mirror t S \<Longrightarrow> mirror (mark_force_cancel jid t) S"
  by (auto simp: mark_force_cancel_def active_row_def intro!: mirror_update_same)

lemma stop_active_in_step: "mirror t S \<Longrightarrow> mirror (snd (stop_active_job E jid force t)) S"
  using mark_stopping_in_step [of t S jid] mark_force_in_step [of "snd (mark_stopping_if_active jid t)" S jid]
  by (auto simp: stop_active_job_def split: prod.split bool.split)

lemma forget_one: "forget [i] S = S\<lparr>sch_running := kdel i (sch_running S)\<rparr>"
  by (simp add: forget_def)

lemma mirror_queue_subset:
  "mirror t S \<Longrightarrow> sched_wf S' \<Longrightarrow> sch_running S' = sch_running S \<Longrightarrow> set (sch_queue S') \<subseteq> set (sch_queue S) \<Longrightarrow> mirror t S'"
  by (auto simp: mirror_def)

text \<open>A statement on the rows of one job that leaves them inactive.\<close>

lemma mirror_deactivate_one:
  assumes "mirror t S" "\<And>r. jr_job_id (f r) = jr_job_id r" "\<And>r. jr_resource_quota (f r) = jr_resource_quota r"
    "\<And>r. P r \<Longrightarrow> \<not> active_row (f r)" "\<And>r. P r \<Longrightarrow> jr_job_id r = jid"
    "\<And>r. r \<in> set t \<Longrightarrow> jr_job_id r = jid \<Longrightarrow> P r \<or> \<not> active_row r"
  shows "mirror (update_where P f t) (forget [jid] S)"
proof (rule mirror_update [OF assms(1)])
  show "slot_ok (Some r) (kget (sch_running (forget [jid] S)) (jr_job_id r))"
    if "r \<in> set t" "\<not> P r" "slot_ok (Some r) (kget (sch_running S) (jr_job_id r))" for r
    using that assms(6) [of r] by (auto simp: forget_get slot_ok_def)
qed (use assms in \<open>auto simp: forget_get slot_ok_def forget_wf mirror_def\<close>)

lemma cancel_queued_in_step:
  assumes "mirror t S" "fst (cancel_queued_job now jid t)"
  shows "mirror (snd (cancel_queued_job now jid t)) (snd (drop_job jid (snd (remove_queued jid S))))"
proof -
  have d: "distinct (map jr_job_id t)" using assms(1) by (simp add: mirror_def)
  obtain q where q: "q \<in> set t" "queued_job jid q" using assms(2) by (auto simp: cancel_queued_job_def rows_affected_pos)
  have "P" if "r \<in> set t" "jr_job_id r = jid" "\<not> queued_job jid r" for r P
    using that q d by (auto simp: queued_job_def dest: inj_onD [OF distinct_map [THEN iffD1, THEN conjunct2]])
  then have "mirror (update_where (queued_job jid) (cancel_effect now) t) (forget [jid] S)"
    using assms(1) by (intro mirror_deactivate_one) (auto simp: queued_job_def cancel_effect_def active_row_def)
  moreover have "sched_wf (snd (remove_queued jid (forget [jid] S)))"
    using assms(1) by (intro sched_wf_dequeue forget_wf) (simp add: mirror_def)
  ultimately have "mirror (update_where (queued_job jid) (cancel_effect now) t) (snd (remove_queued jid (forget [jid] S)))"
    by (rule mirror_queue_subset) (auto simp: remove_queued_def Let_def)
  moreover have "snd (remove_queued jid (forget [jid] S)) = snd (drop_job jid (snd (remove_queued jid S)))"
    by (simp add: remove_queued_def drop_job_def forget_one Let_def)
  ultimately show ?thesis by (simp add: cancel_queued_job_def)
qed

lemma stop_row_in_step: "in_step st \<Longrightarrow> in_step (snd (stop_row E jid force row st))"
proof -
  assume m: "in_step st"
  have "\<not> fst (cancel_queued_job (e_now E) jid (st_jobs st)) \<Longrightarrow> snd (cancel_queued_job (e_now E) jid (st_jobs st)) = st_jobs st"
    by (auto simp: cancel_queued_job_def rows_affected_0 intro: update_where_idle)
  then show ?thesis
    using m stop_active_in_step [OF m, of E jid force] cancel_queued_in_step [OF m, of "e_now E" jid]
    by (auto simp: stop_row_def split_beta Let_def split: prod.split bool.split)
qed

lemma stop_job_in_step: "in_step st \<Longrightarrow> in_step (snd (stop_job E cl jid ps st))"
  using stop_row_in_step [of st E jid "is_forced ps"]
  by (auto simp: stop_job_def Let_def split: option.split prod.split sum.split) (metis snd_conv)+

lemma cancel_rpc_in_step: "in_step st \<Longrightarrow> in_step (snd (cancel_job_rpc E jid st))"
proof -
  assume m: "in_step st"
  have d: "distinct (map jr_job_id (st_jobs st))" using m by (simp add: mirror_def)
  have "mirror (update_job_status jid ''stopping'' None None None None None (st_jobs st)) (st_sched st)"
    if got: "get_job jid (st_jobs st) = Some row" "jr_status row \<in> {''starting'', ''running'', ''stopping''}" for row
  proof -
    obtain r where r: "find_by jr_job_id jid (st_jobs st) = Some r" "row = fetched r" using get_job_Some [OF got(1)] by metis
    then have "active_row q" if "q \<in> set (st_jobs st)" "jr_job_id q = jid" for q
      using unique_row [OF d r(1) that] got(2) r(2) by (simp add: active_row_def)
    then show ?thesis unfolding update_job_status_def
      using m by (intro mirror_update_same) (auto simp: active_row_def)
  qed
  then show ?thesis using m by (auto simp: cancel_job_rpc_def Let_def split: option.split)
qed

text \<open>A status report. Agents report running, stopping and final states; a report of \<open>starting\<close> is left out,
  because for a queued job it would make a row active that the scheduler did not place.\<close>

lemma update_rpc_in_step:
  assumes "in_step st" "su_status u \<noteq> 2"
  shows "in_step (snd (update_job_status_rpc E u st))"
proof -
  obtain rep st' where run: "update_job_status_rpc E u st = (rep, st')" by (cases "update_job_status_rpc E u st")
  consider "st' = st" | to where "acceptable u (st_jobs st) to"
      "st' = notify_update E u to (st\<lparr>st_jobs := update_status_row E u (status_to_str to) to (st_jobs st)\<rparr>)"
    using update_rpc_cases [OF run] by blast
  then have "in_step st'"
  proof cases
    case (2 to)
    obtain row "from" where row: "get_job (su_job_id u) (st_jobs st) = Some row" "jr_status row = status_to_str from"
      "can_transition from to" "status_int_to_str (su_status u) = Some (status_to_str to)"
      using 2(1) by (auto simp: acceptable_def)
    obtain r where r: "find_by jr_job_id (su_job_id u) (st_jobs st) = Some r" "row = fetched r" using get_job_Some [OF row(1)] by metis
    have d: "distinct (map jr_job_id (st_jobs st))" using assms(1) by (simp add: mirror_def)
    have is_r: "q = r" if "q \<in> set (st_jobs st)" "jr_job_id q = su_job_id u" for q using unique_row [OF d r(1) that] .
    have st_r: "jr_status r = status_to_str from" using row(2) r(2) by simp
    show ?thesis
    proof (cases "is_terminal to")
      case True
      then have "mirror (update_status_row E u (status_to_str to) to (st_jobs st)) (forget [su_job_id u] (st_sched st))"
        unfolding update_status_row_def update_job_status_def using assms(1)
        by (intro mirror_deactivate_one) (cases to; auto simp: active_row_def)+
      then show ?thesis using 2 True by (simp add: notify_update_def complete_job_def forget_one Let_def)
    next
      case False
      have "to \<noteq> Starting" using row(4) assms(2) by (auto simp: status_int_to_str_def split: if_splits)
      then have "active_row (r\<lparr>jr_status := status_to_str to\<rparr>) = active_row r"
        using False row(3) st_r by (cases to; cases "from") (auto simp: active_row_def transition_table)
      then have "mirror (update_status_row E u (status_to_str to) to (st_jobs st)) (st_sched st)"
        unfolding update_status_row_def update_job_status_def using assms(1) is_r
        by (intro mirror_update_same) (auto simp: active_row_def)
      then show ?thesis using 2 False by (simp add: notify_update_def Let_def)
    qed
  qed (use assms in simp)
  then show ?thesis by (simp add: run)
qed

subsection \<open>The scheduling cycle\<close>

lemma retire_frame [simp]:
  "st_jobs (retire E ids st) = st_jobs st" "st_sched (retire E ids st) = forget ids (st_sched st)"
  "st_registry (retire E ids st) = st_registry st" "st_node_info (retire E ids st) = st_node_info st"
  unfolding retire_def
  by (induction ids arbitrary: st) (simp_all add: push_update_def complete_job_def forget_def)

lemma fold_capacity_frame:
  "sch_running (fold (\<lambda>n. set_node_gpu_capacity (k n) (c n)) ns S) = sch_running S \<and>
   sch_queue (fold (\<lambda>n. set_node_gpu_capacity (k n) (c n)) ns S) = sch_queue S"
  by (induction ns arbitrary: S) (simp_all add: set_node_gpu_capacity_def)

lemma fold_capacity_wf: "sched_wf S \<Longrightarrow> sched_wf (fold (\<lambda>n. set_node_gpu_capacity (k n) (c n)) ns S)"
  by (induction ns arbitrary: S) (auto intro: sched_wf_capacity)

lemma refresh_capacity_in_step: "in_step st \<Longrightarrow> in_step (refresh_capacity st)"
  unfolding refresh_capacity_def
  by (rule mirror_queue_subset [of _ "st_sched st"]) (simp_all add: fold_capacity_frame fold_capacity_wf mirror_def)

lemma fold_requeue: "fold (\<lambda>i S. snd (drop_job i (remove_running i S))) ids S = forget ids S"
proof -
  have twice: "kdel i (kdel i m) = kdel i m" for i :: string and m :: "(string, job) kmap" by (simp add: kdel_def)
  show ?thesis unfolding forget_def by (induction ids arbitrary: S) (simp_all add: drop_job_def remove_running_def twice)
qed

lemma requeue_in_step: "in_step st \<Longrightarrow> in_step (requeue_stale E st)"
  by (auto simp: requeue_stale_def reset_stale_starting_jobs_def fold_requeue requeue_effect_def active_row_def Let_def
      intro!: mirror_deactivate)

lemma recycle_in_step: "in_step st \<Longrightarrow> in_step (recycle_dead_nodes E st)"
  by (auto simp: recycle_dead_nodes_def mark_lost_jobs_on_nodes_def lost_effect_def active_row_def Let_def
      intro!: mirror_deactivate)

lemma reap_stopping_in_step: "in_step st \<Longrightarrow> in_step (reap_stopping E st)"
  by (auto simp: reap_stopping_def reset_stale_stopping_jobs_def lost_default_effect_def active_row_def
      intro!: mirror_deactivate)

lemma reap_running_in_step: "in_step st \<Longrightarrow> in_step (reap_running E st)"
  by (auto simp: reap_running_def mark_running_jobs_lost_def lost_default_effect_def active_row_def Let_def
      intro!: mirror_deactivate)

lemma job_of_row:
  assumes "distinct (map jr_job_id t)" "r \<in> set t" "job_row_to_job (fetched r) = Some j"
  shows "known_job t j"
proof -
  have "find_by jr_job_id (job_id j) t = Some r" "job_resource_quota j = row_quota r"
    using assms find_by_unique [of jr_job_id t r] by (auto simp: job_row_to_job_def row_quota_def)
  then show ?thesis by (simp add: known_job_def)
qed

lemma enqueue_in_step: "mirror t S \<Longrightarrow> known_job t j \<Longrightarrow> mirror t (snd (enqueue j S))"
  using sched_wf_enqueue [of S j] by (auto simp: mirror_def enqueue_def)

lemma load_queue_in_step:
  assumes "in_step st"
  shows "in_step (load_queue E st)"
proof -
  have "mirror (st_jobs st) (fold (\<lambda>row S. case job_row_to_job row of Some j \<Rightarrow> snd (enqueue j S) | None \<Rightarrow> S) rows S)"
    if "mirror (st_jobs st) S" "set rows \<subseteq> fetched ` set (st_jobs st)" for rows S
    using that
  proof (induction rows arbitrary: S)
    case (Cons row rows)
    obtain r where r: "r \<in> set (st_jobs st)" "row = fetched r" using Cons.prems(2) by auto
    obtain j where j: "job_row_to_job row = Some j" by (simp add: job_row_to_job_def)
    have "known_job (st_jobs st) j" using job_of_row [OF _ r(1)] j r(2) assms by (simp add: mirror_def)
    then show ?case using Cons j by (simp add: enqueue_in_step)
  qed simp
  moreover have "set (list_queued_jobs_for_scheduling (st_jobs st)) \<subseteq> fetched ` set (st_jobs st)"
    by (auto simp: list_queued_jobs_for_scheduling_def select_where_def)
  ultimately show ?thesis using assms by (simp add: load_queue_def)
qed

text \<open>While the scheduled jobs are written back: the ones still to come hold an entry without an active row.\<close>

definition awaiting :: "job list \<Rightarrow> job_table \<Rightarrow> scheduler \<Rightarrow> bool" where
  "awaiting js t S \<longleftrightarrow> distinct (map jr_job_id t) \<and> sched_wf S \<and> distinct (map job_id js) \<and>
     (\<forall>j \<in> set (sch_queue S). known_job t j) \<and>
     (\<forall>j \<in> set js. kget (sch_running S) (job_id j) = Some j \<and> known_job t j \<and>
        (\<forall>r. find_by jr_job_id (job_id j) t = Some r \<longrightarrow> \<not> active_row r)) \<and>
     (\<forall>k. k \<notin> job_id ` set js \<longrightarrow> slot_ok (find_by jr_job_id k t) (kget (sch_running S) k))"

lemma awaiting_Nil: "awaiting [] t S \<longleftrightarrow> mirror t S"
  by (auto simp: awaiting_def mirror_def)

lemma schedule_loop_quota:
  "schedule_loop js S = (sc, rm, S') \<Longrightarrow> j \<in> set sc \<Longrightarrow>
     \<exists>q \<in> set js. job_id q = job_id j \<and> job_resource_quota q = job_resource_quota j"
  by (induction rule: schedule_loop_induct) auto

lemma schedule_awaiting:
  assumes "mirror t S" "schedule S = (sc, S')"
  shows "awaiting sc t S'"
proof -
  have wf: "sched_wf S" using assms(1) by (simp add: mirror_def)
  obtain rm L where loop: "schedule_loop (sch_queue S) S = (sc, rm, L)" and S': "S' = L\<lparr>sch_queue := rm\<rparr>"
    using assms(2) by (auto simp: schedule_def split: prod.splits)
  have d: "distinct (map job_id (sch_queue S))" and out: "\<forall>j \<in> set (sch_queue S). kget (sch_running S) (job_id j) = None"
    using wf by (auto simp: sched_wf_def ready_def)
  obtain keep where keep: "rm = filter (\<lambda>j. job_id j \<in> keep) (sch_queue S)"
    "map job_id sc = map job_id (filter (\<lambda>j. job_id j \<notin> keep) (sch_queue S))"
    using schedule_loop_jobs [OF loop d] by blast
  have dsc: "distinct (map job_id sc)" unfolding keep(2) using d by (rule distinct_map_filter)
  note run = schedule_loop_running [OF loop d]
  have "kget (sch_running S') (job_id j) = Some j \<and> known_job t j \<and>
      (\<forall>r. find_by jr_job_id (job_id j) t = Some r \<longrightarrow> \<not> active_row r)" if mem: "j \<in> set sc" for j
  proof -
    obtain q where q: "q \<in> set (sch_queue S)" "job_id q = job_id j" "job_resource_quota q = job_resource_quota j"
      using schedule_loop_quota [OF loop mem] by blast
    then have "known_job t j" using assms(1) by (metis known_job_def mirror_def)
    moreover have "kget (sch_running S) (job_id j) = None" using out q by metis
    then have "\<not> active_row r" if "find_by jr_job_id (job_id j) t = Some r" for r
      using mirror_slot [OF assms(1), of "job_id j"] that by (auto simp: slot_ok_def holds_slot_def)
    ultimately show ?thesis using mem dsc by (auto simp: S' run find_by_unique)
  qed
  moreover have "slot_ok (find_by jr_job_id k t) (kget (sch_running S') k)" if "k \<notin> job_id ` set sc" for k
    using that mirror_slot [OF assms(1), of k] by (simp add: S' run find_by_None [THEN iffD2])
  moreover have "sched_wf S'" using sched_wf_schedule [OF wf] assms(2) by simp
  moreover have "\<forall>j \<in> set (sch_queue S'). known_job t j" using assms(1) keep(1) by (auto simp: S' mirror_def)
  ultimately show ?thesis using assms(1) dsc by (simp add: awaiting_def mirror_def)
qed

lemma known_job_assign: "known_job (update_where (queued_job jid) (assign_effect n now) t) q \<longleftrightarrow> known_job t q"
  by (cases "find_by jr_job_id (job_id q) t")
     (auto simp: known_job_def find_by_update assign_effect_def row_quota_def)

lemma awaiting_assigned:
  assumes "awaiting (j # js) t S" "0 < rows_affected (queued_job (job_id j)) t"
  shows "awaiting js (update_where (queued_job (job_id j)) (assign_effect (job_node_id j) now) t) S"
proof -
  let ?t = "update_where (queued_job (job_id j)) (assign_effect (job_node_id j) now) t"
  have d: "distinct (map jr_job_id t)" using assms(1) by (simp add: awaiting_def)
  obtain r where r: "find_by jr_job_id (job_id j) t = Some r" "job_resource_quota j = row_quota r"
    using assms(1) by (auto simp: awaiting_def known_job_def)
  have q: "queued_job (job_id j) r"
    using rows_affected_of [OF d r(1), of "queued_job (job_id j)"] assms(2) by (simp add: queued_job_def)
  have find: "find_by jr_job_id k ?t = (if k = job_id j then Some (assign_effect (job_node_id j) now r) else find_by jr_job_id k t)" for k
  proof (cases "find_by jr_job_id k t")
    case None
    then show ?thesis using r(1) by (auto simp: find_by_update assign_effect_def)
  next
    case (Some p)
    then have "jr_job_id p = k" using find_by_Some by fastforce
    then show ?thesis using Some r(1) q by (auto simp: find_by_update assign_effect_def queued_job_def)
  qed
  have "slot_ok (Some (assign_effect (job_node_id j) now r)) (Some j)"
    using r(2) by (simp add: slot_ok_def holds_slot_def active_row_def assign_effect_def row_quota_def)
  moreover have "map jr_job_id ?t = map jr_job_id t" by (simp add: map_update_where assign_effect_def)
  moreover have "q \<in> set js \<Longrightarrow> job_id q \<noteq> job_id j" for q
    using assms(1) unfolding awaiting_def by (metis distinct.simps(2) imageI list.simps(9) list.set_map)
  moreover have "kget (sch_running S) (job_id j) = Some j" using assms(1) by (simp add: awaiting_def)
  ultimately show ?thesis using assms(1) unfolding awaiting_def known_job_assign find by simp
qed

lemma awaiting_dropped:
  assumes "awaiting (j # js) t S"
  shows "awaiting js t (snd (drop_job (job_id j) S))"
proof -
  have "slot_ok (find_by jr_job_id (job_id j) t) None"
    using assms by (auto simp: awaiting_def known_job_def slot_ok_def)
  moreover have "q \<in> set js \<Longrightarrow> job_id q \<noteq> job_id j" for q
    using assms unfolding awaiting_def by (metis distinct.simps(2) imageI list.simps(9) list.set_map)
  moreover have "sched_wf (S\<lparr>sch_running := kdel (job_id j) (sch_running S)\<rparr>)"
    using assms sched_wf_forget by (simp add: awaiting_def)
  ultimately show ?thesis using assms unfolding awaiting_def by (simp add: drop_job_def store_simps)
qed

lemma dispatch_awaiting:
  assumes "awaiting (j # js) (st_jobs st) (st_sched st)"
  shows "awaiting js (st_jobs (dispatch E j st)) (st_sched (dispatch E j st))"
proof -
  have "update_where (queued_job (job_id j)) f (st_jobs st) = st_jobs st" if "rows_affected (queued_job (job_id j)) (st_jobs st) = 0" for f
    using that by (intro update_where_idle) (auto simp: rows_affected_0)
  then show ?thesis using awaiting_assigned [OF assms, of "e_now E"] awaiting_dropped [OF assms]
    by (cases "rows_affected (queued_job (job_id j)) (st_jobs st) = 0")
       (simp_all add: dispatch_def push_update_def assign_job_to_node_def)
qed

lemma dispatch_all:
  "awaiting js (st_jobs st) (st_sched st) \<Longrightarrow>
     mirror (st_jobs (fold (dispatch E) js st)) (st_sched (fold (dispatch E) js st))"
  by (induction js arbitrary: st) (auto simp: awaiting_Nil dest: dispatch_awaiting)

lemma cycle_in_step: "in_step st \<Longrightarrow> in_step (run_scheduler_cycle E st)"
proof -
  let ?s = "load_queue E (recycle_dead_nodes E (requeue_stale E (refresh_capacity st)))"
  obtain sc S where sc: "schedule (st_sched ?s) = (sc, S)" by (cases "schedule (st_sched ?s)")
  assume "in_step st"
  then have "in_step ?s" by (intro load_queue_in_step recycle_in_step requeue_in_step refresh_capacity_in_step)
  from schedule_awaiting [OF this sc] have "awaiting sc (st_jobs (?s\<lparr>st_sched := S\<rparr>)) (st_sched (?s\<lparr>st_sched := S\<rparr>))" by simp
  from dispatch_all [OF this, of E] show ?thesis by (simp add: run_scheduler_cycle_def sc)
qed

lemma maintenance_frame [simp]:
  "st_jobs (hourly_tasks P E st) = st_jobs st" "st_sched (hourly_tasks P E st) = st_sched st"
  "st_jobs (daily_tasks P E st) = st_jobs st" "st_sched (daily_tasks P E st) = st_sched st"
  "st_jobs (expire_alerts E st) = st_jobs st" "st_sched (expire_alerts E st) = st_sched st"
  "st_jobs (refresh_alert_rules E st) = st_jobs st" "st_sched (refresh_alert_rules E st) = st_sched st"
  "st_jobs (prune_login_attempts now st) = st_jobs st" "st_sched (prune_login_attempts now st) = st_sched st"
  by (simp_all add: hourly_tasks_def daily_tasks_def unless_fault_def expire_alerts_def refresh_alert_rules_def
      prune_login_attempts_def Let_def split: sum.split prod.split)

lemma tick_in_step: "in_step st \<Longrightarrow> in_step (background_tick P E n st)"
proof -
  assume m: "in_step st"
  define a where "a = unless_fault E ''prune_old_metrics'' (\<lambda>st. st\<lparr>st_metrics := prune_old_metrics (e_now E) (st_metrics st)\<rparr>)
    (prune_login_attempts (e_now E) (st\<lparr>st_registry := check_node_status (e_now E) (st_registry st)\<rparr>))"
  have "in_step a" using m by (simp add: a_def unless_fault_def)
  define b where "b = (if n mod 12 = 0 then expire_alerts E (refresh_alert_rules E (run_scheduler_cycle E a))
    else refresh_alert_rules E (run_scheduler_cycle E a))"
  have "in_step b" using cycle_in_step [OF \<open>in_step a\<close>] by (simp add: b_def)
  then have "in_step (reap_running E (reap_stopping E b))" by (intro reap_running_in_step reap_stopping_in_step)
  then show ?thesis unfolding background_tick_def Let_def a_def [symmetric] b_def [symmetric] by simp
qed

subsection \<open>Demand in the database\<close>

definition row_demand :: "string \<Rightarrow> stored_job \<Rightarrow> nat" where
  "row_demand n r =
     (if active_row r \<and> jr_node_id r = Some n then unat (parse_gpu_requirement (row_quota r)) else 0)"

text \<open>The GPUs that the active jobs of the database need on a node.\<close>

definition db_demand :: "string \<Rightarrow> job_table \<Rightarrow> nat" where
  "db_demand n t = sum_list (map (row_demand n) t)"

lemma slots_demand:
  assumes wf: "kwf m" and d: "distinct (map jr_job_id t)" and slot: "\<And>k. slot_ok (find_by jr_job_id k t) (kget m k)"
  shows "gpu_demand n m = db_demand n t"
proof -
  let ?m = m
  let ?w = "\<lambda>e. if job_node_id (snd e) = n then unat (gpu_requirement (snd e)) else 0"
  let ?A = "{r \<in> set t. active_row r}"
  have "gpu_demand n ?m = sum ?w (set ?m)"
    unfolding gpu_demand_def using wf kwf_distinct distinct_map by (subst sum_list_distinct_conv_sum_set) blast+
  also have "\<dots> = sum (row_demand n) ?A"
  proof (rule sum.reindex_bij_witness [where i = "\<lambda>r. (jr_job_id r, the (kget ?m (jr_job_id r)))"
        and j = "\<lambda>e. the (find_by jr_job_id (fst e) t)"])
    fix e assume "e \<in> set ?m"
    then have e: "kget ?m (fst e) = Some (snd e)" using kget_mem [OF wf, of "fst e" "snd e"] by simp
    then obtain r where r: "find_by jr_job_id (fst e) t = Some r" "active_row r" "holds_slot r (Some (snd e))"
      using slot [of "fst e"] by (auto simp: slot_ok_def split: option.splits if_splits)
    then have mem: "r \<in> set t" "jr_job_id r = fst e" using find_by_Some by fastforce+
    show "(jr_job_id (the (find_by jr_job_id (fst e) t)), the (kget ?m (jr_job_id (the (find_by jr_job_id (fst e) t))))) = e"
      using r mem e by simp
    show "the (find_by jr_job_id (fst e) t) \<in> ?A" using r mem by simp
    show "row_demand n (the (find_by jr_job_id (fst e) t)) = ?w e"
      using r by (auto simp: row_demand_def holds_slot_def)
  next
    fix r assume r: "r \<in> ?A"
    then have f: "find_by jr_job_id (jr_job_id r) t = Some r" using find_by_unique [OF d] by simp
    then obtain j where j: "kget ?m (jr_job_id r) = Some j" using slot [of "jr_job_id r"] r by (auto simp: slot_ok_def holds_slot_def)
    show "the (find_by jr_job_id (fst (jr_job_id r, the (kget ?m (jr_job_id r)))) t) = r" using f by simp
    show "(jr_job_id r, the (kget ?m (jr_job_id r))) \<in> set ?m"
      using kget_mem [OF wf, of "jr_job_id r" j, THEN iffD1, OF j] j by simp
  qed
  also have "\<dots> = sum (row_demand n) (set t)"
    by (rule sum.mono_neutral_left) (auto simp: row_demand_def)
  also have "\<dots> = db_demand n t"
    unfolding db_demand_def using d distinct_map by (subst sum_list_distinct_conv_sum_set) blast+
  finally show ?thesis .
qed

lemma mirror_demand: "mirror t S \<Longrightarrow> gpu_demand n (sch_running S) = db_demand n t"
  by (rule slots_demand) (auto simp: mirror_def sched_wf_def ready_def)

lemma mirror_bound: "mirror t S \<Longrightarrow> gpu_demand n (sch_running S) < 2 ^ 32"
  by (simp add: mirror_def sched_wf_def ready_def)

subsection \<open>Restart\<close>

lemma restore_get:
  assumes "distinct (map job_id js)" "\<forall>j \<in> set js. is_running (job_state j)"
  shows "kget (sch_running (restore_running js S)) k =
    (case find_by job_id k js of Some j \<Rightarrow> Some j | None \<Rightarrow> kget (sch_running S) k)"
  using assms
proof (induction js arbitrary: S)
  case (Cons j js)
  let ?S = "S\<lparr>sch_running := kput (job_id j) j (sch_running S)\<rparr>"
  have "restore_running (j # js) S = (restore_running js ?S)\<lparr>sch_queue := sch_queue S\<rparr>"
    using Cons.prems(2) by (simp add: restore_running_def)
  moreover have "find_by job_id (job_id j) js = None" using Cons.prems(1) by (simp add: find_by_None)
  ultimately show ?case using Cons.IH [of ?S] Cons.prems by (auto simp: store_simps split: option.split)
qed (simp add: restore_running_def)

definition restored :: "job_table \<Rightarrow> job list" where
  "restored t = List.map_filter job_row_to_job (list_active_jobs t)"

lemma restored_alt: "restored t = map (\<lambda>r. the (job_row_to_job (fetched r))) (filter active_row t)"
  by (simp add: restored_def list_active_jobs_def select_where_def map_filter_def job_row_to_job_def comp_def
      active_row_def [abs_def])

lemma find_restored:
  "distinct (map jr_job_id t) \<Longrightarrow> find_by job_id k (restored t) =
     (case find_by jr_job_id k t of
        Some r \<Rightarrow> if active_row r then Some (the (job_row_to_job (fetched r))) else None | None \<Rightarrow> None)"
proof (induction t)
  case (Cons r t)
  have "job_id (the (job_row_to_job (fetched r))) = jr_job_id r" by (simp add: job_row_to_job_def)
  moreover have "find_by jr_job_id (jr_job_id r) t = None" using Cons.prems by (simp add: find_by_None)
  ultimately show ?case using Cons by (auto simp: restored_alt)
qed (simp add: restored_alt)

lemma startup_in_step:
  assumes "in_step st" "\<not> e_fault E ''list_active_jobs''"
  shows "in_step (startup E st)"
proof -
  let ?t = "st_jobs st" and ?S = "restore_running (restored (st_jobs st)) scheduler_new"
  have d: "distinct (map jr_job_id ?t)" using assms(1) by (simp add: mirror_def)
  have ids: "map job_id (restored ?t) = map jr_job_id (filter active_row ?t)"
    by (simp add: restored_alt job_row_to_job_def)
  have run: "\<forall>j \<in> set (restored ?t). is_running (job_state j)"
    by (auto simp: restored_alt job_row_to_job_def active_row_def status_from_str_def)
  have get: "kget (sch_running ?S) k = find_by job_id k (restored ?t)" for k
    using restore_get [OF _ run, of scheduler_new k] ids d
    by (simp add: distinct_map_filter scheduler_new_def km.get_emp split: option.split)
  have node: "jr_node_id r \<noteq> None" if "r \<in> set ?t" "active_row r" for r
    using mirror_slot [OF assms(1), of "jr_job_id r"] that find_by_unique [OF d that(1)]
    by (auto simp: slot_ok_def holds_slot_def)
  have slots: "slot_ok (find_by jr_job_id k ?t) (kget (sch_running ?S) k)" for k
  proof (cases "find_by jr_job_id k ?t")
    case (Some r)
    then have "r \<in> set ?t" using find_by_Some by fastforce
    then show ?thesis using Some node [of r]
      by (auto simp: get find_restored [OF d] slot_ok_def holds_slot_def job_row_to_job_def row_quota_def fetched_def with_node_def)
  qed (simp add: get find_restored [OF d] slot_ok_def)
  have wf: "kwf (sch_running ?S) \<and> keyed_by_id (sch_running ?S)"
    by (rule restore_running_wf) (simp add: scheduler_new_def keyed_by_id_def km.get_emp)
  have "gpu_demand n (sch_running ?S) < 2 ^ 32" for n
    using slots_demand [OF _ d slots, of n] wf mirror_demand [OF assms(1), of n] mirror_bound [OF assms(1), of n] by simp
  then have "sched_wf ?S" using wf by (simp add: sched_wf_def ready_def) (simp add: restore_running_def scheduler_new_def)
  moreover have "sch_queue ?S = []" by (simp add: restore_running_def scheduler_new_def)
  ultimately have "mirror ?t ?S" using slots d by (simp add: mirror_def)
  then show ?thesis using assms(2) by (simp add: startup_def restored_def Let_def)
qed

subsection \<open>The server as a transition system\<close>

text \<open>Everything that reads or writes the \<open>jobs\<close> table or the scheduler, with any faults of the connection except
  where a premise excludes one; other requests are steps that leave both alone.\<close>

inductive server_step :: "app_state \<Rightarrow> app_state \<Rightarrow> bool" where
  created: "server_step st (snd (create_job E cl req st))"
| submitted: "server_step st (snd (submit_job E d st))"
| stopped: "server_step st (snd (stop_job E cl jid ps st))"
| reported: "su_status u \<noteq> 2 \<Longrightarrow> server_step st (snd (update_job_status_rpc E u st))"
| streamed: "su_status u \<noteq> 2 \<Longrightarrow> \<not> e_fault E ''update_job_status'' \<Longrightarrow> server_step st (snd (watch_job_status E u st))"
| cancelled: "server_step st (snd (cancel_job_rpc E jid st))"
| ticked: "server_step st (background_tick P E n st)"
| restarted: "\<not> e_fault E ''list_active_jobs'' \<Longrightarrow> server_step st (startup E st)"
| other: "st_jobs st' = st_jobs st \<Longrightarrow> st_sched st' = st_sched st \<Longrightarrow> server_step st st'"

definition fresh_server :: "app_state \<Rightarrow> bool" where
  "fresh_server st \<longleftrightarrow> st_jobs st = [] \<and> st_sched st = scheduler_new"

lemma watch_in_step:
  assumes "in_step st" "su_status u \<noteq> 2" "\<not> e_fault E ''update_job_status''"
  shows "in_step (snd (watch_job_status E u st))"
proof (cases "e_fault E ''get_job''")
  case True
  then have "snd (watch_job_status E u st) = st" by (simp add: watch_job_status_def split: option.split)
  then show ?thesis using assms(1) by simp
next
  case False
  then show ?thesis using watch_as_unary [OF False assms(3), of u st] update_rpc_in_step [OF assms(1,2), of E] by simp
qed

lemma server_step_in_step:
  assumes "server_step st st'" "in_step st"
  shows "in_step st'"
  using assms
  by cases (auto intro: create_job_in_step submit_job_in_step stop_job_in_step update_rpc_in_step watch_in_step
      cancel_rpc_in_step tick_in_step startup_in_step)

interpretation server: safe_system fresh_server server_step "\<lambda>st. mirror (st_jobs st) (st_sched st)"
proof unfold_locales
  show "fresh_server st \<Longrightarrow> mirror (st_jobs st) (st_sched st)" for st
    by (simp add: fresh_server_def mirror_fresh)
qed (rule server_step_in_step)


subsection \<open>Capacity\<close>

lemma forget_demand: "gpu_demand n (sch_running (forget ids S)) \<le> gpu_demand n (sch_running S)"
proof (induction ids arbitrary: S)
  case (Cons i ids)
  have "forget (i # ids) S = forget ids (S\<lparr>sch_running := kdel i (sch_running S)\<rparr>)" by (simp add: forget_def)
  then show ?case using Cons [of "S\<lparr>sch_running := kdel i (sch_running S)\<rparr>"] gpu_demand_kdel [of n i "sch_running S"] by simp
qed (simp add: forget_def)

lemma fold_capacity_get:
  assumes "distinct (map f ns)"
  shows "kget (sch_capacity (fold (\<lambda>n. set_node_gpu_capacity (f n) (c n)) ns S)) x =
    (case find_by f x ns of Some n \<Rightarrow> Some (c n) | None \<Rightarrow> kget (sch_capacity S) x)"
  using assms
proof (induction ns arbitrary: S)
  case (Cons n ns)
  moreover have "find_by f (f n) ns = None" using Cons.prems by (simp add: find_by_None)
  ultimately show ?case by (auto simp: set_node_gpu_capacity_def store_simps split: option.split)
qed simp

lemma registry_find:
  assumes "registry_wf R" "registry_get n R = Some e"
  shows "find_by ne_node_id n (registry_list R) = Some e \<and> distinct (map ne_node_id (registry_list R))"
proof -
  have wf: "kwf (reg_nodes R)" and id: "\<And>k e. kget (reg_nodes R) k = Some e \<Longrightarrow> ne_node_id e = k"
    using assms(1) by (auto simp: registry_wf_def)
  have "map ne_node_id (registry_list R) = map fst (reg_nodes R)"
    using id kget_mem [OF wf] by (auto simp: registry_list_def kvalues_def intro!: map_cong)
  then have d: "distinct (map ne_node_id (registry_list R))" using kwf_distinct [OF wf] by simp
  moreover have "e \<in> set (registry_list R)" "ne_node_id e = n"
    using assms(2) id kvalues_mem [OF wf] by (auto simp: registry_list_def registry_get_def)
  ultimately show ?thesis using find_by_unique [OF d] by fastforce
qed

lemma before_schedule_frame:
  defines "pre \<equiv> \<lambda>E st. load_queue E (recycle_dead_nodes E (requeue_stale E (refresh_capacity st)))"
  shows "sch_capacity (st_sched (pre E st)) = sch_capacity (st_sched (refresh_capacity st))"
    and "gpu_demand n (sch_running (st_sched (pre E st))) \<le> gpu_demand n (sch_running (st_sched st))"
proof -
  have enq: "sch_running (fold (\<lambda>row S. case job_row_to_job row of Some j \<Rightarrow> snd (enqueue j S) | None \<Rightarrow> S) rows S) = sch_running S \<and>
      sch_capacity (fold (\<lambda>row S. case job_row_to_job row of Some j \<Rightarrow> snd (enqueue j S) | None \<Rightarrow> S) rows S) = sch_capacity S" for rows S
    by (induction rows arbitrary: S) (auto simp: job_row_to_job_def enqueue_def)
  have load: "sch_running (st_sched (load_queue E s)) = sch_running (st_sched s)"
    "sch_capacity (st_sched (load_queue E s)) = sch_capacity (st_sched s)" for s
    using enq by (simp_all add: load_queue_def)
  have recycle: "\<exists>ids. st_sched (recycle_dead_nodes E s) = forget ids (st_sched s)" for s
    unfolding recycle_dead_nodes_def Let_def
    by (auto split: prod.split intro: exI [of _ "[]"]) (auto simp: forget_def intro: exI [of _ "[]"])
  have requeue: "\<exists>ids. st_sched (requeue_stale E s) = forget ids (st_sched s)" for s
    unfolding requeue_stale_def Let_def fold_requeue
    by (auto split: prod.split intro: exI [of _ "[]"]) (auto simp: forget_def intro: exI [of _ "[]"])
  have cap: "sch_running (st_sched (refresh_capacity st)) = sch_running (st_sched st)"
    by (simp add: refresh_capacity_def fold_capacity_frame)
  obtain a b where "st_sched (requeue_stale E (refresh_capacity st)) = forget a (st_sched (refresh_capacity st))"
    "st_sched (recycle_dead_nodes E (requeue_stale E (refresh_capacity st))) = forget b (st_sched (requeue_stale E (refresh_capacity st)))"
    using recycle requeue by blast
  then show "sch_capacity (st_sched (pre E st)) = sch_capacity (st_sched (refresh_capacity st))"
    "gpu_demand n (sch_running (st_sched (pre E st))) \<le> gpu_demand n (sch_running (st_sched st))"
    using forget_demand [of n b "forget a (st_sched (refresh_capacity st))"] forget_demand [of n a "st_sched (refresh_capacity st)"]
    by (simp_all add: pre_def load cap)
qed

lemma dispatch_demand:
  "gpu_demand n (sch_running (st_sched (fold (dispatch E) js st))) \<le> gpu_demand n (sch_running (st_sched st)) \<and>
   sch_capacity (st_sched (fold (dispatch E) js st)) = sch_capacity (st_sched st)"
proof (induction js arbitrary: st)
  case (Cons j js)
  have "gpu_demand n (sch_running (st_sched (dispatch E j st))) \<le> gpu_demand n (sch_running (st_sched st)) \<and>
      sch_capacity (st_sched (dispatch E j st)) = sch_capacity (st_sched st)"
    using gpu_demand_kdel [of n "job_id j" "sch_running (st_sched st)"]
    by (auto simp: dispatch_def push_update_def drop_job_def split: sum.split bool.split)
  then show ?case using Cons [of "dispatch E j st"] by auto
qed simp

text \<open>C2. No node is over-committed in the database. A scheduling cycle in any reachable state, whatever
  statements fail in it, raises the need of a node's active rows only up to the capacity of the node:
  afterwards the need is at most what it was, or within the GPU count of the node if it is known and online;
  a degraded or offline node gets nothing.\<close>

theorem cycle_no_overcommit:
  assumes "reach fresh_server server_step st" and "registry_wf (st_registry st)" and "registry_get n (st_registry st) = Some e"
  shows "db_demand n (st_jobs (run_scheduler_cycle E st)) \<le> db_demand n (st_jobs st) \<or>
    ne_status e = Online \<and> db_demand n (st_jobs (run_scheduler_cycle E st)) \<le> unat (ne_gpu_count e)"
proof -
  let ?s = "load_queue E (recycle_dead_nodes E (requeue_stale E (refresh_capacity st)))"
  have m: "in_step st" using server.reach_inv [OF assms(1)] .
  have ms: "in_step ?s" using m by (intro load_queue_in_step recycle_in_step requeue_in_step refresh_capacity_in_step)
  obtain sc rm L where loop: "schedule_loop (sch_queue (st_sched ?s)) (st_sched ?s) = (sc, rm, L)"
    by (cases "schedule_loop (sch_queue (st_sched ?s)) (st_sched ?s)")
  have ready: "ready (sch_queue (st_sched ?s)) (st_sched ?s)" using ms by (simp add: mirror_def sched_wf_def)
  let ?f = "run_scheduler_cycle E st"
  have f: "?f = fold (dispatch E) sc (?s\<lparr>st_sched := L\<lparr>sch_queue := rm\<rparr>\<rparr>)"
    by (simp add: run_scheduler_cycle_def schedule_def loop Let_def)
  have le: "db_demand n (st_jobs ?f) \<le> gpu_demand n (sch_running L)"
    using mirror_demand [OF cycle_in_step [OF m], of n E] dispatch_demand [of n E sc "?s\<lparr>st_sched := L\<lparr>sch_queue := rm\<rparr>\<rparr>"]
    by (simp add: f)
  have cap: "kget (sch_capacity (st_sched ?s)) n = Some (if ne_status e = Online then ne_gpu_count e else 0)"
    using registry_find [OF assms(2,3)]
    by (simp add: before_schedule_frame(1)) (simp add: refresh_capacity_def fold_capacity_get)
  have pre: "gpu_demand n (sch_running (st_sched ?s)) \<le> db_demand n (st_jobs st)"
    using before_schedule_frame(2) [of n E st] mirror_demand [OF m, of n] by simp
  show ?thesis
  proof (cases "\<exists>j \<in> set sc. job_node_id j = n")
    case True
    then have "gpu_demand n (sch_running L) \<le> unat (if ne_status e = Online then ne_gpu_count e else 0)"
      using schedule_loop_demand [OF loop ready, of n] cap by simp
    then show ?thesis using le by (auto split: if_splits)
  next
    case False
    then show ?thesis using schedule_loop_demand [OF loop ready, of n] le pre by simp
  qed
qed

subsection \<open>What a cycle leaves waiting\<close>

definition no_stale_entries :: "job_table \<Rightarrow> scheduler \<Rightarrow> bool" where
  "no_stale_entries t S \<longleftrightarrow>
     (\<forall>j \<in> set (sch_queue S). \<exists>r. find_by jr_job_id (job_id j) t = Some r \<and> jr_status r = ''queued'')"

lemma no_stale_update:
  assumes "no_stale_entries t S" "\<And>r. jr_job_id (f r) = jr_job_id r" "\<And>r. P r \<Longrightarrow> jr_status r \<noteq> ''queued''"
    "set (sch_queue S') \<subseteq> set (sch_queue S)"
  shows "no_stale_entries (update_where P f t) S'"
  unfolding no_stale_entries_def
proof
  fix j assume "j \<in> set (sch_queue S')"
  then obtain r where "find_by jr_job_id (job_id j) t = Some r" "jr_status r = ''queued''"
    using assms(1,4) unfolding no_stale_entries_def by blast
  then show "\<exists>r. find_by jr_job_id (job_id j) (update_where P f t) = Some r \<and> jr_status r = ''queued''"
    using assms(2,3) by (auto simp: find_by_update)
qed

lemma before_schedule_fresh:
  assumes "no_stale_entries (st_jobs st) (st_sched st)"
  shows "no_stale_entries (st_jobs (recycle_dead_nodes E (requeue_stale E (refresh_capacity st))))
    (st_sched (recycle_dead_nodes E (requeue_stale E (refresh_capacity st))))"
proof -
  have "no_stale_entries (st_jobs (refresh_capacity st)) (st_sched (refresh_capacity st))"
    using assms by (simp add: no_stale_entries_def refresh_capacity_def fold_capacity_frame)
  then have "no_stale_entries (st_jobs (requeue_stale E (refresh_capacity st))) (st_sched (requeue_stale E (refresh_capacity st)))"
    by (auto simp: requeue_stale_def reset_stale_starting_jobs_def fold_requeue Let_def requeue_effect_def stale_starting_def
        intro!: no_stale_update)
  then show ?thesis
    by (auto simp: recycle_dead_nodes_def [of _ "requeue_stale _ _"] mark_lost_jobs_on_nodes_def Let_def lost_effect_def lost_on_nodes_def
        intro!: no_stale_update)
qed

lemma enqueued_all:
  fixes S :: scheduler
  defines "load \<equiv> fold (\<lambda>row S. case job_row_to_job row of Some j \<Rightarrow> snd (enqueue j S) | None \<Rightarrow> S)"
  shows "set (sch_queue (load rows S)) \<subseteq> set (sch_queue S) \<union> (\<lambda>row. the (job_row_to_job row)) ` set rows \<and>
    job_id ` set (sch_queue S) \<subseteq> job_id ` set (sch_queue (load rows S)) \<and> sch_running (load rows S) = sch_running S \<and>
    (\<forall>row \<in> set rows. jr_job_id row \<in> job_id ` set (sch_queue (load rows S)) \<or> kget (sch_running S) (jr_job_id row) \<noteq> None)"
proof (induction rows arbitrary: S)
  case (Cons row rows)
  define j where "j = the (job_row_to_job row)"
  have j: "job_row_to_job row = Some j" "job_id j = jr_job_id row" by (simp_all add: j_def job_row_to_job_def)
  have step: "load (row # rows) S = load rows (snd (enqueue j S))" by (simp add: load_def j(1))
  have enq: "set (sch_queue (snd (enqueue j S))) \<subseteq> set (sch_queue S) \<union> {j}" "set (sch_queue S) \<subseteq> set (sch_queue (snd (enqueue j S)))"
    "sch_running (snd (enqueue j S)) = sch_running S"
    "jr_job_id row \<in> job_id ` set (sch_queue (snd (enqueue j S))) \<or> kget (sch_running S) (jr_job_id row) \<noteq> None"
    by (auto simp: enqueue_def j(2) image_iff) metis
  note ih = Cons [of "snd (enqueue j S)"]
  have "set (sch_queue (load (row # rows) S)) \<subseteq> set (sch_queue S) \<union> (\<lambda>row. the (job_row_to_job row)) ` set (row # rows)"
    unfolding step using ih enq(1) j_def by auto
  moreover have "job_id ` set (sch_queue S) \<subseteq> job_id ` set (sch_queue (load (row # rows) S))"
    unfolding step using ih enq(2) by blast
  moreover have "\<forall>r \<in> set (row # rows). jr_job_id r \<in> job_id ` set (sch_queue (load (row # rows) S)) \<or> kget (sch_running S) (jr_job_id r) \<noteq> None"
    unfolding step using ih enq(3,4) by auto
  ultimately show ?case unfolding step using ih enq(3) by simp
qed (simp add: load_def)

lemma load_queue_fresh:
  assumes "in_step st" "no_stale_entries (st_jobs st) (st_sched st)" "no_faults E"
  shows "no_stale_entries (st_jobs (load_queue E st)) (st_sched (load_queue E st)) \<and> st_jobs (load_queue E st) = st_jobs st \<and>
    (\<forall>r \<in> set (st_jobs st). jr_status r = ''queued'' \<longrightarrow> jr_job_id r \<in> job_id ` set (sch_queue (st_sched (load_queue E st))))"
proof -
  let ?rows = "list_queued_jobs_for_scheduling (st_jobs st)"
  have d: "distinct (map jr_job_id (st_jobs st))" using assms(1) by (simp add: mirror_def)
  have rows: "set ?rows = fetched ` {r \<in> set (st_jobs st). jr_status r = ''queued''}"
    by (auto simp: list_queued_jobs_for_scheduling_def select_where_def)
  note all = enqueued_all [of ?rows "st_sched st"]
  have "\<exists>r. find_by jr_job_id (job_id j) (st_jobs st) = Some r \<and> jr_status r = ''queued''"
    if "j \<in> (\<lambda>row. the (job_row_to_job row)) ` set ?rows" for j
    using that rows find_by_unique [OF d] by (auto simp: job_row_to_job_def)
  then have "no_stale_entries (st_jobs st) (st_sched (load_queue E st))"
    using assms(2,3) all unfolding no_stale_entries_def by (simp add: load_queue_def no_faults_def) blast
  moreover have "kget (sch_running (st_sched st)) (jr_job_id r) = None" if "r \<in> set (st_jobs st)" "jr_status r = ''queued''" for r
    using mirror_slot [OF assms(1), of "jr_job_id r"] that find_by_unique [OF d that(1)] by (simp add: slot_ok_def active_row_def)
  ultimately show ?thesis using all rows assms(3) by (auto simp: load_queue_def no_faults_def)
qed

lemma dispatch_hits:
  assumes "\<forall>j \<in> set js. (\<exists>r \<in> set (st_jobs st). queued_job (job_id j) r) \<and> job_node_id j \<in> set (st_node_ids st)"
    and "distinct (map job_id js)" "no_faults E"
  shows "st_sched (fold (dispatch E) js st) = st_sched st \<and>
    (\<forall>r \<in> set (st_jobs (fold (dispatch E) js st)). jr_status r = ''queued'' \<longrightarrow>
       r \<in> set (st_jobs st) \<and> jr_job_id r \<notin> job_id ` set js)"
  using assms(1,2)
proof (induction js arbitrary: st)
  case (Cons j js)
  let ?st = "dispatch E j st"
  have hit: "0 < rows_affected (queued_job (job_id j)) (st_jobs st)" using Cons.prems(1) by (simp add: rows_affected_pos)
  have one: "st_sched ?st = st_sched st" "st_jobs ?st = update_where (queued_job (job_id j)) (assign_effect (job_node_id j) (e_now E)) (st_jobs st)"
    "st_node_ids ?st = st_node_ids st"
    using hit Cons.prems(1) assms(3) by (simp_all add: dispatch_def push_update_def assign_job_to_node_def no_faults_def st_node_ids_def)
  have "\<exists>r \<in> set (st_jobs ?st). queued_job (job_id q) r" if mem: "q \<in> set js" for q
  proof -
    obtain r where r: "r \<in> set (st_jobs st)" "queued_job (job_id q) r" using Cons.prems(1) mem by auto
    moreover have "job_id q \<noteq> job_id j" using Cons.prems(2) mem by (auto simp: image_iff)
    ultimately show ?thesis unfolding one(2) by (intro bexI [of _ r]) (auto simp: set_update_where queued_job_def intro!: bexI [of _ r])
  qed
  note ih = Cons.IH [of ?st]
  have "st_sched (fold (dispatch E) js ?st) = st_sched ?st \<and>
    (\<forall>r \<in> set (st_jobs (fold (dispatch E) js ?st)). jr_status r = ''queued'' \<longrightarrow> r \<in> set (st_jobs ?st) \<and> jr_job_id r \<notin> job_id ` set js)"
    using \<open>\<And>q. q \<in> set js \<Longrightarrow> \<exists>r \<in> set (st_jobs ?st). queued_job (job_id q) r\<close> Cons.prems one(3) by (intro ih) auto
  moreover have "r \<in> set (st_jobs st) \<and> jr_job_id r \<noteq> job_id j" if mem: "r \<in> set (st_jobs ?st)" "jr_status r = ''queued''" for r
  proof -
    obtain q where q: "q \<in> set (st_jobs st)"
      "r = (if queued_job (job_id j) q then assign_effect (job_node_id j) (e_now E) q else q)"
      using mem(1) unfolding one(2) set_update_where by blast
    have "jr_status (assign_effect (job_node_id j) (e_now E) q) = ''starting''" by (simp add: assign_effect_def)
    then have "\<not> queued_job (job_id j) q" "r = q" using q(2) mem(2) by (auto split: if_splits)
    then show ?thesis using q(1) mem(2) by (simp add: queued_job_def)
  qed
  ultimately show ?case using one(1) by auto
qed simp


subsection \<open>Where the accounting is left\<close>

text \<open>The two cases the step relation excludes: a report of \<open>starting\<close> for a queued job, and a status write of
  the stream that fails.\<close>

lemma starting_report_escapes:
  assumes "in_step st" "find_by jr_job_id (su_job_id u) (st_jobs st) = Some r" "jr_status r = ''queued''" "su_status u = 2"
    and "no_faults E"
  shows "\<exists>q. get_job (su_job_id u) (st_jobs (snd (update_job_status_rpc E u st))) = Some q \<and> jr_status q = ''starting'' \<and>
    kget (sch_running (st_sched (snd (update_job_status_rpc E u st)))) (su_job_id u) = None"
proof -
  have "kget (sch_running (st_sched st)) (su_job_id u) = None"
    using mirror_slot [OF assms(1), of "su_job_id u"] assms(2,3) by (simp add: slot_ok_def active_row_def)
  moreover have got: "get_job (su_job_id u) (st_jobs st) = Some (fetched r)" using assms(2) by (simp add: get_job_def)
  moreover have "validate_transition Queued Starting = Inr ()" by (simp add: validate_transition_def transition_table)
  ultimately show ?thesis using assms(3-5)
    by (simp add: update_job_status_rpc_def status_int_to_str_def status_from_str_def no_faults_def notify_update_def
        update_status_row_get Let_def)
qed

lemma failed_stream_write_frees_slot:
  assumes "get_job (su_job_id u) (st_jobs st) = Some row" "jr_status row = ''running''" "su_status u = 5"
    and "e_fault E ''update_job_status''" "\<not> e_fault E ''get_job''"
  shows "fst (watch_job_status E u st) \<noteq> None \<and> st_jobs (snd (watch_job_status E u st)) = st_jobs st \<and>
    kget (sch_running (st_sched (snd (watch_job_status E u st)))) (su_job_id u) = None"
proof -
  have "validate_transition Running Succeeded = Inr ()" by (simp add: validate_transition_def transition_table)
  then show ?thesis using assms
    by (simp add: watch_job_status_def status_int_to_str_def status_from_str_def notify_update_def complete_job_def
        kget_kdel Let_def)
qed

subsection \<open>The properties at a concrete server\<close>

definition sample_node :: node_entry where
  "sample_node = \<lparr>ne_node_id = ''n1'', ne_hostname = ''h'', ne_ip_address = ''10.0.0.2'', ne_agent_version = ''1'',
     ne_os_info = ''linux'', ne_kernel_version = ''6'', ne_cpu_model = ''x'', ne_cpu_cores = 8, ne_memory_total_bytes = 1024,
     ne_registered_at = 0, ne_last_seen = 0, ne_status = Online, ne_labels = [], ne_gpu_count = 2\<rparr>"

definition sample_server :: app_state where
  "sample_server = sample_state\<lparr>st_registry := register sample_node registry_new\<rparr>"

lemma sample_server_reach: "reach fresh_server server_step sample_server"
  by (rule server.reach_start) (simp add: fresh_server_def sample_server_def sample_state_def)


theorem cycle_no_overcommit_witness:
  "db_demand ''n1'' (st_jobs (run_scheduler_cycle sample_env sample_server)) \<le> 2"
proof -
  have "registry_wf (st_registry sample_server)" "registry_get ''n1'' (st_registry sample_server) = Some sample_node"
    by (auto simp: sample_server_def register_def registry_new_def registry_wf_def registry_get_def sample_node_def kwf_def kget_def
        split: if_splits)
  moreover have "db_demand ''n1'' (st_jobs sample_server) = 0" "unat (ne_gpu_count sample_node) = 2"
    by (simp_all add: sample_node_def sample_server_def db_demand_def)
  ultimately show ?thesis using cycle_no_overcommit [OF sample_server_reach, of "''n1''" sample_node sample_env] by auto
qed

text \<open>A job that needs three GPUs waits on a cluster whose only node has two.\<close>

definition big_submission :: job_create_request where
  "big_submission = sample_submission\<lparr>q_resource_quota := ''gpu:3''\<rparr>"

definition waiting_server :: app_state where
  "waiting_server = sample_server\<lparr>st_jobs := [stored (submitted_row sample_env sample_claims big_submission)]\<rparr>"

definition waiting_row :: stored_job where
  "waiting_row = stored (submitted_row sample_env sample_claims big_submission)"

lemma waiting_row_simps [simp]:
  "jr_status waiting_row = ''queued''" "jr_job_id waiting_row = ''job_id''" "jr_resource_quota waiting_row = Some ''gpu:3''"
  "jr_node_id waiting_row = None" "jr_created_at waiting_row = 0"
  by (simp_all add: waiting_row_def stored_def submitted_row_def with_node_def big_submission_def sample_submission_def
      trim_visible_all text_eval)

lemma waiting_requirement [simp]: "parse_gpu_requirement ''gpu:3'' = 3"
  by (simp add: parse_gpu_requirement_def trim_visible_all text_eval Let_def)

lemma waiting_cycle: "st_jobs (run_scheduler_cycle sample_env waiting_server) = [waiting_row]"
  unfolding run_scheduler_cycle_def waiting_server_def waiting_row_def [symmetric]
  by (simp add: load_queue_def recycle_dead_nodes_def requeue_stale_def refresh_capacity_def Let_def
      sample_server_def sample_state_def registry_list_def register_def registry_new_def kvalues_def sample_node_def
      reset_stale_starting_jobs_def select_where_def update_where_def stale_starting_def fold_requeue forget_def
      set_node_gpu_capacity_def scheduler_new_def list_queued_jobs_for_scheduling_def job_row_to_job_def enqueue_def kget_def
      schedule_def find_node_for_job_def gpus_in_use_def saturating_sub_def word_le_nat_alt)

lemma waiting_reach: "reach fresh_server server_step waiting_server"
proof -
  have caps: "within_caps big_submission" by (simp add: within_caps_def sample_submission_def big_submission_def)
  have texts: "trim (q_name big_submission) \<noteq> []" "trim (q_executable big_submission) \<noteq> []"
    "trim (q_node_id big_submission) = []" "q_node_id big_submission = []"
    by (simp_all add: sample_submission_def big_submission_def trim_visible_all text_eval)
  obtain v where "fst (create_job sample_env sample_claims big_submission sample_server) = Ok v"
    using caps texts validate_job_request_iff [of big_submission]
    by (auto simp: create_job_def Let_def insert_job_def submitted_row_def sample_server_def)
  then obtain st where ok: "create_job sample_env sample_claims big_submission sample_server = (Ok v, st)"
    by (metis prod.collapse)
  have "reach fresh_server server_step st"
    using server.reach_next [OF sample_server_reach created] ok by (metis snd_conv)
  moreover have "st_jobs waiting_server = st_jobs st" "st_sched waiting_server = st_sched st"
    using create_job_Ok [OF ok] by (simp_all add: waiting_server_def sample_server_def)
  ultimately show ?thesis using server.reach_next server_step.other by metis
qed


end
