(* ===== verification/Job_Rows.thy ===== *)
theory Job_Rows
  imports Dispatch
begin

text \<open>
  The rows of the \<open>jobs\<close> table over the whole life of the server. Everything that writes the table is a
  conditional update that keeps what was submitted and sets a known status, or the insertion of a queued
  row; an invariant closed under the two is kept by every step of the server. Two interpretations: the
  statuses are the eight of the job model, and no job disappears or changes what was submitted.
\<close>

subsection \<open>Lawful changes of the table\<close>

definition submitted_part ::
  "'n job_row \<Rightarrow> string \<times> string \<times> string \<times> json \<times> string \<times> json \<times> string \<times> string option \<times> time \<times> int \<times> int" where
  "submitted_part r =
     (jr_job_id r, jr_name r, jr_executable r, jr_arguments r, jr_working_directory r, jr_environment r,
      jr_created_by r, jr_resource_quota r, jr_created_at r, jr_retry_count r, jr_max_retries r)"

definition known_status :: "'n job_row \<Rightarrow> bool" where
  "known_status r \<longleftrightarrow> (\<exists>s. jr_status r = status_to_str s)"

definition lawful_change :: "stored_job \<Rightarrow> stored_job \<Rightarrow> bool" where
  "lawful_change r q \<longleftrightarrow> submitted_part q = submitted_part r \<and> (known_status q \<or> jr_status q = jr_status r)"

lemma status_literals:
  "\<exists>s. ''queued'' = status_to_str s" "\<exists>s. ''starting'' = status_to_str s" "\<exists>s. ''stopping'' = status_to_str s"
  "\<exists>s. ''cancelled'' = status_to_str s" "\<exists>s. ''lost'' = status_to_str s"
  by (metis status_to_str.simps)+

lemma effects_lawful:
  "lawful_change r (assign_effect n now r)" "lawful_change r (requeue_effect r)"
  "lawful_change r (lost_effect now msg r)" "lawful_change r (cancel_effect now r)"
  "lawful_change r (stopping_effect r)" "lawful_change r (lost_default_effect now msg r)"
  using status_literals by (simp_all add: job_effects lawful_change_def submitted_part_def known_status_def)

locale table_invariant =
  fixes inv :: "job_table \<Rightarrow> bool"
  assumes inv_update: "inv t \<Longrightarrow> (\<And>r. P r \<Longrightarrow> lawful_change r (f r)) \<Longrightarrow> inv (update_where P f t)"
    and inv_insert: "inv t \<Longrightarrow> insert_job ids j t = Inr t' \<Longrightarrow> jr_status j = ''queued'' \<Longrightarrow> jr_retry_count j = 0 \<Longrightarrow> inv t'"
begin

lemma mark_force: "inv t \<Longrightarrow> inv (mark_force_cancel jid t)"
  unfolding mark_force_cancel_def by (rule inv_update) (simp_all add: lawful_change_def submitted_part_def)

lemma status_update: "inv t \<Longrightarrow> inv (update_job_status jid (status_to_str s) pid e m a b t)"
  unfolding update_job_status_def
  by (rule inv_update) (auto simp: lawful_change_def submitted_part_def known_status_def)

lemma stop_active: "inv t \<Longrightarrow> inv (snd (stop_active_job E jid force t))"
  by (auto simp: stop_active_job_def mark_stopping_if_active_def intro!: mark_force inv_update effects_lawful
      split: bool.split)

lemma stop_row: "inv (st_jobs st) \<Longrightarrow> inv (st_jobs (snd (stop_row E jid force row st)))"
  by (auto simp: stop_row_def cancel_queued_job_def split_beta Let_def intro!: stop_active inv_update effects_lawful
      split: bool.split)

lemma stop: "inv (st_jobs st) \<Longrightarrow> inv (st_jobs (snd (stop_job E cl jid ps st)))"
  using stop_row [of st E jid "is_forced ps"]
  by (auto simp: stop_job_def Let_def split: option.split prod.split sum.split) (metis snd_conv)+

lemma create: "inv (st_jobs st) \<Longrightarrow> inv (st_jobs (snd (create_job E cl req st)))"
  by (auto simp: create_job_def audit_job_rejection_def submitted_row_def Let_def split: sum.split intro: inv_insert)

lemma submit: "inv (st_jobs st) \<Longrightarrow> inv (st_jobs (snd (submit_job E d st)))"
  by (auto simp: submit_job_def submission_row_def split: sum.split intro: inv_insert)

lemma update_rpc:
  assumes "inv (st_jobs st)"
  shows "inv (st_jobs (snd (update_job_status_rpc E u st)))"
proof -
  obtain rep st' where run: "update_job_status_rpc E u st = (rep, st')" by (cases "update_job_status_rpc E u st")
  have "inv (update_status_row E u (status_to_str to) to (st_jobs st))" for to
    unfolding update_status_row_def using assms by (rule status_update)
  then show ?thesis using update_rpc_cases [OF run] assms run by auto
qed

lemma watch:
  assumes "inv (st_jobs st)" "\<not> e_fault E ''update_job_status''"
  shows "inv (st_jobs (snd (watch_job_status E u st)))"
proof (cases "e_fault E ''get_job''")
  case True
  then have "snd (watch_job_status E u st) = st" by (simp add: watch_job_status_def split: option.split)
  then show ?thesis using assms(1) by simp
next
  case False
  then show ?thesis using watch_as_unary [OF False assms(2), of u st] update_rpc [OF assms(1), of E u] by simp
qed

lemma cancel_rpc: "inv (st_jobs st) \<Longrightarrow> inv (st_jobs (snd (cancel_job_rpc E jid st)))"
  using status_update [where s = Stopping, of "st_jobs st"]
  by (auto simp: cancel_job_rpc_def Let_def split: option.split)

lemma dispatched: "inv (st_jobs st) \<Longrightarrow> inv (st_jobs (fold (dispatch E) js st))"
proof (induction js arbitrary: st)
  case (Cons j js)
  have "inv (update_where (queued_job (job_id j)) (assign_effect n now) (st_jobs st))" for n now
    using Cons.prems effects_lawful(1) by (rule inv_update)
  then have "inv (st_jobs (dispatch E j st))"
    using Cons.prems by (simp add: dispatch_def push_update_def assign_job_to_node_def split: bool.split)
  then show ?case using Cons.IH by simp
qed simp

lemma unassigned:
  "inv (st_jobs st) \<Longrightarrow> inv (st_jobs (requeue_stale E st))" "inv (st_jobs st) \<Longrightarrow> inv (st_jobs (recycle_dead_nodes E st))"
  by (auto simp: requeue_stale_def reset_stale_starting_jobs_def recycle_dead_nodes_def mark_lost_jobs_on_nodes_def Let_def
      intro!: inv_update effects_lawful)

lemma cycle:
  assumes "inv (st_jobs st)"
  shows "inv (st_jobs (run_scheduler_cycle E st))"
proof -
  let ?s = "load_queue E (recycle_dead_nodes E (requeue_stale E (refresh_capacity st)))"
  have "st_jobs (refresh_capacity st) = st_jobs st" by (simp add: refresh_capacity_def)
  moreover have "st_jobs ?s = st_jobs (recycle_dead_nodes E (requeue_stale E (refresh_capacity st)))"
    by (simp add: load_queue_def)
  ultimately have "inv (st_jobs ?s)" using unassigned assms by simp
  then show ?thesis
    unfolding run_scheduler_cycle_def Let_def by (cases "schedule (st_sched ?s)") (simp add: dispatched)
qed

lemma reap: "inv (st_jobs st) \<Longrightarrow> inv (st_jobs (reap_running E (reap_stopping E st)))"
  by (auto simp: reap_running_def reap_stopping_def reset_stale_stopping_jobs_def mark_running_jobs_lost_def Let_def
      intro!: inv_update effects_lawful)

lemma server_step_inv:
  assumes "server_step st st'" "inv (st_jobs st)"
  shows "inv (st_jobs st')"
  using assms
proof cases
  case (ticked P E n)
  have "inv (st_jobs (reap_running E (reap_stopping E b)))" if "st_jobs b = st_jobs (run_scheduler_cycle E a)" "st_jobs a = st_jobs st" for a b
    using that assms(2) cycle by (intro reap) simp
  then show ?thesis unfolding ticked background_tick_def Let_def by (simp add: unless_fault_def)
qed (auto simp: startup_def Let_def intro: create submit stop update_rpc watch cancel_rpc)

lemma reach_inv: "reach ini server_step st \<Longrightarrow> (\<And>s. ini s \<Longrightarrow> inv (st_jobs s)) \<Longrightarrow> inv (st_jobs st)"
  by (induction rule: reach.induct) (auto intro: server_step_inv)

end

subsection \<open>The statuses of stored jobs\<close>

definition typed :: "job_table \<Rightarrow> bool" where "typed t \<longleftrightarrow> (\<forall>r \<in> set t. known_status r)"

interpretation statuses: table_invariant typed
proof
  show "typed (update_where P f t)" if "typed t" "\<And>r. P r \<Longrightarrow> lawful_change r (f r)" for P f t
    using that by (auto simp: typed_def set_update_where lawful_change_def known_status_def) metis+
  show "typed t'" if t: "typed t" and i: "insert_job ids j t = Inr t'" and q: "jr_status j = ''queued''" for ids j t t'
  proof -
    obtain n where "t' = t @ [with_node n j]" using i by (auto simp: insert_job_def split: if_splits)
    moreover have "known_status (with_node n j)"
      using q status_literals(1) by (simp add: known_status_def with_node_def)
    ultimately show ?thesis using t by (simp add: typed_def)
  qed
qed

text \<open>C32. Every stored job has one of the eight statuses, in every state the server can reach; so the
  status decodes on the way to the scheduler, and the number sent to an agent decodes back to the stored status.\<close>

theorem job_statuses_decode:
  assumes "reach fresh_server server_step st" and "r \<in> set (st_jobs st)"
  shows "\<exists>s. status_from_str (jr_status r) = Some s \<and>
    status_int_to_str (pj_status (job_to_proto (fetched r))) = Some (jr_status r)"
proof -
  have "typed (st_jobs st)" using assms(1) by (rule statuses.reach_inv) (simp add: fresh_server_def typed_def)
  then obtain s where "jr_status r = status_to_str s" using assms(2) by (auto simp: typed_def known_status_def)
  then show ?thesis by (cases s) (simp_all add: job_to_proto_def proto_status_def status_int_to_str_def status_from_str_def)
qed

subsection \<open>What was submitted\<close>

definition keeps :: "job_table \<Rightarrow> job_table \<Rightarrow> bool" where
  "keeps t t' \<longleftrightarrow> submitted_part ` set t \<subseteq> submitted_part ` set t'"

interpretation submissions: table_invariant "keeps t0" for t0
proof
  show "keeps t0 (update_where P f t)" if "keeps t0 t" "\<And>r. P r \<Longrightarrow> lawful_change r (f r)" for P f t
  proof -
    have "map submitted_part (update_where P f t) = map submitted_part t"
      by (rule map_update_where) (use that(2) in \<open>simp add: lawful_change_def\<close>)
    then have "submitted_part ` set (update_where P f t) = submitted_part ` set t" by (metis set_map)
    with that(1) show ?thesis by (simp add: keeps_def)
  qed
  show "keeps t0 t'" if t: "keeps t0 t" and i: "insert_job ids j t = Inr t'" and "jr_status j = ''queued''" for ids j t t'
  proof -
    obtain n where "t' = t @ [with_node n j]" using i by (auto simp: insert_job_def split: if_splits)
    with t show ?thesis by (auto simp: keeps_def)
  qed
qed

lemma step_keeps: "server_step st st' \<Longrightarrow> keeps (st_jobs st) (st_jobs st')"
proof -
  assume "server_step st st'"
  moreover have "keeps (st_jobs st) (st_jobs st)" by (simp add: keeps_def)
  ultimately show ?thesis by (rule submissions.server_step_inv)
qed

lemma keeps_trans: "keeps a b \<Longrightarrow> keeps b c \<Longrightarrow> keeps a c"
  by (auto simp: keeps_def)

text \<open>Every job is inserted with the retry count 0, and nothing ever raises it.\<close>

definition never_retried :: "job_table \<Rightarrow> bool" where "never_retried t \<longleftrightarrow> (\<forall>r \<in> set t. jr_retry_count r = 0)"

interpretation retries: table_invariant never_retried
proof
  show "never_retried (update_where P f t)" if "never_retried t" "\<And>r. P r \<Longrightarrow> lawful_change r (f r)" for P f t
    using that by (auto simp: never_retried_def set_update_where lawful_change_def submitted_part_def)
  show "never_retried t'"
    if t: "never_retried t" and i: "insert_job ids j t = Inr t'" and "jr_status j = ''queued''" and r: "jr_retry_count j = 0"
    for ids j t t'
  proof -
    obtain n where "t' = t @ [with_node n j]" using i by (auto simp: insert_job_def split: if_splits)
    with t r show ?thesis by (simp add: never_retried_def with_node_def)
  qed
qed

theorem job_statuses_decode_witness: "\<exists>s. status_from_str (jr_status waiting_row) = Some s"
proof -
  have "waiting_row \<in> set (st_jobs waiting_server)" by (simp add: waiting_server_def waiting_row_def)
  then show ?thesis using job_statuses_decode [OF waiting_reach] by blast
qed

end
