(* ===== verification/Agent_Output.thy ===== *)
theory Agent_Output
  imports Job_Logs
begin

text \<open>
  The output of a job on its way from the process to the server, \<open>crates/agent/src/job_executor.rs\<close>: the
  lossy decoding of bytes, \<open>read_line_capped\<close>, \<open>truncated_line\<close> and the loop of \<open>stream_output\<close>.

  A reader is the list of what \<open>fill_buf\<close> will deliver: a chunk of bytes, or an error. An empty chunk and the
  end of the list are both the end of the file. The main lemma says that the lines do not depend on how
  the bytes are cut into chunks.
\<close>

subsection \<open>Lossy decoding\<close>

text \<open>\<open>String::from_utf8_lossy\<close> of the standard library: well-formed characters are kept, and every
  maximal ill-formed piece becomes one replacement character. \<open>utf8_chunk\<close> looks at the start of a
  non-empty string and answers whether a character stands there and how many bytes to take.\<close>

definition byte_in :: "nat \<Rightarrow> nat \<Rightarrow> string \<Rightarrow> nat \<Rightarrow> bool" where
  "byte_in lo hi s i \<longleftrightarrow> i < length s \<and> lo \<le> code (s ! i) \<and> code (s ! i) \<le> hi"

definition second_ok :: "string \<Rightarrow> bool" where
  "second_ok s =
     (let b = code (s ! 0)
      in if b = 0xE0 then byte_in 0xA0 0xBF s 1
         else if b = 0xED then byte_in 0x80 0x9F s 1
         else if b = 0xF0 then byte_in 0x90 0xBF s 1
         else if b = 0xF4 then byte_in 0x80 0x8F s 1
         else byte_in 0x80 0xBF s 1)"

definition utf8_char_width :: "nat \<Rightarrow> nat" where
  "utf8_char_width b =
     (if b < 0x80 then 1 else if 0xC2 \<le> b \<and> b \<le> 0xDF then 2
      else if 0xE0 \<le> b \<and> b \<le> 0xEF then 3 else if 0xF0 \<le> b \<and> b \<le> 0xF4 then 4 else 0)"

definition utf8_chunk :: "string \<Rightarrow> bool \<times> nat" where
  "utf8_chunk s =
     (let w = utf8_char_width (code (s ! 0)); continued = byte_in 0x80 0xBF s
      in if w = 1 then (True, 1)
         else if w < 2 \<or> \<not> second_ok s then (False, 1)
         else if w = 2 then (True, 2)
         else if \<not> continued 2 then (False, 2)
         else if w = 3 then (True, 3)
         else if \<not> continued 3 then (False, 3)
         else (True, 4))"

definition replacement_char :: string where
  "replacement_char = [CHR 0xEF, CHR 0xBF, CHR 0xBD]"

lemma utf8_chunk_pos: "0 < snd (utf8_chunk s)"
  by (simp add: utf8_chunk_def Let_def)

lemma drop_shorter: "s \<noteq> [] \<Longrightarrow> length s - snd (utf8_chunk s) < length s"
  using utf8_chunk_pos [of s] by (simp add: diff_less)

function from_utf8_lossy :: "string \<Rightarrow> string" where
  "from_utf8_lossy s =
     (if s = [] then []
      else (if fst (utf8_chunk s) then take (snd (utf8_chunk s)) s else replacement_char)
             @ from_utf8_lossy (drop (snd (utf8_chunk s)) s))"
  by pat_completeness auto
termination by (relation "measure length") (simp_all add: drop_shorter)

function valid_utf8 :: "string \<Rightarrow> bool" where
  "valid_utf8 s \<longleftrightarrow> (if s = [] then True else fst (utf8_chunk s) \<and> valid_utf8 (drop (snd (utf8_chunk s)) s))"
  by pat_completeness auto
termination by (relation "measure length") (simp_all add: drop_shorter)

declare from_utf8_lossy.simps [simp del] valid_utf8.simps [simp del]

lemma from_utf8_lossy_Nil [simp]: "from_utf8_lossy [] = []"
  by (simp add: from_utf8_lossy.simps)

lemma valid_utf8_Nil [simp]: "valid_utf8 []"
  by (simp add: valid_utf8.simps)

lemma valid_utf8_lossy: "valid_utf8 s \<Longrightarrow> from_utf8_lossy s = s"
proof (induction s rule: valid_utf8.induct)
  case (1 s)
  then show ?case
    by (cases "s = []") (simp_all add: valid_utf8.simps [of s] from_utf8_lossy.simps [of s])
qed

lemma second_ok_length: "second_ok s \<Longrightarrow> 2 \<le> length s"
  by (simp add: second_ok_def byte_in_def Let_def split: if_splits)

lemma byte_in_length: "byte_in lo hi s i \<Longrightarrow> i < length s"
  by (simp add: byte_in_def)

lemma utf8_chunk_bound: "s \<noteq> [] \<Longrightarrow> snd (utf8_chunk s) \<le> length s \<and> snd (utf8_chunk s) \<le> 4"
  using second_ok_length [of s] byte_in_length [of 128 191 s 2] byte_in_length [of 128 191 s 3]
  by (cases s) (auto simp: utf8_chunk_def Let_def)

lemma byte_in_take: "i < n \<Longrightarrow> n \<le> length s \<Longrightarrow> byte_in lo hi (take n s @ t) i = byte_in lo hi s i"
  by (simp add: byte_in_def nth_append)

lemma utf8_chunk_True:
  "utf8_chunk s = (True, n) \<longleftrightarrow>
     (let w = utf8_char_width (code (s ! 0))
      in w \<noteq> 0 \<and> n = w \<and> (2 \<le> w \<longrightarrow> second_ok s) \<and> (3 \<le> w \<longrightarrow> byte_in 0x80 0xBF s 2) \<and>
         (4 \<le> w \<longrightarrow> byte_in 0x80 0xBF s 3))"
proof -
  have "utf8_char_width (code (s ! 0)) \<in> {0, 1, 2, 3, 4}" by (simp add: utf8_char_width_def)
  then show ?thesis by (auto simp: utf8_chunk_def Let_def)
qed

lemma utf8_chunk_take:
  assumes "s \<noteq> []" and ok: "utf8_chunk s = (True, n)"
  shows "utf8_chunk (take n s @ t) = (True, n)"
proof -
  have le: "n \<le> length s" and pos: "0 < n" using utf8_chunk_bound [OF assms(1)] utf8_chunk_pos [of s] ok by simp_all
  have hd: "(take n s @ t) ! 0 = s ! 0" using le pos assms(1) by (simp add: nth_append)
  have b: "byte_in lo hi (take n s @ t) i = byte_in lo hi s i" if "i < n" for lo hi i
    using that le by (rule byte_in_take)
  have "second_ok (take n s @ t) = second_ok s" if "2 \<le> n"
    using b [of 1] that hd by (simp add: second_ok_def Let_def)
  moreover have "utf8_char_width (code (s ! 0)) = n" "2 \<le> n \<Longrightarrow> second_ok s" "3 \<le> n \<Longrightarrow> byte_in 0x80 0xBF s 2"
    "4 \<le> n \<Longrightarrow> byte_in 0x80 0xBF s 3" "0 < n"
    using ok pos by (auto simp: utf8_chunk_True Let_def)
  ultimately show ?thesis using b [of 2] b [of 3] by (simp add: utf8_chunk_True hd Let_def)
qed

lemma utf8_chunk_replacement: "utf8_chunk (replacement_char @ t) = (True, 3)"
  by (simp add: utf8_chunk_def replacement_char_def second_ok_def byte_in_def Let_def code_def
      utf8_char_width_def)

lemma lossy_valid: "valid_utf8 (from_utf8_lossy s)"
proof (induction s rule: from_utf8_lossy.induct)
  case (1 s)
  obtain ok n where u: "utf8_chunk s = (ok, n)" by (cases "utf8_chunk s")
  show ?case
  proof (cases "s = []")
    case False
    with 1 u have IH: "valid_utf8 (from_utf8_lossy (drop n s))" by simp
    have n: "0 < n" "n \<le> length s" using utf8_chunk_pos [of s] utf8_chunk_bound [OF False] u by simp_all
    let ?t = "from_utf8_lossy (drop n s)"
    have "valid_utf8 (take n s @ ?t)" if ok
      using utf8_chunk_take [OF False, of n ?t] u that IH n
      by (simp add: valid_utf8.simps [of "take n s @ ?t"] False)
    moreover have "valid_utf8 (replacement_char @ ?t)"
      using IH by (simp add: valid_utf8.simps [of "replacement_char @ ?t"] utf8_chunk_replacement)
        (simp add: replacement_char_def)
    ultimately show ?thesis using False u by (simp add: from_utf8_lossy.simps [of s])
  qed simp
qed

lemma valid_start: "valid_utf8 s \<Longrightarrow> s \<noteq> [] \<Longrightarrow> \<not> is_continuation (s ! 0)"
proof
  assume "valid_utf8 s" "s \<noteq> []" "is_continuation (s ! 0)"
  then have "utf8_char_width (code (s ! 0)) = 0" "fst (utf8_chunk s)"
    by (simp_all add: utf8_char_width_def is_continuation_def valid_utf8.simps [of s])
  then show False by (simp add: utf8_chunk_def)
qed

text \<open>A well-formed string has the shape that the server relies on when it cuts a line.\<close>

lemma valid_shaped: "valid_utf8 s \<Longrightarrow> utf8_shaped s"
proof (induction s rule: valid_utf8.induct)
  case (1 s)
  let ?n = "snd (utf8_chunk s)"
  show ?case unfolding utf8_shaped_def
  proof (intro allI impI)
    fix i
    assume i: "i < length s"
    then have ne: "s \<noteq> []" by auto
    have rest: "valid_utf8 (drop ?n s)" using "1.prems" ne by (simp add: valid_utf8.simps [of s])
    show "\<exists>j\<le>i. i \<le> j + 3 \<and> is_char_boundary s j"
    proof (cases "i < ?n")
      case True
      then show ?thesis using utf8_chunk_bound [OF ne] by (intro exI [of _ 0]) (auto simp: is_char_boundary_def)
    next
      case False
      then have "i - ?n < length (drop ?n s)" using i by simp
      moreover have "utf8_shaped (drop ?n s)" using 1 ne rest by (simp add: valid_utf8.simps [of s])
      ultimately obtain j where j: "j \<le> i - ?n" "i - ?n \<le> j + 3" "is_char_boundary (drop ?n s) j"
        unfolding utf8_shaped_def by blast
      have "is_char_boundary s (?n + j)"
        using j(3) valid_start [OF rest] utf8_chunk_bound [OF ne] by (auto simp: is_char_boundary_def)
      then show ?thesis using j False by (intro exI [of _ "?n + j"]) auto
    qed
  qed
qed

subsection \<open>Reading lines\<close>

type_synonym reader = "(string + string) list"

definition fill_buf :: "reader \<Rightarrow> string + string" where
  "fill_buf r = (case r of [] \<Rightarrow> Inr [] | b # _ \<Rightarrow> b)"

definition consume :: "nat \<Rightarrow> reader \<Rightarrow> reader" where
  "consume n r = (case r of Inr b # r' \<Rightarrow> (if n < length b then Inr (drop n b) # r' else r') | _ \<Rightarrow> r)"

fun position :: "char \<Rightarrow> string \<Rightarrow> nat option" where
  "position c [] = None"
| "position c (x # s) = (if x = c then Some 0 else map_option Suc (position c s))"

definition truncated_line :: "string \<Rightarrow> string" where
  "truncated_line line = from_utf8_lossy line @ '' ...[truncated]''"

text \<open>The rest of an over-long line is drained up to its newline; then reading goes on. The first component of
  an answer is the line, \<open>None\<close> at the end of the file.\<close>

fun drain_line :: "string \<Rightarrow> reader \<Rightarrow> string + (string option \<times> reader)" where
  "drain_line line [] = Inr (Some (truncated_line line), [])"
| "drain_line line (Inl e # r) = Inl e"
| "drain_line line (Inr b # r) =
     (if b = [] then Inr (Some (truncated_line line), Inr b # r)
      else case position (CHR 0x0A) b of
             Some idx \<Rightarrow> Inr (Some (truncated_line line), consume (idx + 1) (Inr b # r))
           | None \<Rightarrow> drain_line line r)"

fun read_line_capped :: "nat \<Rightarrow> string \<Rightarrow> reader \<Rightarrow> string + (string option \<times> reader)" where
  "read_line_capped cap line [] = Inr (if line = [] then None else Some (from_utf8_lossy line), [])"
| "read_line_capped cap line (Inl e # r) = Inl e"
| "read_line_capped cap line (Inr pending # r) =
     (if pending = [] then Inr (if line = [] then None else Some (from_utf8_lossy line), Inr pending # r)
      else case position (CHR 0x0A) pending of
             Some idx \<Rightarrow>
               let n = idx + 1
               in if cap < length line + n
                  then Inr (Some (truncated_line (line @ take (cap - length line) pending)), consume n (Inr pending # r))
                  else let line = line @ take n pending;
                           line = (if line \<noteq> [] \<and> last line = CHR 0x0A then butlast line else line)
                       in Inr (Some (from_utf8_lossy line), consume n (Inr pending # r))
           | None \<Rightarrow>
               let room = cap - length line
               in if room < length pending then drain_line (line @ take room pending) r
                  else read_line_capped cap (line @ pending) r)"

text \<open>What \<open>stream_output\<close> makes of a stream: the lines up to the end of the file or the first error.\<close>

definition reader_size :: "reader \<Rightarrow> nat" where
  "reader_size r = sum_list (map (\<lambda>b. case b of Inr b \<Rightarrow> length b + 1 | Inl _ \<Rightarrow> 1) r)"

lemma reader_size_simps [simp]:
  "reader_size [] = 0" "reader_size (Inl e # r) = reader_size r + 1" "reader_size (Inr b # r) = length b + 1 + reader_size r"
  by (simp_all add: reader_size_def)

lemma consume_size: "b \<noteq> [] \<Longrightarrow> 0 < n \<Longrightarrow> reader_size (consume n (Inr b # r)) < reader_size (Inr b # r)"
  by (simp add: consume_def)

lemma drain_line_size: "drain_line line r = Inr (x, r') \<Longrightarrow> reader_size r' \<le> reader_size r"
  by (induction line r rule: drain_line.induct) (auto simp: consume_def split: if_splits option.splits)

lemma read_line_size:
  "read_line_capped cap line r = Inr (x, r') \<Longrightarrow>
     reader_size r' \<le> reader_size r \<and> (r \<noteq> [] \<and> hd r \<noteq> Inr [] \<longrightarrow> reader_size r' < reader_size r)"
proof (induction cap line r rule: read_line_capped.induct)
  case (3 cap line pending r)
  show ?case
  proof (cases "position (CHR 0x0A) pending")
    case None
    with 3 show ?thesis
      by (cases "pending = []") (auto simp: Let_def split: if_splits dest: drain_line_size)
  next
    case (Some idx)
    have "r' = consume (idx + 1) (Inr pending # r)" if "pending \<noteq> []"
      using "3.prems" Some that by (auto simp: Let_def split: if_splits)
    then show ?thesis using "3.prems" consume_size [of pending "idx + 1" r]
      by (cases "pending = []") (auto simp del: reader_size_simps)
  qed
qed auto

lemma read_line_progress: "read_line_capped cap [] r = Inr (Some line, r') \<Longrightarrow> reader_size r' < reader_size r"
  using read_line_size [of cap "[]" r "Some line" r'] by (cases "(cap, [] :: string, r)" rule: read_line_capped.cases) auto

function stream_lines :: "nat \<Rightarrow> reader \<Rightarrow> string list" where
  "stream_lines cap r =
     (case read_line_capped cap [] r of
        Inr (Some line, r') \<Rightarrow> line # stream_lines cap r'
      | _ \<Rightarrow> [])"
  by pat_completeness auto
termination by (relation "measure (\<lambda>(cap, r). reader_size r)") (auto dest: read_line_progress)

declare stream_lines.simps [simp del]

text \<open>One turn of the loop of \<open>stream_output\<close>: read a line, take the next offset of the counter that both
  streams share, append the line to the local file and send it. A file that cannot be written ends the
  stream, and the offset is used up.\<close>

datatype turn_outcome = TurnSent log_message | TurnEnded | TurnFailed

record out_stream =
  os_reader :: reader
  os_file :: string

definition stream_turn :: "string \<Rightarrow> bool \<Rightarrow> int \<Rightarrow> bool \<Rightarrow> out_stream \<Rightarrow> int \<Rightarrow> turn_outcome \<times> out_stream \<times> int" where
  "stream_turn jid is_stderr now_ms writable s offset =
     (case read_line_capped MAX_LOG_LINE_BYTES [] (os_reader s) of
        Inl _ \<Rightarrow> (TurnFailed, s, offset)
      | Inr (None, r) \<Rightarrow> (TurnEnded, s\<lparr>os_reader := r\<rparr>, offset)
      | Inr (Some line, r) \<Rightarrow>
          if writable
          then (TurnSent \<lparr>lm_job_id = jid, lm_log_data = line, lm_is_stderr = is_stderr, lm_timestamp = now_ms,
                      lm_log_offset = offset\<rparr>,
                s\<lparr>os_reader := r, os_file := os_file s @ line @ [CHR 0x0A]\<rparr>, offset + 1)
          else (TurnFailed, s\<lparr>os_reader := r\<rparr>, offset + 1))"

subsection \<open>The lines do not depend on the chunks\<close>

definition sound_reader :: "reader \<Rightarrow> bool" where
  "sound_reader r \<longleftrightarrow> (\<forall>b \<in> set r. \<exists>s. b = Inr s \<and> s \<noteq> [])"

definition reader_bytes :: "reader \<Rightarrow> string" where
  "reader_bytes r = concat (map (\<lambda>b. case b of Inr s \<Rightarrow> s | Inl _ \<Rightarrow> []) r)"

lemma reader_simps [simp]:
  "sound_reader []" "reader_bytes [] = []" "\<not> sound_reader (Inl e # r)"
  "sound_reader (Inr b # r) \<longleftrightarrow> b \<noteq> [] \<and> sound_reader r" "reader_bytes (Inr b # r) = b @ reader_bytes r"
  by (auto simp: sound_reader_def reader_bytes_def)

lemma consume_bytes:
  assumes "sound_reader (Inr b # r)" and "n \<le> length b"
  shows "sound_reader (consume n (Inr b # r))" and "reader_bytes (consume n (Inr b # r)) = drop n b @ reader_bytes r"
  using assms by (auto simp: consume_def)

lemma position_Some:
  "position c s = Some i \<Longrightarrow> i < length s \<and> takeWhile (\<lambda>x. x \<noteq> c) s = take i s \<and> dropWhile (\<lambda>x. x \<noteq> c) s = drop i s \<and> s ! i = c"
  by (induction s arbitrary: i) (auto split: if_splits)

lemma position_None: "position c s = None \<longleftrightarrow> c \<notin> set s"
  by (induction s) auto

lemma while_append:
  "c \<notin> set l \<Longrightarrow> takeWhile (\<lambda>x. x \<noteq> c) (l @ s) = l @ takeWhile (\<lambda>x. x \<noteq> c) s"
  "c \<notin> set l \<Longrightarrow> dropWhile (\<lambda>x. x \<noteq> c) (l @ s) = dropWhile (\<lambda>x. x \<noteq> c) s"
  by (induction l) auto

text \<open>A line ends at a newline or with the output. A line with a newline is cut when it has at least \<open>cap\<close>
  bytes, one without when it has more.\<close>

definition sent_line :: "nat \<Rightarrow> bool \<Rightarrow> string \<Rightarrow> string" where
  "sent_line cap ended l =
     (if cap < length l \<or> (ended \<and> cap = length l) then truncated_line (take cap l) else from_utf8_lossy l)"

definition next_line :: "nat \<Rightarrow> string \<Rightarrow> string option \<times> string" where
  "next_line cap s =
     (let l = takeWhile (\<lambda>c. c \<noteq> CHR 0x0A) s; rest = dropWhile (\<lambda>c. c \<noteq> CHR 0x0A) s
      in (if s = [] then None else Some (sent_line cap (rest \<noteq> []) l), tl rest))"

lemma drain_line_spec:
  "sound_reader r \<Longrightarrow> \<exists>r'. drain_line line r = Inr (Some (truncated_line line), r') \<and> sound_reader r' \<and>
     reader_bytes r' = tl (dropWhile (\<lambda>c. c \<noteq> CHR 0x0A) (reader_bytes r))"
proof (induction line r rule: drain_line.induct)
  case (3 line b r)
  show ?case
  proof (cases "position (CHR 0x0A) b")
    case None
    then have "dropWhile (\<lambda>c. c \<noteq> CHR 0x0A) (b @ t) = dropWhile (\<lambda>c. c \<noteq> CHR 0x0A) t" for t
      by (simp add: position_None while_append)
    with None 3 show ?thesis by simp
  next
    case (Some i)
    have s: "sound_reader (Inr b # r)" by (rule "3.prems")
    from position_Some [OF Some] have i: "i + 1 \<le> length b" "dropWhile (\<lambda>c. c \<noteq> CHR 0x0A) b = drop i b" by simp_all
    then have "dropWhile (\<lambda>c. c \<noteq> CHR 0x0A) (b @ reader_bytes r) = drop i b @ reader_bytes r"
      using position_Some [OF Some] by (subst dropWhile_append1 [of "CHR 0x0A"]) (auto simp: in_set_conv_nth)
    moreover have "tl (drop i b @ reader_bytes r) = drop (i + 1) b @ reader_bytes r"
      using i(1) by (cases "drop i b") (auto simp: drop_Suc drop_tl)
    ultimately show ?thesis using Some s consume_bytes [OF s i(1)] by simp
  qed
qed simp_all

lemma read_line_spec:
  assumes "sound_reader r" and "CHR 0x0A \<notin> set line" and "length line \<le> cap"
  shows "\<exists>x r'. read_line_capped cap line r = Inr (x, r') \<and> sound_reader r' \<and>
     next_line cap (line @ reader_bytes r) = (x, reader_bytes r')"
  using assms
proof (induction cap line r rule: read_line_capped.induct)
  case (1 cap line)
  then have tw: "takeWhile (\<lambda>c. c \<noteq> CHR 0x0A) line = line" "dropWhile (\<lambda>c. c \<noteq> CHR 0x0A) line = []"
    by (auto simp: takeWhile_eq_all_conv)
  have "next_line cap line = (if line = [] then None else Some (from_utf8_lossy line), [])"
    unfolding next_line_def Let_def tw using "1.prems"(3) by (simp add: sent_line_def)
  then show ?case by simp
next
  case (3 cap line b r)
  have tw: "takeWhile (\<lambda>c. c \<noteq> CHR 0x0A) (line @ s) = line @ takeWhile (\<lambda>c. c \<noteq> CHR 0x0A) s"
    "dropWhile (\<lambda>c. c \<noteq> CHR 0x0A) (line @ s) = dropWhile (\<lambda>c. c \<noteq> CHR 0x0A) s" for s
    using "3.prems"(2) by (simp_all add: while_append)
  have ne: "b \<noteq> []" using "3.prems"(1) by simp
  show ?case
  proof (cases "position (CHR 0x0A) b")
    case None
    then have nb: "CHR 0x0A \<notin> set b" by (simp add: position_None)
    show ?thesis
    proof (cases "cap - length line < length b")
      case False
      with "3.prems" None nb ne have "\<exists>x r'. read_line_capped cap (line @ b) r = Inr (x, r') \<and> sound_reader r' \<and>
          next_line cap ((line @ b) @ reader_bytes r) = (x, reader_bytes r')"
        by (intro "3.IH") auto
      with None False ne show ?thesis by (simp add: Let_def)
    next
      case True
      obtain r' where r': "drain_line (line @ take (cap - length line) b) r =
          Inr (Some (truncated_line (line @ take (cap - length line) b)), r')" "sound_reader r'"
          "reader_bytes r' = tl (dropWhile (\<lambda>c. c \<noteq> CHR 0x0A) (reader_bytes r))"
        using drain_line_spec "3.prems"(1) by fastforce
      have "take cap (line @ b @ t) = line @ take (cap - length line) b" for t
        using True "3.prems"(3) by simp
      moreover have lt: "cap < length line + (length b + k)" for k using True "3.prems"(3) by linarith
      ultimately have "next_line cap (line @ b @ reader_bytes r) = (Some (truncated_line (line @ take (cap - length line) b)), reader_bytes r')"
        using lt nb ne r'(3)
        by (simp add: next_line_def tw sent_line_def while_append Let_def)
      with None True ne r' show ?thesis by (simp add: Let_def)
    qed
  next
    case (Some i)
    from position_Some [OF Some]
    have i: "i + 1 \<le> length b" "takeWhile (\<lambda>c. c \<noteq> CHR 0x0A) b = take i b" "dropWhile (\<lambda>c. c \<noteq> CHR 0x0A) b = drop i b" "b ! i = CHR 0x0A"
      by simp_all
    have mem: "CHR 0x0A \<in> set b" using i(1,4) nth_mem [of i b] by simp
    have dr: "drop i b = CHR 0x0A # drop (i + 1) b" using i(1,4) by (metis Cons_nth_drop_Suc Suc_eq_plus1 Suc_le_lessD)
    let ?r' = "consume (i + 1) (Inr b # r)"
    note c = consume_bytes [OF "3.prems"(1) i(1)]
    have nl: "next_line cap (line @ b @ reader_bytes r) = (Some (sent_line cap True (line @ take i b)), reader_bytes ?r')"
      using ne mem dr i(2,3) c(2) by (simp add: next_line_def tw takeWhile_append1 dropWhile_append1 Let_def)
    have tk: "take (Suc i) b = take i b @ [CHR 0x0A]" using i(1,4) by (simp add: take_Suc_conv_app_nth)
    show ?thesis
    proof (cases "cap < length line + (i + 1)")
      case True
      then have "sent_line cap True (line @ take i b) = truncated_line (line @ take (cap - length line) b)"
        using i(1) "3.prems"(3) by (auto simp: sent_line_def min_def)
      with True Some ne nl c(1) show ?thesis by (simp add: Let_def)
    next
      case False
      then have "sent_line cap True (line @ take i b) = from_utf8_lossy (line @ take i b)"
        using i(1) by (simp add: sent_line_def)
      with False Some ne nl c(1) tk show ?thesis by (simp add: Let_def butlast_append)
    qed
  qed
qed simp

lemma split_nl_while:
  "split_nl s = (if CHR 0x0A \<in> set s
     then takeWhile (\<lambda>c. c \<noteq> CHR 0x0A) s # split_nl (tl (dropWhile (\<lambda>c. c \<noteq> CHR 0x0A) s)) else [s])"
proof (induction s)
  case (Cons c s)
  show ?case
  proof (cases "c = CHR 0x0A")
    case False
    then show ?thesis unfolding split_nl.simps(2) Cons.IH by simp
  qed simp
qed simp

lemma stream_lines_split:
  assumes "sound_reader r"
  shows "stream_lines cap r =
    (let ls = split_nl (reader_bytes r)
     in map (sent_line cap True) (butlast ls) @ (if last ls = [] then [] else [sent_line cap False (last ls)]))"
  using assms
proof (induction cap r rule: stream_lines.induct)
  case (1 cap r)
  let ?s = "reader_bytes r"
  let ?l = "takeWhile (\<lambda>c. c \<noteq> CHR 0x0A) ?s" and ?rest = "dropWhile (\<lambda>c. c \<noteq> CHR 0x0A) ?s"
  obtain x r' where rd: "read_line_capped cap [] r = Inr (x, r')" "sound_reader r'"
      and nx: "next_line cap ?s = (x, reader_bytes r')"
    using read_line_spec [OF "1.prems", of "[]" cap] by auto
  show ?case
  proof (cases "?s = []")
    case True
    then have "x = None" using nx by (simp add: next_line_def)
    with rd True show ?thesis by (simp add: stream_lines.simps [of cap r])
  next
    case False
    then have x: "x = Some (sent_line cap (?rest \<noteq> []) ?l)" and b: "reader_bytes r' = tl ?rest"
      using nx by (simp_all add: next_line_def Let_def)
    have "stream_lines cap r = sent_line cap (?rest \<noteq> []) ?l # stream_lines cap r'"
      using rd(1) x by (simp add: stream_lines.simps [of cap r])
    also have "stream_lines cap r' = (let ls = split_nl (tl ?rest)
       in map (sent_line cap True) (butlast ls) @ (if last ls = [] then [] else [sent_line cap False (last ls)]))"
      using "1.IH" rd x b by simp
    finally have step: "stream_lines cap r = sent_line cap (?rest \<noteq> []) ?l # (let ls = split_nl (tl ?rest)
       in map (sent_line cap True) (butlast ls) @ (if last ls = [] then [] else [sent_line cap False (last ls)]))" .
    show ?thesis
    proof (cases "CHR 0x0A \<in> set ?s")
      case True
      then have "?rest \<noteq> []" by auto
      with step True show ?thesis by (simp add: split_nl_while [of ?s] Let_def)
    next
      case no: False
      then have "?rest = []" "?l = ?s" by (auto simp: takeWhile_eq_all_conv)
      with step no False show ?thesis by (simp add: split_nl_while [of ?s] Let_def)
    qed
  qed
qed

text \<open>A cut line is within a marker of the cap, so the server cuts it again; the markers do not pile up.\<close>

lemma cap_truncated:
  assumes "valid_utf8 (take 65536 l)" and "65536 \<le> length l"
  shows "cap_log_line (truncated_line (take 65536 l)) = take 65536 l @ '' ...[truncated]''"
proof -
  let ?s = "take 65536 l @ '' ...[truncated]''"
  have n: "length (take 65536 l) = 65536" using assms(2) by simp
  then have "is_char_boundary ?s 65536" by (simp add: is_char_boundary_def nth_append is_continuation_def code_def)
  then have "cut_at ?s 65536 = 65536" using cut_at_greatest [of 65536 65536 ?s] cut_at_le [of ?s 65536] by simp
  then show ?thesis using assms(1) n
    by (simp add: truncated_line_def valid_utf8_lossy cap_log_line_def MAX_LOG_LINE_BYTES_def)
qed

definition stored_line :: "bool \<Rightarrow> string \<Rightarrow> string" where
  "stored_line ended l =
     (if length l < 65536 \<or> (length l = 65536 \<and> \<not> ended) then l else take 65536 l @ '' ...[truncated]'')"

lemma stored_sent:
  assumes "valid_utf8 (take 65536 l)"
  shows "cap_log_line (sent_line 65536 ended l) = stored_line ended l"
proof (cases "length l < 65536 \<or> (length l = 65536 \<and> \<not> ended)")
  case True
  with assms show ?thesis
    by (auto simp: sent_line_def stored_line_def valid_utf8_lossy cap_log_line_def MAX_LOG_LINE_BYTES_def)
next
  case False
  then have "65536 \<le> length l" "65536 < length l \<or> ended \<and> 65536 = length l" by auto
  with assms False show ?thesis by (simp add: sent_line_def stored_line_def cap_truncated)
qed

text \<open>C18. From the output of a job to its log rows. However the bytes of a job's output arrive in chunks, the
  loop that reads them ends, and the lines that the server stores are the lines between the newlines of
  the output, the last one also when no newline ends it. A line is stored as it is when it is shorter than
  65536 bytes; a longer one is cut there and marked once, although agent and server both cut. (A line of
  exactly 65536 bytes is marked when a newline follows. The bytes up to the cap are assumed to be
  UTF-8 text.)\<close>

theorem output_reaches_log:
  assumes "sound_reader r" and "\<forall>l \<in> set (split_nl (reader_bytes r)). valid_utf8 (take 65536 l)"
  shows "map cap_log_line (stream_lines 65536 r) =
    (let ls = split_nl (reader_bytes r)
     in map (stored_line True) (butlast ls) @ (if last ls = [] then [] else [stored_line False (last ls)]))"
proof -
  have "last (split_nl (reader_bytes r)) \<in> set (split_nl (reader_bytes r))" by simp
  moreover have "set (butlast (split_nl (reader_bytes r))) \<subseteq> set (split_nl (reader_bytes r))"
    by (auto dest: in_set_butlastD)
  ultimately show ?thesis
    using assms by (auto simp: stream_lines_split Let_def stored_sent)
qed

theorem output_reaches_log_witness:
  "map cap_log_line (stream_lines 65536 [Inr ''ab'', Inr (''c'' @ [CHR 0x0A] @ ''d'')]) = [''abc'', ''d'']"
proof -
  let ?r = "[Inr ''ab'', Inr (''c'' @ [CHR 0x0A] @ ''d'')] :: reader"
  have "split_nl (reader_bytes ?r) = [''abc'', ''d'']" by simp
  moreover have "valid_utf8 ''abc'' \<and> valid_utf8 ''d''"
    by (simp add: valid_utf8.simps utf8_chunk_def utf8_char_width_def code_def Let_def)
  ultimately show ?thesis
    using output_reaches_log [of ?r] by (simp add: stored_line_def)
qed

subsection \<open>Two streams, one counter\<close>

text \<open>Both streams of a job run at the same time; any turn may come next, until the process ends and they are
  stopped.\<close>

record job_output =
  jo_out :: out_stream
  jo_err :: out_stream
  jo_offset :: int
  jo_sent :: "log_message list"

inductive output_turn :: "string \<Rightarrow> job_output \<Rightarrow> job_output \<Rightarrow> bool" for jid where
  out_turn: "stream_turn jid False now w (jo_out J) (jo_offset J) = (TurnSent e, s, n) \<Longrightarrow>
     output_turn jid J (J\<lparr>jo_out := s, jo_offset := n, jo_sent := jo_sent J @ [e]\<rparr>)"
| err_turn: "stream_turn jid True now w (jo_err J) (jo_offset J) = (TurnSent e, s, n) \<Longrightarrow>
     output_turn jid J (J\<lparr>jo_err := s, jo_offset := n, jo_sent := jo_sent J @ [e]\<rparr>)"

definition output_start :: "reader \<Rightarrow> reader \<Rightarrow> job_output \<Rightarrow> bool" where
  "output_start out err J \<longleftrightarrow> J = \<lparr>jo_out = \<lparr>os_reader = out, os_file = []\<rparr>, jo_err = \<lparr>os_reader = err, os_file = []\<rparr>,
     jo_offset = 0, jo_sent = []\<rparr>"

lemma stream_turn_Sent:
  assumes "stream_turn jid b now w s k = (TurnSent e, s', n)"
  shows "n = k + 1 \<and> lm_log_offset e = k \<and> lm_job_id e = jid \<and> lm_is_stderr e = b \<and>
    stream_lines MAX_LOG_LINE_BYTES (os_reader s) = lm_log_data e # stream_lines MAX_LOG_LINE_BYTES (os_reader s') \<and>
    os_file s' = os_file s @ lm_log_data e @ [CHR 0x0A]"
  using assms
  by (auto simp: stream_turn_def stream_lines.simps [of _ "os_reader s"] split: sum.splits option.splits if_splits)

definition output_inv :: "string \<Rightarrow> reader \<Rightarrow> reader \<Rightarrow> job_output \<Rightarrow> bool" where
  "output_inv jid out err J \<longleftrightarrow>
     map lm_log_offset (jo_sent J) = map int [0..<length (jo_sent J)] \<and> jo_offset J = int (length (jo_sent J)) \<and>
     (\<forall>e \<in> set (jo_sent J). lm_job_id e = jid) \<and>
     stream_lines MAX_LOG_LINE_BYTES out = map lm_log_data (filter (\<lambda>e. \<not> lm_is_stderr e) (jo_sent J))
       @ stream_lines MAX_LOG_LINE_BYTES (os_reader (jo_out J)) \<and>
     stream_lines MAX_LOG_LINE_BYTES err = map lm_log_data (filter lm_is_stderr (jo_sent J))
       @ stream_lines MAX_LOG_LINE_BYTES (os_reader (jo_err J))"

lemma output_turn_inv: "output_turn jid J J' \<Longrightarrow> output_inv jid out err J \<Longrightarrow> output_inv jid out err J'"
  by (cases rule: output_turn.cases) (auto simp: output_inv_def dest!: stream_turn_Sent)

lemma output_start_inv: "output_start out err J \<Longrightarrow> output_inv jid out err J"
  by (auto simp: output_start_def output_inv_def)

interpretation job_streams: safe_system "output_start out err" "output_turn jid" "output_inv jid out err"
  using output_start_inv output_turn_inv by unfold_locales

lemma insert_log_fresh:
  "\<not> has_line L e \<Longrightarrow> \<exists>r. lt_rows (insert_log now e L) = lt_rows L @ [r] \<and> jl_job_id r = lm_job_id e \<and>
     jl_log_offset r = lm_log_offset e \<and> jl_log_data r = cap_log_line (lm_log_data e) \<and> jl_is_stderr r = lm_is_stderr e"
  by (auto simp: insert_log_def has_line_def Let_def)

definition log_view :: "string \<Rightarrow> log_table \<Rightarrow> (int \<times> bool \<times> string) list" where
  "log_view jid L = map (\<lambda>r. (jl_log_offset r, jl_is_stderr r, jl_log_data r))
     (filter (\<lambda>r. jl_job_id r = jid) (lt_rows L))"

lemma fresh_lines_stored:
  assumes "distinct (map lm_log_offset es)" and "\<forall>e \<in> set es. lm_job_id e = jid"
    and "\<forall>r \<in> set (lt_rows L). jl_job_id r = jid \<longrightarrow> jl_log_offset r \<notin> lm_log_offset ` set es"
  shows "log_view jid (fold (insert_log now) es L) =
    log_view jid L @ map (\<lambda>e. (lm_log_offset e, lm_is_stderr e, cap_log_line (lm_log_data e))) es"
  using assms
proof (induction es arbitrary: L)
  case (Cons e es)
  have "\<not> has_line L e" using Cons.prems by (auto simp: has_line_def)
  then obtain r where r: "lt_rows (insert_log now e L) = lt_rows L @ [r]" "jl_job_id r = lm_job_id e"
      "jl_log_offset r = lm_log_offset e" "jl_log_data r = cap_log_line (lm_log_data e)" "jl_is_stderr r = lm_is_stderr e"
    using insert_log_fresh by blast
  have "log_view jid (fold (insert_log now) es (insert_log now e L)) = log_view jid (insert_log now e L) @
      map (\<lambda>e. (lm_log_offset e, lm_is_stderr e, cap_log_line (lm_log_data e))) es"
    using Cons.prems r by (intro Cons.IH) auto
  then show ?case using r Cons.prems(2) by (simp add: log_view_def)
qed simp


lemma stream_eval:
  "read_line_capped MAX_LOG_LINE_BYTES [] [Inr [CHR ''a'', CHR 0x0A]] = Inr (Some ''a'', [])"
proof -
  have "from_utf8_lossy ''a'' = ''a''"
    by (rule valid_utf8_lossy) (simp add: valid_utf8.simps utf8_chunk_def utf8_char_width_def code_def Let_def)
  then show ?thesis by (simp add: MAX_LOG_LINE_BYTES_def consume_def)
qed


text \<open>A second run of a job numbers its lines from 0 again, and nothing deletes the rows of the first run; so the
  server drops every line of the second run up to the length of the first.\<close>

lemma second_run_log_dropped:
  assumes "reach (output_start out err) (output_turn jid) J" and "reach (output_start out' err') (output_turn jid) J'"
    and "length (jo_sent J') \<le> length (jo_sent J)" and "\<forall>e \<in> set (jo_sent J). has_line L e"
  shows "lt_rows (fold (insert_log now) (jo_sent J') L) = lt_rows L"
proof (rule fold_insert_present)
  fix e'
  assume "e' \<in> set (jo_sent J')"
  have inv: "output_inv jid out err J" "output_inv jid out' err' J'"
    using assms(1,2) by (auto intro: job_streams.reach_inv)
  have "set (map lm_log_offset (jo_sent J')) \<subseteq> set (map lm_log_offset (jo_sent J))"
    using inv assms(3) unfolding output_inv_def by (simp only: ) auto
  then obtain e where "e \<in> set (jo_sent J)" "lm_log_offset e = lm_log_offset e'"
    using \<open>e' \<in> set (jo_sent J')\<close> by fastforce
  moreover from this have "has_line L e" "lm_job_id e = lm_job_id e'"
    using assms(4) inv \<open>e' \<in> set (jo_sent J')\<close> by (simp_all add: output_inv_def)
  ultimately show "has_line L e'" by (simp add: has_line_def)
qed

end
