(* ===== verification/Agent_Files.thy ===== *)
theory Agent_Files
  imports Agent_Output Grpc_Service
begin

text \<open>
  What an agent keeps on disk about its jobs and reads from \<open>/proc\<close>, \<open>crates/agent/src/job_executor.rs\<close>: the
  completion marker \<open>done\<close>, the \<open>pid\<close> file, \<open>process_starttime\<close>, the end of a process group, and the
  two clean-ups of the start.

  A file is its content, or \<open>None\<close> when it cannot be opened; \<open>read_to_string\<close> also fails on bytes that
  are not UTF-8. \<open>stat\<close> stands for \<open>/proc/<pid>/stat\<close> at the moment of the call.
\<close>

subsection \<open>The completion marker\<close>

definition status_number :: "job_status \<Rightarrow> int" where
  "status_number s = proto_status (status_to_str s)"

definition read_to_string :: "string option \<Rightarrow> string option" where
  "read_to_string f = (case f of Some c \<Rightarrow> if valid_utf8 c then Some c else None | None \<Rightarrow> None)"

definition write_completed_marker :: "u32 \<Rightarrow> job_status \<Rightarrow> int \<Rightarrow> string \<Rightarrow> string" where
  "write_completed_marker retry_count status exit_code message =
     show_nat (unat retry_count) @ CHR 0x0A # show_int (status_number status) @ CHR 0x0A # show_int exit_code @ CHR 0x0A # message"

datatype marker_read = MarkerMissing | MarkerValid job_status int string | MarkerCorrupt

definition terminal_of_number :: "int \<Rightarrow> job_status option" where
  "terminal_of_number n =
     (if n = 5 then Some Succeeded else if n = 6 then Some Failed else if n = 7 then Some Cancelled else None)"

fun next_number :: "(string \<Rightarrow> 'a option) \<Rightarrow> string list \<Rightarrow> ('a \<times> string list) option" where
  "next_number p [] = None"
| "next_number p (l # ls) = map_option (\<lambda>n. (n, ls)) (p (trim l))"

definition read_completed_marker :: "string option \<Rightarrow> u32 \<Rightarrow> marker_read" where
  "read_completed_marker f retry_count =
     (case read_to_string f of
        None \<Rightarrow> MarkerMissing
      | Some content \<Rightarrow>
     (case next_number parse_u32 (lines content) of
        None \<Rightarrow> MarkerCorrupt
      | Some (stored_retry, ls) \<Rightarrow>
          if stored_retry \<noteq> unat retry_count then MarkerMissing else
     (case next_number parse_i32 ls of
        None \<Rightarrow> MarkerCorrupt
      | Some (status_int, ls) \<Rightarrow>
     (case next_number parse_i32 ls of
        None \<Rightarrow> MarkerCorrupt
      | Some (exit_code, ls) \<Rightarrow>
     (case terminal_of_number status_int of
        None \<Rightarrow> MarkerCorrupt
      | Some status \<Rightarrow> MarkerValid status exit_code (join_nl ls))))))"

lemma lines_Cons:
  assumes "list_all visible_ascii a"
  shows "lines (a @ CHR 0x0A # b) = a # lines b"
proof -
  have "CHR 0x0A \<notin> set a" "chomp_cr a = a" using visible_no_newline [OF assms] chomp_cr_id by blast+
  then show ?thesis by (simp add: lines_def split_nl_append Let_def)
qed

lemma valid_utf8_ascii_iff: "list_all (\<lambda>c. code c < 128) a \<Longrightarrow> valid_utf8 (a @ b) \<longleftrightarrow> valid_utf8 b"
proof (induction a)
  case (Cons c a)
  then show ?case
    by (simp add: valid_utf8.simps [of "c # a @ b"] utf8_chunk_def utf8_char_width_def Let_def)
qed simp

lemma valid_utf8_ascii: "list_all (\<lambda>c. code c < 128) a \<Longrightarrow> valid_utf8 b \<Longrightarrow> valid_utf8 (a @ b)"
  by (simp add: valid_utf8_ascii_iff)

lemma visible_is_ascii: "list_all visible_ascii a \<Longrightarrow> list_all (\<lambda>c. code c < 128) a"
  by (auto simp: list_all_iff visible_ascii_def)

lemma written_marker_valid: "valid_utf8 m \<Longrightarrow> valid_utf8 (write_completed_marker r s e m)"
  unfolding write_completed_marker_def
  by (intro valid_utf8_ascii visible_is_ascii show_nat_visible show_int_visible
        valid_utf8_ascii [of "[CHR 0x0A]", simplified]) (simp_all add: code_def)

lemma parse_small [simp]:
  "parse_unsigned 4294967295 (show_nat (unat (r :: u32))) = Some (unat r)"
  "parse_signed 2147483648 2147483647 (show_int (status_number s)) = Some (status_number s)"
  using unsigned_less [of r, where ?'a = nat] by (simp_all add: status_number_def proto_status_def)

lemma read_written_marker:
  assumes "valid_utf8 m" and "s \<in> {Succeeded, Failed, Cancelled}" and "- (2 ^ 31) \<le> e" and "e < 2 ^ 31"
  shows "read_completed_marker (Some (write_completed_marker r s e m)) r' =
    (if r' = r then MarkerValid s e (join_nl (lines m)) else MarkerMissing)"
proof -
  have ls: "lines (write_completed_marker r s e m) =
      show_nat (unat r) # show_int (status_number s) # show_int e # lines m"
    by (simp add: write_completed_marker_def lines_Cons show_nat_visible show_int_visible)
  have e: "parse_i32 (show_int e) = Some e" using assms(3,4) by simp
  have s: "terminal_of_number (status_number s) = Some s"
    using assms(2) by (auto simp: terminal_of_number_def status_number_def proto_status_def)
  show ?thesis
    using assms(1) e s by (auto simp: read_completed_marker_def read_to_string_def written_marker_valid ls word_unat_eq_iff)
qed

lemma lines_id:
  assumes "CHR 0x0D \<notin> set m" and "m = [] \<or> last m \<noteq> CHR 0x0A"
  shows "join_nl (lines m) = m"
proof -
  have parts: "set l \<subseteq> set m" if "l \<in> set (split_nl m)" for l
    using that
  proof (induction m arbitrary: l)
    case (Cons c m)
    obtain h t where ht: "split_nl m = h # t" by (cases "split_nl m") auto
    with Cons.IH have "set h \<subseteq> set m" "\<And>l. l \<in> set t \<Longrightarrow> set l \<subseteq> set m" by auto
    with Cons.prems ht show ?case by (auto split: if_splits)
  qed simp
  then have cr: "map chomp_cr ls = ls" if "set ls \<subseteq> set (split_nl m)" for ls
    using that assms(1) by (intro map_idI) (meson chomp_cr_id subsetD)
  have "last (split_nl m) \<noteq> []" if "m \<noteq> []" "last m \<noteq> CHR 0x0A" for m
    using that by (induction m) (auto simp: last_tl split: if_splits)
  then show ?thesis
    using assms(2) cr [of "split_nl m"] by (cases "m = []") (auto simp: lines_def Let_def join_split_nl)
qed

text \<open>C25. The completion marker. What an agent records at the end of a run is what it reads when the same run is
  dispatched again: the status, the exit code and the message; a run with another retry count finds no
  marker. The message must be free of carriage returns and must not end in a newline, which the line by line
  reading drops.\<close>

theorem marker_roundtrip:
  assumes "valid_utf8 m" and "CHR 0x0D \<notin> set m" and "m = [] \<or> last m \<noteq> CHR 0x0A"
    and "s \<in> {Succeeded, Failed, Cancelled}" and "- (2 ^ 31) \<le> e" and "e < 2 ^ 31"
  shows "read_completed_marker (Some (write_completed_marker r s e m)) r = MarkerValid s e m \<and>
    (\<forall>r'. r' \<noteq> r \<longrightarrow> read_completed_marker (Some (write_completed_marker r s e m)) r' = MarkerMissing)"
  using read_written_marker [OF assms(1,4,5,6)] lines_id [OF assms(2,3)] by simp

theorem marker_roundtrip_witness:
  "read_completed_marker (Some (write_completed_marker 0 Failed 3 ''exit code 3'')) 0 = MarkerValid Failed 3 ''exit code 3''"
proof -
  have "valid_utf8 ''exit code 3''"
    using valid_utf8_ascii [of "''exit code 3''" "[]"] by (simp add: code_def)
  then show ?thesis using marker_roundtrip [of "''exit code 3''" Failed 3 0] by simp
qed

subsection \<open>The start time of a process\<close>

text \<open>\<open>str::split_whitespace\<close>.\<close>

fun word_length :: "string \<Rightarrow> nat" where
  "word_length [] = 0"
| "word_length (c # s) = (if match_any utf8_white_space (c # s) = 0 then Suc (word_length s) else 0)"

lemma word_length_pos: "s \<noteq> [] \<Longrightarrow> match_any utf8_white_space s = 0 \<Longrightarrow> 0 < word_length s"
  by (cases s) auto

lemma trim_start_stops: "match_any utf8_white_space (trim_start s) = 0"
  by (simp add: trim_start_def strip_front_fixed)

lemma length_trim_start: "length (trim_start s) \<le> length s"
  using strip_front_suffix [of s utf8_white_space] unfolding trim_start_def by (metis le_add2 length_append)

function split_whitespace :: "string \<Rightarrow> string list" where
  "split_whitespace s =
     (let t = trim_start s
      in if t = [] then [] else take (word_length t) t # split_whitespace (drop (word_length t) t))"
  by pat_completeness auto
termination
proof (relation "measure length", simp)
  fix s t :: string
  assume t: "t = trim_start s" "t \<noteq> []"
  then have "0 < word_length t" using trim_start_stops by (intro word_length_pos) auto
  then show "(drop (word_length t) t, s) \<in> measure length"
    using t(2) length_trim_start [of s] t(1) [symmetric] by (cases t) auto
qed

declare split_whitespace.simps [simp del]

text \<open>The command name in the second field may hold spaces and parentheses, so the fields are counted after the
  last closing one.\<close>

definition after_last :: "char \<Rightarrow> string \<Rightarrow> string" where
  "after_last c s = rev (takeWhile (\<lambda>x. x \<noteq> c) (rev s))"

definition process_starttime :: "string option \<Rightarrow> nat option" where
  "process_starttime stat =
     (case read_to_string stat of
        None \<Rightarrow> None
      | Some s \<Rightarrow>
          let fields = split_whitespace (after_last (CHR '')'') s)
          in if 19 < length fields then parse_u64 (fields ! 19) else None)"

lemma after_last_append: "c \<notin> set b \<Longrightarrow> after_last c (a @ c # b) = b"
  by (simp add: after_last_def while_append)

definition stat_text :: "string \<Rightarrow> string \<Rightarrow> string list \<Rightarrow> string" where
  "stat_text pid comm fs = pid @ '' ('' @ comm @ '')'' @ concat (map (\<lambda>f. CHR '' '' # f) fs) @ [CHR 0x0A]"

lemma visible_no_space: "visible_ascii c \<Longrightarrow> match_any utf8_white_space (c # s) = 0"
  by (rule match_any_visible) (use white_space_hd in blast)+

lemma word_length_visible:
  "list_all visible_ascii w \<Longrightarrow> match_any utf8_white_space s \<noteq> 0 \<or> s = [] \<Longrightarrow> word_length (w @ s) = length w"
proof (induction w)
  case Nil
  then show ?case by (cases s) auto
next
  case (Cons c w)
  then show ?case by (simp add: visible_no_space)
qed

lemma trim_start_word: "w \<noteq> [] \<Longrightarrow> list_all visible_ascii w \<Longrightarrow> trim_start (w @ s) = w @ s"
  by (cases w) (simp_all add: trim_start_def strip_front_id visible_no_space)

lemma trim_start_space: "trim_start (CHR '' '' # s) = trim_start s"
  by (simp add: trim_start_def strip_front.simps [of _ "CHR '' '' # s"] utf8_white_space_def)

lemma trim_start_newline: "trim_start [CHR 0x0A] = []"
  by (simp add: trim_start_def strip_front.simps [of _ "[CHR 0x0A]"] strip_front.simps [of _ "[]"] utf8_white_space_def)

lemma split_fields_tail:
  assumes "\<forall>f \<in> set fs. f \<noteq> [] \<and> list_all visible_ascii f" and tail: "tail = [] \<or> tail = [CHR 0x0A]"
  shows "split_whitespace (concat (map (\<lambda>f. CHR '' '' # f) fs) @ tail) = fs"
  using assms(1)
proof (induction fs)
  case Nil
  have "trim_start [] = []" by (simp add: trim_start_def)
  with tail show ?case by (auto simp: split_whitespace.simps trim_start_newline)
next
  case (Cons f fs)
  let ?rest = "concat (map (\<lambda>f. CHR '' '' # f) fs) @ tail"
  have t: "trim_start (CHR '' '' # f @ ?rest) = f @ ?rest" using Cons.prems by (simp add: trim_start_space trim_start_word)
  have "match_any utf8_white_space ?rest \<noteq> 0 \<or> ?rest = []" using tail by (cases fs) (auto simp: utf8_white_space_def)
  then have w: "word_length (f @ ?rest) = length f" using Cons.prems by (intro word_length_visible) auto
  have "split_whitespace (CHR '' '' # f @ ?rest) = f # split_whitespace ?rest"
    unfolding split_whitespace.simps [of "CHR '' '' # f @ ?rest"] Let_def t using Cons.prems w by simp
  then show ?case using Cons.IH Cons.prems by simp
qed

lemma split_fields:
  assumes "\<forall>f \<in> set fs. f \<noteq> [] \<and> list_all visible_ascii f"
  shows "split_whitespace (concat (map (\<lambda>f. CHR '' '' # f) fs) @ [CHR 0x0A]) = fs"
  using split_fields_tail [OF assms] by simp

text \<open>The start time of a process is read from the 22nd field of its \<open>stat\<close> line, whatever its command name
  holds, spaces, parentheses or digits; a name that is not UTF-8 (the kernel cuts names to 15 bytes) makes it
  unreadable.\<close>

lemma starttime_spec:
  assumes "list_all visible_ascii pid" and "19 < length fs" and "fs ! 19 = show_nat st" and "st < 2 ^ 64"
    and "\<forall>f \<in> set fs. f \<noteq> [] \<and> list_all visible_ascii f \<and> CHR '')'' \<notin> set f"
  shows "process_starttime (Some (stat_text pid comm fs)) =
    (if valid_utf8 (stat_text pid comm fs) then Some st else None)"
proof -
  let ?rest = "concat (map (\<lambda>f. CHR '' '' # f) fs) @ [CHR 0x0A]"
  have "CHR '')'' \<notin> set ?rest" using assms(5) by auto
  then have "after_last (CHR '')'') (stat_text pid comm fs) = ?rest"
    using after_last_append [of "CHR '')''" ?rest "pid @ '' ('' @ comm"] by (simp add: stat_text_def)
  moreover have "split_whitespace ?rest = fs" using assms(5) by (intro split_fields) auto
  moreover have "st \<le> 2 ^ 64 - 1" using assms(4) by linarith
  ultimately show ?thesis
    using assms(2,3) by (simp add: process_starttime_def read_to_string_def)
qed

definition sample_stat :: "string \<Rightarrow> nat \<Rightarrow> string" where
  "sample_stat comm st = stat_text ''42'' comm (replicate 19 ''0'' @ [show_nat st, ''7''])"

lemma show_12: "show_nat 12 = ''12''"
  by code_simp

subsection \<open>Process groups\<close>

datatype signal = SIGTERM | SIGKILL

text \<open>A signal to a group is logged as the negative number that \<open>kill\<close> gets and the signal.\<close>

type_synonym signals = "(int \<times> signal) list"

definition recycled :: "string option \<Rightarrow> nat \<Rightarrow> bool" where
  "recycled stat expected_start \<longleftrightarrow>
     (case process_starttime stat of Some actual \<Rightarrow> 0 < expected_start \<and> actual \<noteq> expected_start | None \<Rightarrow> False)"

text \<open>The ten probes half a second apart: the group is alive when a probe succeeds or is not permitted.\<close>

definition kill_remaining_process_group :: "int \<Rightarrow> nat \<Rightarrow> string option \<Rightarrow> (nat \<Rightarrow> bool) \<Rightarrow> signals" where
  "kill_remaining_process_group pgid expected_start stat alive =
     (if pgid \<le> 1 \<or> recycled stat expected_start then []
      else (- pgid, SIGTERM) # (if \<forall>i \<in> set [0..<10]. alive i then [(- pgid, SIGKILL)] else []))"

text \<open>The \<open>pid\<close> file of a running job, and what the start of an agent does about one it finds.\<close>

definition pid_file_content :: "int \<Rightarrow> nat \<Rightarrow> string" where
  "pid_file_content pid starttime = show_int pid @ CHR 0x0A # show_nat starttime"

datatype orphan_decision = LeaveAlone | DropMarker | Reap int

definition orphan_action :: "(int \<Rightarrow> string option) \<Rightarrow> string option \<Rightarrow> orphan_decision" where
  "orphan_action stat f =
     (case read_to_string f of
        None \<Rightarrow> LeaveAlone
      | Some contents \<Rightarrow>
          let ls = lines (trim contents)
          in case parse_i32 (case ls of [] \<Rightarrow> [] | l # _ \<Rightarrow> trim l) of
               None \<Rightarrow> LeaveAlone
             | Some pid \<Rightarrow>
                 if pid \<le> 1 then LeaveAlone
                 else case (case ls of _ # l # _ \<Rightarrow> parse_u64 (trim l) | _ \<Rightarrow> None) of
                        None \<Rightarrow> Reap pid
                      | Some expected_start \<Rightarrow>
                          (case process_starttime (stat pid) of
                             Some actual \<Rightarrow> if actual = expected_start then Reap pid else DropMarker
                           | None \<Rightarrow> DropMarker))"

text \<open>A directory entry under \<open>log_dir\<close>. A job's directory is named after the job.\<close>

record job_dir =
  jd_name :: string
  jd_is_dir :: bool
  jd_modified :: time
  jd_done :: "string option"
  jd_pid :: "string option"

text \<open>The reaping at the start: what is signalled at once, the groups that are killed five seconds later, when
  their markers go as well, and the directories as they are after the first part.\<close>

definition cleanup_orphaned_process_groups ::
  "(int \<Rightarrow> string option) \<Rightarrow> job_dir list \<Rightarrow> signals \<times> (string \<times> int) list \<times> job_dir list" where
  "cleanup_orphaned_process_groups stat dirs =
     (let act = (\<lambda>d. orphan_action stat (jd_pid d))
      in (concat (map (\<lambda>d. case act d of Reap p \<Rightarrow> [(- p, SIGTERM)] | _ \<Rightarrow> []) dirs),
          concat (map (\<lambda>d. case act d of Reap p \<Rightarrow> [(jd_name d, p)] | _ \<Rightarrow> []) dirs),
          map (\<lambda>d. if act d = DropMarker then d\<lparr>jd_pid := None\<rparr> else d) dirs))"

definition reap_later :: "(string \<times> int) \<Rightarrow> job_dir list \<Rightarrow> signals \<times> job_dir list" where
  "reap_later k dirs =
     ([(- snd k, SIGKILL)], map (\<lambda>d. if jd_name d = fst k then d\<lparr>jd_pid := None\<rparr> else d) dirs)"

definition cleanup_old_job_dirs :: "time \<Rightarrow> int \<Rightarrow> job_dir list \<Rightarrow> job_dir list" where
  "cleanup_old_job_dirs now max_age dirs =
     filter (\<lambda>d. \<not> (jd_is_dir d \<and> jd_modified d \<le> now \<and> max_age < now - jd_modified d)) dirs"

lemma pid_file_lines:
  "lines (trim (pid_file_content p st)) = [show_int p, show_nat st]" "valid_utf8 (pid_file_content p st)"
proof -
  obtain c n where n: "show_nat st = n @ [c]" "list_all visible_ascii (n @ [c])"
    using show_nat_digits [of st] show_nat_visible [of st] by (metis append_butlast_last_id)
  obtain d i where i: "show_int p = d # i" "visible_ascii d"
    using show_int_visible [of p] show_nat_digits [of "nat p"] by (cases "show_int p") (auto simp: show_int_def split: if_splits)
  have "trim (pid_file_content p st) = pid_file_content p st"
    using i n by (intro trim_visible) (auto simp: pid_file_content_def)
  then show "lines (trim (pid_file_content p st)) = [show_int p, show_nat st]"
    using visible_no_newline [OF show_nat_visible, of st] show_nat_digits [of st]
    by (simp add: pid_file_content_def lines_Cons show_int_visible) (simp add: lines_def split_nl_no_newline chomp_cr_id Let_def)
  show "valid_utf8 (pid_file_content p st)"
    using valid_utf8_ascii [of "pid_file_content p st" "[]"] visible_is_ascii [OF show_nat_visible, of st]
      visible_is_ascii [OF show_int_visible, of p]
    by (simp add: pid_file_content_def code_def)
qed

lemma pid_file_same_start: "pid_file_content p st = pid_file_content q st' \<Longrightarrow> st = st'"
proof -
  assume "pid_file_content p st = pid_file_content q st'"
  then have "[show_int p, show_nat st] = [show_int q, show_nat st']" by (metis pid_file_lines(1))
  then show "st = st'" by (metis digits_value_show list.inject)
qed

lemma orphan_action_written:
  assumes "1 < p" and "p < 2 ^ 31" and "st < 2 ^ 64"
  shows "orphan_action stat (Some (pid_file_content p st)) =
    (if process_starttime (stat p) = Some st then Reap p else DropMarker)"
proof -
  have "parse_i32 (show_int p) = Some p" using assms by simp
  moreover have "parse_u64 (show_nat st) = Some st" using assms(3) by (intro parse_unsigned_show) linarith
  ultimately show ?thesis
    using assms(1) by (auto simp: orphan_action_def read_to_string_def pid_file_lines Let_def split: option.split)
qed

definition own_pid_file :: "string option \<Rightarrow> bool" where
  "own_pid_file f \<longleftrightarrow> f = None \<or> (\<exists>p st. 1 < p \<and> p < 2 ^ 31 \<and> st < 2 ^ 64 \<and> f = Some (pid_file_content p st))"

lemma own_written: "1 < p \<Longrightarrow> p < 2 ^ 31 \<Longrightarrow> st < 2 ^ 64 \<Longrightarrow> own_pid_file (Some (pid_file_content p st))"
  unfolding own_pid_file_def by blast

lemma own_not_left: "own_pid_file f \<Longrightarrow> f \<noteq> None \<Longrightarrow> (\<exists>p. orphan_action stat f = Reap p) \<or> orphan_action stat f = DropMarker"
  unfolding own_pid_file_def using orphan_action_written by metis

lemma orphan_action_own:
  "own_pid_file f \<Longrightarrow> orphan_action stat f = Reap p \<longleftrightarrow>
     (\<exists>st. 1 < p \<and> p < 2 ^ 31 \<and> st < 2 ^ 64 \<and> f = Some (pid_file_content p st) \<and> process_starttime (stat p) = Some st)"
proof (cases f)
  case (Some c)
  assume "own_pid_file f"
  with Some obtain q st where q: "1 < q" "q < 2 ^ 31" "st < 2 ^ 64" "f = Some (pid_file_content q st)"
    by (auto simp: own_pid_file_def)
  have "p' = q \<and> st' = st" if "1 < p'" "p' < 2 ^ 31" "st' < 2 ^ 64" "pid_file_content p' st' = pid_file_content q st" for p' st'
  proof -
    have "[show_int p', show_nat st'] = [show_int q, show_nat st]" using pid_file_lines(1) that(4) by metis
    then have "show_int p' = show_int q" "digits_value (show_nat st') = digits_value (show_nat st)" by simp_all
    moreover have "parse_i32 (show_int p') = Some p'" "parse_i32 (show_int q) = Some q" using that q by simp_all
    ultimately show ?thesis by (metis digits_value_show option.inject)
  qed
  then have inj: "p' = q \<and> st' = st"
    if "1 < p'" "p' < 2 ^ 31" "st' < 2 ^ 64" "f = Some (pid_file_content p' st')" for p' st'
    using that q(4) by simp
  have act: "orphan_action stat f = (if process_starttime (stat q) = Some st then Reap q else DropMarker)"
    unfolding q(4) using q(1-3) by (rule orphan_action_written)
  show ?thesis
  proof
    assume "orphan_action stat f = Reap p"
    then have "p = q" "process_starttime (stat q) = Some st" using act by (simp_all split: if_splits)
    then show "\<exists>st. 1 < p \<and> p < 2 ^ 31 \<and> st < 2 ^ 64 \<and> f = Some (pid_file_content p st) \<and> process_starttime (stat p) = Some st"
      using q by blast
  next
    assume "\<exists>st. 1 < p \<and> p < 2 ^ 31 \<and> st < 2 ^ 64 \<and> f = Some (pid_file_content p st) \<and> process_starttime (stat p) = Some st"
    then show "orphan_action stat f = Reap p" using inj act by fastforce
  qed
qed (simp add: orphan_action_def read_to_string_def)

text \<open>C26. Reaping after a restart. When the pid files are those that an agent writes, the start of the next agent
  signals exactly the groups whose recorded leader is still the same process, with SIGTERM at once and
  marked for SIGKILL; a recycled or vanished pid is left alone and its marker dropped. No other group is
  touched, and in particular neither the agent's own group nor every process.\<close>

theorem orphans_reaped:
  assumes "\<forall>d \<in> set dirs. own_pid_file (jd_pid d)"
    and "cleanup_orphaned_process_groups stat dirs = (sigs, later, dirs')"
  shows "((g, s) \<in> set sigs \<longleftrightarrow> s = SIGTERM \<and> (\<exists>d \<in> set dirs. \<exists>st. g < - 1 \<and> - (2 ^ 31) < g \<and> st < 2 ^ 64 \<and>
      jd_pid d = Some (pid_file_content (- g) st) \<and> process_starttime (stat (- g)) = Some st)) \<and>
    ((\<exists>j. (j, p) \<in> set later) \<longleftrightarrow> (- p, SIGTERM) \<in> set sigs) \<and>
    (\<forall>d \<in> set dirs. jd_pid d \<noteq> None \<longrightarrow> (\<nexists>p. orphan_action stat (jd_pid d) = Reap p) \<longrightarrow> d\<lparr>jd_pid := None\<rparr> \<in> set dirs')"
proof -
  have sigs: "(g, s) \<in> set sigs \<longleftrightarrow> s = SIGTERM \<and> (\<exists>d \<in> set dirs. orphan_action stat (jd_pid d) = Reap (- g))" for g s
    using assms(2) unfolding cleanup_orphaned_process_groups_def Let_def
    by (force split: orphan_decision.splits)
  have later: "(\<exists>j. (j, p) \<in> set later) \<longleftrightarrow> (\<exists>d \<in> set dirs. orphan_action stat (jd_pid d) = Reap p)"
    using assms(2) unfolding cleanup_orphaned_process_groups_def Let_def
    by (force split: orphan_decision.splits)
  have drop: "orphan_action stat (jd_pid d) = DropMarker"
    if "d \<in> set dirs" "jd_pid d \<noteq> None" "\<nexists>p. orphan_action stat (jd_pid d) = Reap p" for d
    using that assms(1) own_not_left by blast
  have "d\<lparr>jd_pid := None\<rparr> \<in> set dirs'"
    if "d \<in> set dirs" "jd_pid d \<noteq> None" "\<nexists>p. orphan_action stat (jd_pid d) = Reap p" for d
    using assms(2) drop [OF that] that(1) unfolding cleanup_orphaned_process_groups_def Let_def by force
  then show ?thesis using sigs later assms(1) by (auto simp: orphan_action_own)
qed

definition sample_dir :: job_dir where
  "sample_dir = \<lparr>jd_name = ''j1'', jd_is_dir = True, jd_modified = 0, jd_done = None, jd_pid = Some (pid_file_content 42 12)\<rparr>"

theorem orphans_reaped_witness:
  "fst (cleanup_orphaned_process_groups (\<lambda>_. None) [sample_dir]) = []"
proof -
  have own: "\<forall>d \<in> set [sample_dir]. own_pid_file (jd_pid d)"
    using own_written [of 42 12] by (simp add: sample_dir_def)
  obtain sigs later dirs' where c: "cleanup_orphaned_process_groups (\<lambda>_. None) [sample_dir] = (sigs, later, dirs')"
    by (metis prod_cases3)
  have "process_starttime None = None" by (simp add: process_starttime_def read_to_string_def)
  then have "(g, s) \<notin> set sigs" for g s
    using orphans_reaped [OF own c, of g s] by auto
  then show ?thesis using c by (cases sigs) auto
qed

end
