(* ===== verification/Agent_Runtime.thy ===== *)
theory Agent_Runtime
  imports Agent_Files
begin

text \<open>
  The execution of jobs on a node: \<open>JobRuntime\<close> and \<open>execute_job\<close> of \<open>crates/agent/src/job_executor.rs\<close>, and the poll
  loop, its cancellation tasks and the pruning of \<open>crates/agent/src/grpc_client.rs\<close> and \<open>lib.rs\<close>.

  The agent is a pool of asynchronous tasks over the shared maps of the runtime. A task is its program point
  with its local variables; it moves from one point to the next in one step, and between two steps any
  other task may run. The points are cut where the code takes a lock or waits for something outside.
  What the outside answers is a \<open>choice\<close>: the contents of \<open>/proc\<close>, the result of spawning and
  of waiting, whether directories and files can be written. Signals, started processes, status reports
  and the warnings about recycled pids are logged in the state.
\<close>

subsection \<open>State\<close>

record command =
  cmd_program :: string
  cmd_args :: "string list"
  cmd_dir :: string
  cmd_env :: "(string, string) kmap"

type_synonym wait_outcome = "string + int option"

datatype task =
    Claim proto_job
  | CheckCancelled proto_job
  | ReadMarker proto_job
  | Spawn proto_job
  | Register proto_job int
  | WritePid proto_job int nat
  | CheckRace proto_job int nat
  | ReportRunning proto_job int nat
  | Wait proto_job int nat
  | KillGroup proto_job int nat wait_outcome
  | Unregister proto_job int nat wait_outcome
  | Conclude proto_job int wait_outcome
  | Release proto_job
  | Cancel proto_job
  | ReportNotRunning string
  | Forget string
  | Escalate string

datatype poll = PollIdle | PollPids proto_job | PollCancelled proto_job | PollReserve proto_job

record agent =
  ag_pids :: "string \<Rightarrow> (int \<times> nat) option"
  ag_cancelled :: "string set"
  ag_running :: "string set"
  ag_done :: "string \<Rightarrow> string option"
  ag_pid_files :: "string \<Rightarrow> string option"
  ag_tasks :: "task list"
  ag_poll :: poll
  ag_signals :: signals
  ag_spawned :: "(string \<times> int \<times> command) list"
  ag_reports :: "(status_update \<times> string option) list"
  ag_warned :: "(string \<times> int) list"

record choice =
  ch_stat :: "int \<Rightarrow> string option"
  ch_dir_ok :: bool
  ch_spawn :: "string + int"
  ch_wait :: wait_outcome
  ch_alive :: "nat \<Rightarrow> bool"
  ch_write_ok :: bool

subsection \<open>Operations of the runtime\<close>

definition try_claim :: "string \<Rightarrow> agent \<Rightarrow> bool \<times> agent" where
  "try_claim jid A = (jid \<notin> ag_running A, A\<lparr>ag_running := insert jid (ag_running A)\<rparr>)"

definition release :: "string \<Rightarrow> agent \<Rightarrow> agent" where
  "release jid A = A\<lparr>ag_running := ag_running A - {jid}\<rparr>"

definition send_signal :: "int \<Rightarrow> signal \<Rightarrow> agent \<Rightarrow> agent" where
  "send_signal pid sig A = A\<lparr>ag_signals := ag_signals A @ [(- pid, sig)]\<rparr>"

text \<open>Answers whether the job counts as running, and whether the escalation task is started.\<close>

definition request_cancel :: "choice \<Rightarrow> string \<Rightarrow> agent \<Rightarrow> (bool \<times> bool) \<times> agent" where
  "request_cancel ch jid A =
     (if jid \<in> ag_cancelled A then ((ag_pids A jid \<noteq> None, False), A)
      else let A = A\<lparr>ag_cancelled := insert jid (ag_cancelled A)\<rparr>
           in case ag_pids A jid of
                None \<Rightarrow> ((False, False), A)
              | Some (pid, expected_start) \<Rightarrow>
                  if recycled (ch_stat ch pid) expected_start
                  then ((True, False), A\<lparr>ag_warned := ag_warned A @ [(jid, pid)]\<rparr>)
                  else if pid \<le> 0 then ((True, False), A)
                  else ((True, True), send_signal pid SIGTERM A))"

definition escalate :: "choice \<Rightarrow> string \<Rightarrow> agent \<Rightarrow> agent" where
  "escalate ch jid A =
     (case ag_pids A jid of
        None \<Rightarrow> A
      | Some (pid, expected_start) \<Rightarrow>
          if recycled (ch_stat ch pid) expected_start then A\<lparr>ag_warned := ag_warned A @ [(jid, pid)]\<rparr>
          else if pid \<le> 0 then A
          else send_signal pid SIGKILL A)"

definition force_cancel :: "choice \<Rightarrow> string \<Rightarrow> agent \<Rightarrow> bool \<times> agent" where
  "force_cancel ch jid A =
     (let A = A\<lparr>ag_cancelled := insert jid (ag_cancelled A)\<rparr>
      in case ag_pids A jid of
           Some (pid, expected_start) \<Rightarrow>
             if 0 < pid then
               (if recycled (ch_stat ch pid) expected_start
                then (True, A\<lparr>ag_warned := ag_warned A @ [(jid, pid)]\<rparr>)
                else (True, send_signal pid SIGKILL A))
             else (True, A)
         | None \<Rightarrow> (False, A))"

definition prune :: "agent \<Rightarrow> agent" where
  "prune A = A\<lparr>ag_cancelled := {i \<in> ag_cancelled A. i \<in> ag_running A \<or> ag_pids A i \<noteq> None}\<rparr>"

text \<open>\<open>Authorization\<close> is attached when a token is set that is a valid header value; \<open>metadata\<close> is the parser of the
  \<open>tonic\<close> crate.\<close>

definition authed :: "(string \<Rightarrow> string option) \<Rightarrow> string \<Rightarrow> string option" where
  "authed metadata token = (if token = [] then None else metadata (''Bearer '' @ token))"

definition report_status :: "string option \<Rightarrow> string \<Rightarrow> job_status \<Rightarrow> string \<Rightarrow> agent \<Rightarrow> agent" where
  "report_status auth jid status message A =
     A\<lparr>ag_reports := ag_reports A @
        [(\<lparr>su_job_id = jid, su_status = status_number status, su_message = message\<rparr>, auth)]\<rparr>"

definition record_marker :: "choice \<Rightarrow> proto_job \<Rightarrow> job_status \<Rightarrow> int \<Rightarrow> string \<Rightarrow> agent \<Rightarrow> agent" where
  "record_marker ch j status exit_code message A =
     (if ch_write_ok ch
      then A\<lparr>ag_done := (ag_done A)(pj_job_id j \<mapsto>
             write_completed_marker (pj_retry_count j) status exit_code message)\<rparr>
      else A)"

text \<open>The terminal status of a process that has been waited for.\<close>

definition final_outcome :: "bool \<Rightarrow> wait_outcome \<Rightarrow> job_status \<times> int \<times> string" where
  "final_outcome is_cancelled result =
     (case result of
        Inl e \<Rightarrow> (Failed, - 1, ''wait failed: '' @ e)
      | Inr status \<Rightarrow>
          let exit_code = (case status of Some c \<Rightarrow> c | None \<Rightarrow> - 1)
          in if is_cancelled then (Cancelled, exit_code, ''cancelled (exit '' @ show_int exit_code @ '')'')
             else if exit_code = 0 then (Succeeded, exit_code, [])
             else (Failed, exit_code, ''exit code '' @ show_int exit_code))"

definition job_command :: "proto_job \<Rightarrow> command" where
  "job_command j = \<lparr>cmd_program = pj_executable j, cmd_args = pj_arguments j, cmd_dir = pj_working_directory j,
     cmd_env = pj_environment j\<rparr>"

subsection \<open>Tasks\<close>

text \<open>One step of a task: the tasks it becomes, itself at its next point and a task it starts.\<close>

fun run_task :: "string option \<Rightarrow> choice \<Rightarrow> task \<Rightarrow> agent \<Rightarrow> task list \<times> agent" where
  "run_task auth ch (Claim j) A =
     (let (mine, A) = try_claim (pj_job_id j) A in (if mine then [CheckCancelled j] else [], A))"
| "run_task auth ch (CheckCancelled j) A =
     (if pj_job_id j \<in> ag_cancelled A
      then ([Release j], report_status auth (pj_job_id j) Cancelled ''cancelled before start'' A)
      else ([ReadMarker j], A))"
| "run_task auth ch (ReadMarker j) A =
     (case read_completed_marker (ag_done A (pj_job_id j)) (pj_retry_count j) of
        MarkerValid status exit_code message \<Rightarrow> ([Release j], report_status auth (pj_job_id j) status message A)
      | MarkerCorrupt \<Rightarrow>
          ([Release j], report_status auth (pj_job_id j) Failed ''refusing to execute: corrupt completion marker'' A)
      | MarkerMissing \<Rightarrow> (if ch_dir_ok ch then [Spawn j] else [Release j], A))"
| "run_task auth ch (Spawn j) A =
     (case ch_spawn ch of
        Inl e \<Rightarrow> ([Release j], report_status auth (pj_job_id j) Failed (''spawn failed: '' @ e)
                    (record_marker ch j Failed (- 1) (''spawn failed: '' @ e) A))
      | Inr pid \<Rightarrow> ([Register j pid], A\<lparr>ag_spawned := ag_spawned A @ [(pj_job_id j, pid, job_command j)]\<rparr>))"
| "run_task auth ch (Register j pid) A =
     (let starttime = (case process_starttime (ch_stat ch pid) of Some s \<Rightarrow> s | None \<Rightarrow> 0)
      in ([WritePid j pid starttime], A\<lparr>ag_pids := (ag_pids A)(pj_job_id j \<mapsto> (pid, starttime))\<rparr>))"
| "run_task auth ch (WritePid j pid starttime) A =
     ([CheckRace j pid starttime],
      if ch_write_ok ch
      then A\<lparr>ag_pid_files := (ag_pid_files A)(pj_job_id j \<mapsto> pid_file_content pid starttime)\<rparr> else A)"
| "run_task auth ch (CheckRace j pid starttime) A =
     ([ReportRunning j pid starttime],
      if pj_job_id j \<in> ag_cancelled A then send_signal pid SIGTERM A else A)"
| "run_task auth ch (ReportRunning j pid starttime) A =
     ([Wait j pid starttime], report_status auth (pj_job_id j) Running [] A)"
| "run_task auth ch (Wait j pid starttime) A = ([KillGroup j pid starttime (ch_wait ch)], A)"
| "run_task auth ch (KillGroup j pid starttime result) A =
     ([Unregister j pid starttime result],
      A\<lparr>ag_signals := ag_signals A @ kill_remaining_process_group pid starttime (ch_stat ch pid) (ch_alive ch)\<rparr>)"
| "run_task auth ch (Unregister j pid starttime result) A =
     ([Conclude j pid result],
      A\<lparr>ag_pids := (ag_pids A)(pj_job_id j := None),
        ag_pid_files := if ch_write_ok ch then (ag_pid_files A)(pj_job_id j := None) else ag_pid_files A\<rparr>)"
| "run_task auth ch (Conclude j pid result) A =
     (let (status, exit_code, message) = final_outcome (pj_job_id j \<in> ag_cancelled A) result
      in ([Release j], report_status auth (pj_job_id j) status message
             (record_marker ch j status exit_code message A)))"
| "run_task auth ch (Release j) A = ([], release (pj_job_id j) A)"
| "run_task auth ch (Cancel j) A =
     (let jid = pj_job_id j
      in if pj_error_message j = FORCE_CANCEL_MARKER then
           (let (is_running, A) = force_cancel ch jid A in (if is_running then [] else [ReportNotRunning jid], A))
         else
           (let ((is_running, escalation), A) = request_cancel ch jid A
            in ((if escalation then [Escalate jid] else []) @ (if is_running then [] else [ReportNotRunning jid]), A)))"
| "run_task auth ch (ReportNotRunning jid) A =
     ([Forget jid], report_status None jid Cancelled ''cancelled before start'' A)"
| "run_task auth ch (Forget jid) A = ([], A\<lparr>ag_cancelled := ag_cancelled A - {jid}\<rparr>)"
| "run_task auth ch (Escalate jid) A = ([], escalate ch jid A)"

text \<open>The poll loop handles one message of the server after the other: a job that is stopping starts a
  cancellation, any other is checked against the pids and the cancelled jobs, reserved and started.\<close>

definition receive_job :: "proto_job \<Rightarrow> agent \<Rightarrow> agent" where
  "receive_job j A =
     (if pj_status j = status_number Stopping then A\<lparr>ag_tasks := ag_tasks A @ [Cancel j]\<rparr>
      else A\<lparr>ag_poll := PollPids j\<rparr>)"

fun poll_next :: "poll \<Rightarrow> agent \<Rightarrow> agent" where
  "poll_next PollIdle A = A"
| "poll_next (PollPids j) A =
     A\<lparr>ag_poll := if ag_pids A (pj_job_id j) \<noteq> None then PollIdle else PollCancelled j\<rparr>"
| "poll_next (PollCancelled j) A =
     A\<lparr>ag_poll := if pj_job_id j \<in> ag_cancelled A then PollIdle else PollReserve j\<rparr>"
| "poll_next (PollReserve j) A =
     A\<lparr>ag_pids := (ag_pids A)(pj_job_id j \<mapsto> (0, 0)), ag_tasks := ag_tasks A @ [Claim j], ag_poll := PollIdle\<rparr>"

inductive agent_step ::
  "(choice \<Rightarrow> bool) \<Rightarrow> (proto_job \<Rightarrow> bool) \<Rightarrow> string option \<Rightarrow> agent \<Rightarrow> agent \<Rightarrow> bool"
  for good :: "choice \<Rightarrow> bool" and sent :: "proto_job \<Rightarrow> bool" and auth :: "string option" where
  task_step: "ag_tasks A = before @ t # after \<Longrightarrow> good ch \<Longrightarrow> run_task auth ch t A = (ts, A') \<Longrightarrow>
     agent_step good sent auth A (A'\<lparr>ag_tasks := before @ ts @ after\<rparr>)"
| message_step: "ag_poll A = PollIdle \<Longrightarrow> sent j \<Longrightarrow> agent_step good sent auth A (receive_job j A)"
| poll_step: "agent_step good sent auth A (poll_next (ag_poll A) A)"
| prune_step: "agent_step good sent auth A (prune A)"

definition agent_start :: "agent \<Rightarrow> bool" where
  "agent_start A \<longleftrightarrow> ag_pids A = Map.empty \<and> ag_cancelled A = {} \<and> ag_running A = {} \<and> ag_tasks A = [] \<and>
     ag_poll A = PollIdle \<and> ag_signals A = [] \<and> ag_spawned A = [] \<and> ag_reports A = [] \<and> ag_warned A = []"

text \<open>What the operating system promises: a process has a number above 1 that fits, an error text is UTF-8, and an
  exit code fits.\<close>

definition sane :: "choice \<Rightarrow> bool" where
  "sane ch \<longleftrightarrow> (case ch_spawn ch of Inl e \<Rightarrow> valid_utf8 e | Inr pid \<Rightarrow> 1 < pid) \<and>
     (case ch_wait ch of Inl e \<Rightarrow> valid_utf8 e | Inr (Some c) \<Rightarrow> - (2 ^ 31) \<le> c \<and> c < 2 ^ 31 | Inr None \<Rightarrow> True)"

subsection \<open>Who holds a job\<close>

text \<open>The executor that has claimed a job, and the tasks that occupy the entry of a job in the map of pids: from
  the start of the executor until the entry is removed. \<open>entry\<close> is what the map holds meanwhile.\<close>

fun holds :: "task \<Rightarrow> string option" where
  "holds (CheckCancelled j) = Some (pj_job_id j)"
| "holds (ReadMarker j) = Some (pj_job_id j)"
| "holds (Spawn j) = Some (pj_job_id j)"
| "holds (Register j _) = Some (pj_job_id j)"
| "holds (WritePid j _ _) = Some (pj_job_id j)"
| "holds (CheckRace j _ _) = Some (pj_job_id j)"
| "holds (ReportRunning j _ _) = Some (pj_job_id j)"
| "holds (Wait j _ _) = Some (pj_job_id j)"
| "holds (KillGroup j _ _ _) = Some (pj_job_id j)"
| "holds (Unregister j _ _ _) = Some (pj_job_id j)"
| "holds (Conclude j _ _) = Some (pj_job_id j)"
| "holds (Release j) = Some (pj_job_id j)"
| "holds _ = None"

fun occupies :: "task \<Rightarrow> (string \<times> int \<times> nat) option" where
  "occupies (Claim j) = Some (pj_job_id j, 0, 0)"
| "occupies (CheckCancelled j) = Some (pj_job_id j, 0, 0)"
| "occupies (ReadMarker j) = Some (pj_job_id j, 0, 0)"
| "occupies (Spawn j) = Some (pj_job_id j, 0, 0)"
| "occupies (Register j _) = Some (pj_job_id j, 0, 0)"
| "occupies (WritePid j p s) = Some (pj_job_id j, p, s)"
| "occupies (CheckRace j p s) = Some (pj_job_id j, p, s)"
| "occupies (ReportRunning j p s) = Some (pj_job_id j, p, s)"
| "occupies (Wait j p s) = Some (pj_job_id j, p, s)"
| "occupies (KillGroup j p s _) = Some (pj_job_id j, p, s)"
| "occupies (Unregister j p s _) = Some (pj_job_id j, p, s)"
| "occupies _ = None"

fun reserving :: "poll \<Rightarrow> string option" where
  "reserving (PollCancelled j) = Some (pj_job_id j)"
| "reserving (PollReserve j) = Some (pj_job_id j)"
| "reserving _ = None"

definition holders :: "string \<Rightarrow> task list \<Rightarrow> nat" where
  "holders jid ts = length (filter (\<lambda>t. holds t = Some jid) ts)"

definition occupants :: "string \<Rightarrow> task list \<Rightarrow> task list" where
  "occupants jid ts = filter (\<lambda>t. map_option fst (occupies t) = Some jid) ts"

lemma holders_simps [simp]:
  "holders jid [] = 0" "holders jid (t # ts) = (if holds t = Some jid then 1 else 0) + holders jid ts"
  "holders jid (ts @ ts') = holders jid ts + holders jid ts'"
  by (simp_all add: holders_def)

lemma occupants_simps [simp]:
  "occupants jid [] = []"
  "occupants jid (t # ts) = (if map_option fst (occupies t) = Some jid then t # occupants jid ts else occupants jid ts)"
  "occupants jid (ts @ ts') = occupants jid ts @ occupants jid ts'"
  by (simp_all add: occupants_def)

lemma runtime_frame [simp]:
  "ag_running (send_signal p sig A) = ag_running A" "ag_running (report_status a i st m A) = ag_running A"
  "ag_running (record_marker ch j st e m A) = ag_running A"
  "ag_pids (send_signal p sig A) = ag_pids A" "ag_pids (report_status a i st m A) = ag_pids A"
  "ag_pids (record_marker ch j st e m A) = ag_pids A" "ag_pids (release jid A) = ag_pids A"
  "ag_poll (send_signal p sig A) = ag_poll A" "ag_poll (report_status a i st m A) = ag_poll A"
  "ag_poll (record_marker ch j st e m A) = ag_poll A" "ag_poll (release jid A) = ag_poll A"
  "ag_spawned (send_signal p sig A) = ag_spawned A" "ag_spawned (report_status a i st m A) = ag_spawned A"
  "ag_spawned (record_marker ch j st e m A) = ag_spawned A" "ag_spawned (release jid A) = ag_spawned A"
  "ag_cancelled (send_signal p sig A) = ag_cancelled A" "ag_cancelled (report_status a i st m A) = ag_cancelled A"
  "ag_cancelled (record_marker ch j st e m A) = ag_cancelled A" "ag_cancelled (release jid A) = ag_cancelled A"
  "ag_done (send_signal p sig A) = ag_done A" "ag_done (report_status a i st m A) = ag_done A" "ag_done (release jid A) = ag_done A"
  "ag_signals (report_status a i st m A) = ag_signals A" "ag_signals (record_marker ch j st e m A) = ag_signals A"
  "ag_signals (release jid A) = ag_signals A" "ag_signals (send_signal p sig A) = ag_signals A @ [(- p, sig)]"
  "ag_warned (report_status a i st m A) = ag_warned A" "ag_warned (record_marker ch j st e m A) = ag_warned A"
  "ag_warned (release jid A) = ag_warned A" "ag_warned (send_signal p sig A) = ag_warned A"
  "ag_running (release jid A) = ag_running A - {jid}"
  by (simp_all add: send_signal_def report_status_def record_marker_def release_def)

text \<open>What a cancellation changes: the set of cancelled jobs and the logs.\<close>

definition cancel_frame :: "agent \<Rightarrow> agent \<Rightarrow> bool" where
  "cancel_frame A A' \<longleftrightarrow> ag_running A' = ag_running A \<and> ag_pids A' = ag_pids A \<and> ag_poll A' = ag_poll A \<and>
     ag_spawned A' = ag_spawned A \<and> ag_done A' = ag_done A \<and> ag_tasks A' = ag_tasks A"

lemma cancel_frames:
  "request_cancel ch jid A = (r, A') \<Longrightarrow> cancel_frame A A'" "force_cancel ch jid A = (f, A') \<Longrightarrow> cancel_frame A A'"
  "cancel_frame A (escalate ch jid A)"
  by (auto simp: cancel_frame_def request_cancel_def force_cancel_def escalate_def send_signal_def Let_def
      split: if_splits option.splits)

subsection \<open>At most one executor\<close>

definition exclusive :: "agent \<Rightarrow> bool" where
  "exclusive A \<longleftrightarrow> (\<forall>jid. holders jid (ag_tasks A) = (if jid \<in> ag_running A then 1 else 0))"

text \<open>How one task step moves the claim.\<close>

lemma run_task_claim:
  assumes "run_task auth ch t A = (ts, A')" and "holds t \<noteq> None \<longrightarrow> the (holds t) \<in> ag_running A"
  shows "holders jid ts + (if jid \<in> ag_running A then 1 else 0) =
    (if holds t = Some jid then 1 else 0) + (if jid \<in> ag_running A' then 1 else 0)"
proof (cases t)
  case (Cancel j)
  show ?thesis using assms Cancel
    by (auto simp: Let_def cancel_frame_def dest!: cancel_frames(1,2) split: if_splits prod.splits)
next
  case (Escalate i)
  show ?thesis using assms Escalate cancel_frames(3) [of A ch i] by (auto simp: cancel_frame_def)
next
  case (Claim j)
  show ?thesis using assms Claim by (auto simp: try_claim_def Let_def split: if_splits)
qed (use assms in \<open>auto simp: Let_def split: if_splits marker_read.splits sum.splits prod.splits\<close>)

lemma exclusive_step: "agent_step good sent auth A A' \<Longrightarrow> exclusive A \<Longrightarrow> exclusive A'"
proof (induction rule: agent_step.induct)
  case (task_step A before t after ch ts A')
  have count: "holders jid before + (if holds t = Some jid then 1 else 0) + holders jid after =
      (if jid \<in> ag_running A then 1 else 0)" for jid
  proof -
    have "holders jid (before @ t # after) = (if jid \<in> ag_running A then 1 else 0)"
      using task_step(1,4) unfolding exclusive_def by metis
    then show ?thesis by (simp add: add.assoc)
  qed
  have "the (holds t) \<in> ag_running A" if "holds t \<noteq> None"
    using count [of "the (holds t)"] that by (auto split: if_splits)
  note step = run_task_claim [OF task_step(3), OF impI, OF this]
  show ?case unfolding exclusive_def
  proof
    fix jid
    show "holders jid (ag_tasks (A'\<lparr>ag_tasks := before @ ts @ after\<rparr>)) =
        (if jid \<in> ag_running (A'\<lparr>ag_tasks := before @ ts @ after\<rparr>) then 1 else 0)"
      using count [of jid] step [of jid] by (auto split: if_splits)
  qed
next
  case (message_step A j)
  then show ?case by (simp add: exclusive_def receive_job_def)
next
  case (poll_step A)
  then show ?case by (cases "ag_poll A") (simp_all add: exclusive_def)
qed (simp add: exclusive_def prune_def)

subsection \<open>The map of pids\<close>

definition registered :: "agent \<Rightarrow> bool" where
  "registered A \<longleftrightarrow> (\<forall>jid. length (occupants jid (ag_tasks A)) \<le> 1 \<and>
     (\<forall>t \<in> set (occupants jid (ag_tasks A)). ag_pids A jid = map_option snd (occupies t)) \<and>
     (reserving (ag_poll A) = Some jid \<longrightarrow> ag_pids A jid = None))"

lemma run_task_entry:
  assumes "run_task auth ch t A = (ts, A')"
  shows "ag_poll A' = ag_poll A \<and>
    (map_option fst (occupies t) \<noteq> Some jid \<longrightarrow> occupants jid ts = [] \<and> ag_pids A' jid = ag_pids A jid) \<and>
    (map_option fst (occupies t) = Some jid \<and> ag_pids A jid = map_option snd (occupies t) \<longrightarrow>
       length (occupants jid ts) \<le> 1 \<and> (\<forall>t' \<in> set (occupants jid ts). ag_pids A' jid = map_option snd (occupies t')))"
proof (cases t)
  case (Cancel j)
  show ?thesis using assms Cancel
    by (auto simp: Let_def cancel_frame_def dest!: cancel_frames(1,2) split: if_splits prod.splits)
next
  case (Escalate i)
  show ?thesis using assms Escalate cancel_frames(3) [of A ch i] by (auto simp: cancel_frame_def)
next
  case (Claim j)
  show ?thesis using assms Claim by (auto simp: try_claim_def Let_def split: if_splits)
qed (use assms in \<open>auto simp: Let_def split: if_splits marker_read.splits sum.splits prod.splits\<close>)

lemma no_entry: "(\<forall>a b. x \<noteq> Some (a, b)) \<longleftrightarrow> x = None"
  by (cases x) auto

lemma registered_step: "agent_step good sent auth A A' \<Longrightarrow> registered A \<Longrightarrow> registered A'"
proof (induction rule: agent_step.induct)
  case (task_step A before t after ch ts A')
  show ?case unfolding registered_def
  proof
    fix jid
    note entry = run_task_entry [OF task_step(3), of jid]
    have R: "length (occupants jid (before @ t # after)) \<le> 1"
      "\<forall>t \<in> set (occupants jid (before @ t # after)). ag_pids A jid = map_option snd (occupies t)"
      "reserving (ag_poll A) = Some jid \<longrightarrow> ag_pids A jid = None"
      using task_step(1,4) by (auto simp: registered_def)
    show "length (occupants jid (ag_tasks (A'\<lparr>ag_tasks := before @ ts @ after\<rparr>))) \<le> 1 \<and>
      (\<forall>t \<in> set (occupants jid (ag_tasks (A'\<lparr>ag_tasks := before @ ts @ after\<rparr>))).
         ag_pids (A'\<lparr>ag_tasks := before @ ts @ after\<rparr>) jid = map_option snd (occupies t)) \<and>
      (reserving (ag_poll (A'\<lparr>ag_tasks := before @ ts @ after\<rparr>)) = Some jid \<longrightarrow>
         ag_pids (A'\<lparr>ag_tasks := before @ ts @ after\<rparr>) jid = None)"
    proof (cases "map_option fst (occupies t) = Some jid")
      case True
      with R have "occupants jid before = []" "occupants jid after = []" "ag_pids A jid = map_option snd (occupies t)"
        by simp_all
      with True R(3) entry show ?thesis by auto
    next
      case False
      with R entry show ?thesis by auto
    qed
  qed
next
  case (message_step A j)
  then show ?case by (auto simp: registered_def receive_job_def)
next
  case (poll_step A)
  show ?case
  proof (cases "ag_poll A")
    case (PollReserve j)
    have "occupants (pj_job_id j) (ag_tasks A) = []"
    proof (rule ccontr)
      assume "occupants (pj_job_id j) (ag_tasks A) \<noteq> []"
      then obtain t where t: "t \<in> set (occupants (pj_job_id j) (ag_tasks A))" using last_in_set by blast
      then have "occupies t \<noteq> None" by (auto simp: occupants_def)
      then show False using t poll_step PollReserve by (fastforce simp: registered_def)
    qed
    then show ?thesis using poll_step PollReserve by (auto simp: registered_def)
  qed (use poll_step in \<open>auto simp: registered_def no_entry\<close>)
qed (simp add: registered_def prune_def)

subsection \<open>Signals go to started groups only\<close>

definition own_group :: "agent \<Rightarrow> string \<Rightarrow> int \<Rightarrow> bool" where
  "own_group A jid pid \<longleftrightarrow> 1 < pid \<and> (\<exists>c. (jid, pid, c) \<in> set (ag_spawned A))"

fun pid_of :: "task \<Rightarrow> (string \<times> int) option" where
  "pid_of (Register j p) = Some (pj_job_id j, p)"
| "pid_of (WritePid j p _) = Some (pj_job_id j, p)"
| "pid_of (CheckRace j p _) = Some (pj_job_id j, p)"
| "pid_of (ReportRunning j p _) = Some (pj_job_id j, p)"
| "pid_of (Wait j p _) = Some (pj_job_id j, p)"
| "pid_of (KillGroup j p _ _) = Some (pj_job_id j, p)"
| "pid_of (Unregister j p _ _) = Some (pj_job_id j, p)"
| "pid_of _ = None"

definition owned :: "agent \<Rightarrow> bool" where
  "owned A \<longleftrightarrow> (\<forall>t \<in> set (ag_tasks A). \<forall>jid p. pid_of t = Some (jid, p) \<longrightarrow> own_group A jid p) \<and>
     (\<forall>jid p s. ag_pids A jid = Some (p, s) \<longrightarrow> p = 0 \<or> own_group A jid p) \<and>
     (\<forall>g s. (g, s) \<in> set (ag_signals A) \<longrightarrow> (\<exists>jid. own_group A jid (- g)))"

lemma own_group_mono: "set (ag_spawned A) \<subseteq> set (ag_spawned A') \<Longrightarrow> own_group A jid p \<Longrightarrow> own_group A' jid p"
  by (auto simp: own_group_def)

lemma kill_remaining_groups: "(g, s) \<in> set (kill_remaining_process_group p st stat alive) \<Longrightarrow> g = - p"
  by (auto simp: kill_remaining_process_group_def split: if_splits)

lemma cancel_signals:
  "request_cancel ch jid A = (r, A') \<Longrightarrow> (g, s) \<in> set (ag_signals A') \<Longrightarrow>
     (g, s) \<in> set (ag_signals A) \<or> (\<exists>p st. ag_pids A jid = Some (p, st) \<and> 0 < p \<and> g = - p)"
  "force_cancel ch jid A = (f, A') \<Longrightarrow> (g, s) \<in> set (ag_signals A') \<Longrightarrow>
     (g, s) \<in> set (ag_signals A) \<or> (\<exists>p st. ag_pids A jid = Some (p, st) \<and> 0 < p \<and> g = - p)"
  "(g, s) \<in> set (ag_signals (escalate ch jid A)) \<Longrightarrow>
     (g, s) \<in> set (ag_signals A) \<or> (\<exists>p st. ag_pids A jid = Some (p, st) \<and> 0 < p \<and> g = - p)"
  by (auto simp: request_cancel_def force_cancel_def escalate_def Let_def split: if_splits option.splits)

lemma run_task_Cancel:
  assumes "run_task auth ch (Cancel j) A = (ts, A')"
  shows "cancel_frame A A'" "\<forall>t' \<in> set ts. pid_of t' = None"
    "(g, s) \<in> set (ag_signals A') \<Longrightarrow>
       (g, s) \<in> set (ag_signals A) \<or> (\<exists>p st. ag_pids A (pj_job_id j) = Some (p, st) \<and> 0 < p \<and> g = - p)"
  using assms
  by (auto simp: Let_def dest: cancel_frames(1,2) cancel_signals(1,2) split: if_splits prod.splits)

text \<open>What one task step adds: a started process is the pid of the task it becomes, an entry is that of the
  task, and a signal goes to the group of the task or of an entry.\<close>

lemma run_task_owned:
  assumes "run_task auth ch t A = (ts, A')" and "sane ch"
  shows "set (ag_spawned A) \<subseteq> set (ag_spawned A') \<and>
    (\<forall>t' \<in> set ts. \<forall>x. pid_of t' = Some x \<longrightarrow> pid_of t = Some x \<or> own_group A' (fst x) (snd x)) \<and>
    (\<forall>jid p s. ag_pids A' jid = Some (p, s) \<longrightarrow> ag_pids A jid = Some (p, s) \<or> pid_of t = Some (jid, p)) \<and>
    (\<forall>g s. (g, s) \<in> set (ag_signals A') \<longrightarrow> (g, s) \<in> set (ag_signals A) \<or> (\<exists>jid. pid_of t = Some (jid, - g)) \<or>
       (\<exists>jid st. ag_pids A jid = Some (- g, st) \<and> g < 0))"
proof (cases t)
  case (Cancel j)
  note c = run_task_Cancel [OF assms(1) [unfolded Cancel]]
  have "ag_pids A' = ag_pids A" "ag_spawned A' = ag_spawned A" using c(1) by (simp_all add: cancel_frame_def)
  moreover have "(g, s) \<in> set (ag_signals A) \<or> (\<exists>jid st. ag_pids A jid = Some (- g, st) \<and> g < 0)"
    if "(g, s) \<in> set (ag_signals A')" for g s
    using c(3) [OF that] by (metis minus_minus neg_less_0_iff_less)
  ultimately show ?thesis using c(2) by auto
next
  case (Escalate i)
  then have A': "A' = escalate ch i A" and ts: "ts = []" using assms(1) by simp_all
  have "ag_pids A' = ag_pids A" "ag_spawned A' = ag_spawned A"
    using cancel_frames(3) [of A ch i] A' by (simp_all add: cancel_frame_def)
  moreover have "(g, s) \<in> set (ag_signals A) \<or> (\<exists>jid st. ag_pids A jid = Some (- g, st) \<and> g < 0)"
    if "(g, s) \<in> set (ag_signals A')" for g s
    using cancel_signals(3) [OF that [unfolded A']] by (metis minus_minus neg_less_0_iff_less)
  ultimately show ?thesis using ts by auto
next
  case (Claim j)
  show ?thesis using assms Claim by (auto simp: try_claim_def Let_def split: if_splits)
next
  case (Spawn j)
  show ?thesis using assms Spawn by (auto simp: sane_def own_group_def split: sum.splits)
next
  case (KillGroup j p st r)
  show ?thesis using assms(1) KillGroup by (auto dest!: kill_remaining_groups)
qed (use assms(1) in \<open>auto simp: Let_def split: if_splits marker_read.splits prod.splits\<close>)

lemma owned_step: "agent_step good sent auth A A' \<Longrightarrow> (\<And>ch. good ch \<Longrightarrow> sane ch) \<Longrightarrow> owned A \<Longrightarrow> owned A'"
proof (induction rule: agent_step.induct)
  case (task_step A before t after ch ts A')
  note own = run_task_owned [OF task_step(3) task_step(4) [OF task_step(2)]]
  have mono: "own_group A jid p \<Longrightarrow> own_group A' jid p" for jid p using own own_group_mono by blast
  have O: "\<forall>t' \<in> set (before @ t # after). \<forall>jid p. pid_of t' = Some (jid, p) \<longrightarrow> own_group A jid p"
    "\<forall>jid p s. ag_pids A jid = Some (p, s) \<longrightarrow> p = 0 \<or> own_group A jid p"
    "\<forall>g s. (g, s) \<in> set (ag_signals A) \<longrightarrow> (\<exists>jid. own_group A jid (- g))"
    using task_step(1,5) by (auto simp: owned_def)
  have new: "own_group A' jid p" if "t' \<in> set ts" "pid_of t' = Some (jid, p)" for t' jid p
    using own that O(1) mono by (metis fst_conv snd_conv in_set_conv_decomp)
  have "own_group A' jid p" if "t' \<in> set (before @ ts @ after)" "pid_of t' = Some (jid, p)" for t' jid p
  proof -
    have "t' \<in> set ts \<or> t' \<in> set (before @ t # after)" using that(1) by auto
    then show ?thesis using that(2) new O(1) mono by blast
  qed
  moreover have "p = 0 \<or> own_group A' jid p" if e: "ag_pids A' jid = Some (p, s)" for jid p s
  proof -
    have "ag_pids A jid = Some (p, s) \<or> pid_of t = Some (jid, p)" using own e by blast
    then show ?thesis using O(1,2) mono by (metis in_set_conv_decomp)
  qed
  moreover have "\<exists>jid. own_group A' jid (- g)" if g: "(g, s) \<in> set (ag_signals A')" for g s
  proof -
    have "(g, s) \<in> set (ag_signals A) \<or> (\<exists>jid. pid_of t = Some (jid, - g)) \<or> (\<exists>jid st. ag_pids A jid = Some (- g, st) \<and> g < 0)"
      using own g by blast
    moreover have "own_group A jid (- g)" if "pid_of t = Some (jid, - g)" for jid using O(1) that by auto
    moreover have "own_group A jid (- g)" if "ag_pids A jid = Some (- g, st)" "g < 0" for jid st using O(2) that by force
    ultimately show ?thesis using O(3) mono by blast
  qed
  ultimately show ?case by (simp add: owned_def own_group_def)
next
  case (message_step A j)
  then show ?case by (auto simp: owned_def receive_job_def own_group_def)
next
  case (poll_step A)
  then show ?case by (cases "ag_poll A") (auto simp: owned_def own_group_def)
qed (auto simp: owned_def prune_def own_group_def)

definition sound :: "agent \<Rightarrow> bool" where
  "sound A \<longleftrightarrow> exclusive A \<and> registered A \<and> owned A"

lemma sound_start: "agent_start A \<Longrightarrow> sound A"
  by (auto simp: agent_start_def sound_def exclusive_def registered_def owned_def)

lemma sound_step: "sound A \<Longrightarrow> agent_step sane sent auth A A' \<Longrightarrow> sound A'"
  unfolding sound_def using exclusive_step registered_step owned_step by blast

interpretation runtime: safe_system agent_start "agent_step sane sent auth" sound
  using sound_start sound_step by unfold_locales

text \<open>C10. One execution at a time. In every state of an agent, however its tasks are interleaved with the messages of
  the server, a job is being executed by at most one task, and by one exactly when it is in the set of running
  jobs; from its reservation on until its process group is gone, its entry in the map of pids is the
  placeholder or the pid of that task.\<close>

theorem one_executor:
  assumes "reach agent_start (agent_step sane sent auth) A"
  shows "holders jid (ag_tasks A) = (if jid \<in> ag_running A then 1 else 0) \<and>
    (\<forall>t \<in> set (ag_tasks A). \<forall>p s. occupies t = Some (jid, p, s) \<longrightarrow>
       ag_pids A jid = Some (p, s) \<and> occupants jid (ag_tasks A) = [t])"
proof -
  have inv: "exclusive A" "registered A" using runtime.reach_inv [OF assms] by (simp_all add: sound_def)
  have "ag_pids A jid = Some (p, s) \<and> occupants jid (ag_tasks A) = [t]"
    if "t \<in> set (ag_tasks A)" "occupies t = Some (jid, p, s)" for t p s
  proof -
    have t: "t \<in> set (occupants jid (ag_tasks A))" using that by (simp add: occupants_def)
    moreover have "length (occupants jid (ag_tasks A)) \<le> 1" using inv(2) by (simp add: registered_def)
    ultimately have "occupants jid (ag_tasks A) = [t]"
      by (cases "occupants jid (ag_tasks A)") auto
    moreover have "ag_pids A jid = map_option snd (occupies t)" using inv(2) t by (auto simp: registered_def)
    ultimately show ?thesis using that(2) by simp
  qed
  then show ?thesis using inv(1) by (auto simp: exclusive_def)
qed


subsection \<open>A run is executed at most once\<close>

text \<open>When markers can be written and the server offers a job with one retry count only, a process is started
  for a job at most once, however often the job is dispatched.\<close>

definition reliable :: "choice \<Rightarrow> bool" where
  "reliable ch \<longleftrightarrow> sane ch \<and> ch_write_ok ch"

definition spawns :: "string \<Rightarrow> agent \<Rightarrow> nat" where
  "spawns jid A = length (filter (\<lambda>x. fst x = jid) (ag_spawned A))"

fun active :: "task \<Rightarrow> string option" where
  "active (Conclude j _ _) = Some (pj_job_id j)"
| "active t = map_option fst (pid_of t)"

fun job_of :: "task \<Rightarrow> proto_job option" where
  "job_of (Claim j) = Some j"
| "job_of (CheckCancelled j) = Some j"
| "job_of (ReadMarker j) = Some j"
| "job_of (Spawn j) = Some j"
| "job_of (Register j _) = Some j"
| "job_of (WritePid j _ _) = Some j"
| "job_of (CheckRace j _ _) = Some j"
| "job_of (ReportRunning j _ _) = Some j"
| "job_of (Wait j _ _) = Some j"
| "job_of (KillGroup j _ _ _) = Some j"
| "job_of (Unregister j _ _ _) = Some j"
| "job_of (Conclude j _ _) = Some j"
| "job_of _ = None"

fun waited_result :: "task \<Rightarrow> wait_outcome option" where
  "waited_result (KillGroup _ _ _ r) = Some r"
| "waited_result (Unregister _ _ _ r) = Some r"
| "waited_result (Conclude _ _ r) = Some r"
| "waited_result _ = None"

fun polled :: "poll \<Rightarrow> proto_job option" where
  "polled PollIdle = None"
| "polled (PollPids j) = Some j"
| "polled (PollCancelled j) = Some j"
| "polled (PollReserve j) = Some j"

definition good_outcome :: "wait_outcome \<Rightarrow> bool" where
  "good_outcome r \<longleftrightarrow> (case r of Inl e \<Rightarrow> valid_utf8 e | Inr (Some c) \<Rightarrow> - (2 ^ 31) \<le> c \<and> c < 2 ^ 31 | Inr None \<Rightarrow> True)"

definition fits :: "(string \<Rightarrow> u32) \<Rightarrow> task \<Rightarrow> bool" where
  "fits retry t \<longleftrightarrow> (\<forall>j. job_of t = Some j \<longrightarrow> pj_retry_count j = retry (pj_job_id j)) \<and>
     (\<forall>r. waited_result t = Some r \<longrightarrow> good_outcome r)"

definition has_marker :: "(string \<Rightarrow> u32) \<Rightarrow> agent \<Rightarrow> string \<Rightarrow> bool" where
  "has_marker retry A jid \<longleftrightarrow> read_completed_marker (ag_done A jid) (retry jid) \<noteq> MarkerMissing"

definition once :: "(string \<Rightarrow> u32) \<Rightarrow> agent \<Rightarrow> bool" where
  "once retry A \<longleftrightarrow> (\<forall>t \<in> set (ag_tasks A). fits retry t) \<and>
     (\<forall>j. polled (ag_poll A) = Some j \<longrightarrow> pj_retry_count j = retry (pj_job_id j)) \<and>
     (\<forall>jid. spawns jid A \<le> 1 \<and>
        (spawns jid A \<noteq> 0 \<longrightarrow> (\<exists>t \<in> set (ag_tasks A). active t = Some jid) \<or> has_marker retry A jid) \<and>
        (\<forall>j. Spawn j \<in> set (ag_tasks A) \<longrightarrow> pj_job_id j = jid \<longrightarrow> spawns jid A = 0))"

lemma active_holds: "active t = Some jid \<Longrightarrow> holds t = Some jid"
  by (cases t) auto

lemma final_outcome_writable:
  assumes "good_outcome r" and "final_outcome c r = (s, e, m)"
  shows "valid_utf8 m \<and> s \<in> {Succeeded, Failed, Cancelled} \<and> - (2 ^ 31) \<le> e \<and> e < 2 ^ 31"
proof -
  have ascii: "valid_utf8 (a @ show_int n @ b)" if "list_all (\<lambda>c. code c < 128) a" "list_all (\<lambda>c. code c < 128) b" for a b n
    using that valid_utf8_ascii [of "a @ show_int n @ b" "[]"] visible_is_ascii [OF show_int_visible, of n] by simp
  have "valid_utf8 (''wait failed: '' @ x)" if "valid_utf8 x" for x
    by (rule valid_utf8_ascii [OF _ that]) (simp add: code_def)
  then show ?thesis
    using assms ascii [of "''cancelled (exit ''" "'')''"] ascii [of "''exit code ''" "[]"]
    by (auto simp: final_outcome_def good_outcome_def Let_def code_def split: sum.splits option.splits if_splits)
qed

lemma record_marker_readable:
  assumes "ch_write_ok ch" and "valid_utf8 m" and "s \<in> {Succeeded, Failed, Cancelled}" and "- (2 ^ 31) \<le> e" and "e < 2 ^ 31"
    and "pj_retry_count j = retry (pj_job_id j)"
  shows "has_marker retry (record_marker ch j s e m A) (pj_job_id j)"
  using assms read_written_marker [OF assms(2-5)] by (simp add: has_marker_def record_marker_def)

lemma record_marker_other: "jid \<noteq> pj_job_id j \<Longrightarrow> ag_done (record_marker ch j s e m A) jid = ag_done A jid"
  by (simp add: record_marker_def)

lemma spawns_frame: "ag_spawned A' = ag_spawned A \<Longrightarrow> spawns jid A' = spawns jid A"
  by (simp add: spawns_def)

lemma has_marker_frame: "ag_done A' jid = ag_done A jid \<Longrightarrow> has_marker retry A' jid = has_marker retry A jid"
  by (simp add: has_marker_def)

text \<open>What one task step does to the count, the markers and the tasks.\<close>

definition once_step :: "(string \<Rightarrow> u32) \<Rightarrow> task \<Rightarrow> agent \<Rightarrow> task list \<Rightarrow> agent \<Rightarrow> bool" where
  "once_step retry t A ts A' \<longleftrightarrow> (\<forall>t' \<in> set ts. fits retry t') \<and> ag_poll A' = ag_poll A \<and>
     (\<forall>jid. ag_done A' jid = ag_done A jid \<or> has_marker retry A' jid) \<and>
     (\<forall>jid. active t = Some jid \<longrightarrow> (\<exists>t' \<in> set ts. active t' = Some jid) \<or> has_marker retry A' jid) \<and>
     (\<forall>j. Spawn j \<in> set ts \<longrightarrow> t = ReadMarker j \<and> \<not> has_marker retry A (pj_job_id j)) \<and>
     (\<forall>jid. spawns jid A' = spawns jid A \<or>
        (\<exists>j. t = Spawn j \<and> pj_job_id j = jid \<and> spawns jid A' = spawns jid A + 1 \<and> (\<exists>t' \<in> set ts. active t' = Some jid)))"

lemma run_task_once:
  assumes "run_task auth ch t A = (ts, A')" and "reliable ch" and "fits retry t"
  shows "once_step retry t A ts A'"
proof (cases t)
  case (Cancel j)
  have "cancel_frame A A'" using run_task_Cancel(1) assms(1) Cancel by blast
  then have "spawns jid A' = spawns jid A" "ag_done A' = ag_done A" "ag_poll A' = ag_poll A" for jid
    by (simp_all add: cancel_frame_def spawns_def)
  moreover have "t' = Escalate (pj_job_id j) \<or> t' = ReportNotRunning (pj_job_id j)" if "t' \<in> set ts" for t'
    using assms(1) Cancel that by (auto simp: Let_def split: if_splits prod.splits)
  then have "\<forall>t' \<in> set ts. fits retry t' \<and> (\<forall>j. t' \<noteq> Spawn j)" by (fastforce simp: fits_def)
  ultimately show ?thesis using Cancel by (auto simp: once_step_def)
next
  case (Escalate i)
  then show ?thesis using assms(1) cancel_frames(3) [of A ch i] by (auto simp: once_step_def cancel_frame_def spawns_def)
next
  case (Claim j)
  then show ?thesis using assms
    by (auto simp: try_claim_def Let_def once_step_def spawns_def fits_def split: if_splits)
next
  case (Spawn j)
  show ?thesis
  proof (cases "ch_spawn ch")
    case (Inl e)
    let ?m = "''spawn failed: '' @ e" and ?j = "pj_job_id j"
    have "valid_utf8 e" using assms(2) Inl by (simp add: reliable_def sane_def)
    then have m: "valid_utf8 ?m" by (rule valid_utf8_ascii [rotated]) (simp add: code_def)
    then have "has_marker retry (record_marker ch j Failed (- 1) ?m A) ?j"
      using assms(2,3) Spawn by (intro record_marker_readable) (simp_all add: reliable_def fits_def)
    moreover have A': "A' = report_status auth ?j Failed ?m (record_marker ch j Failed (- 1) ?m A)" "ts = [Release j]"
      using assms(1) Spawn Inl by simp_all
    ultimately have "has_marker retry A' ?j" by (simp add: has_marker_def)
    then have "ag_done A' jid = ag_done A jid \<or> has_marker retry A' jid" for jid
      using A' record_marker_other by (cases "jid = ?j") auto
    then show ?thesis using A' Spawn by (auto simp: once_step_def spawns_def fits_def)
  next
    case (Inr pid)
    then show ?thesis using assms Spawn by (auto simp: once_step_def spawns_def fits_def split: if_splits)
  qed
next
  case (Conclude j pid r)
  obtain s e m where f: "final_outcome (pj_job_id j \<in> ag_cancelled A) r = (s, e, m)" by (metis prod_cases3)
  have "good_outcome r" using assms(3) Conclude by (simp add: fits_def)
  from final_outcome_writable [OF this f]
  have "has_marker retry (record_marker ch j s e m A) (pj_job_id j)"
    using assms(2,3) Conclude by (intro record_marker_readable) (simp_all add: reliable_def fits_def)
  moreover have A': "A' = report_status auth (pj_job_id j) s m (record_marker ch j s e m A)" "ts = [Release j]"
    using assms(1) Conclude f by simp_all
  ultimately have h: "has_marker retry A' (pj_job_id j)" by (simp add: has_marker_def)
  then have "ag_done A' jid = ag_done A jid \<or> has_marker retry A' jid" for jid
    using A' record_marker_other by (cases "jid = pj_job_id j") auto
  then show ?thesis using A' h Conclude by (auto simp: once_step_def spawns_def fits_def)
next
  case (ReadMarker j)
  then show ?thesis using assms
    by (auto simp: once_step_def spawns_def fits_def has_marker_def split: marker_read.splits if_splits)
next
  case (Wait j p st)
  have "good_outcome (ch_wait ch)" using assms(2) by (simp add: reliable_def sane_def good_outcome_def)
  then show ?thesis using assms Wait by (auto simp: once_step_def spawns_def fits_def)
qed (use assms in \<open>auto simp: once_step_def spawns_def fits_def Let_def split: if_splits\<close>)

lemma second_holder:
  assumes "exclusive A" and "ag_tasks A = before @ t # after" and "holds t = Some jid"
    and "t' \<in> set before \<union> set after"
  shows "holds t' \<noteq> Some jid"
proof
  assume h: "holds t' = Some jid"
  have "holders jid ts \<noteq> 0" if "t' \<in> set ts" for ts
    using that h by (auto simp: holders_def filter_empty_conv)
  then have "holders jid before \<noteq> 0 \<or> holders jid after \<noteq> 0" using assms(4) by blast
  moreover have "holders jid (before @ t # after) \<le> 1"
    using assms(1,2) unfolding exclusive_def by (metis le_numeral_extra(3,4) zero_le)
  ultimately show False using assms(3) by auto
qed

lemma once_step_inv:
  assumes ex: "exclusive A" "exclusive (A'\<lparr>ag_tasks := before @ ts @ after\<rparr>)"
    and tasks: "ag_tasks A = before @ t # after" and run: "once_step retry t A ts A'" and inv: "once retry A"
  shows "once retry (A'\<lparr>ag_tasks := before @ ts @ after\<rparr>)"
proof -
  let ?A = "A'\<lparr>ag_tasks := before @ ts @ after\<rparr>"
  have frame: "spawns jid ?A = spawns jid A'" "has_marker retry ?A jid = has_marker retry A' jid" for jid
    by (simp_all add: spawns_def has_marker_def)
  have keep: "has_marker retry A jid \<Longrightarrow> has_marker retry A' jid" for jid
    using run unfolding once_step_def has_marker_def by metis
  have per_job: "spawns jid A' \<le> 1 \<and>
      (spawns jid A' \<noteq> 0 \<longrightarrow> (\<exists>t' \<in> set (before @ ts @ after). active t' = Some jid) \<or> has_marker retry A' jid) \<and>
      (\<forall>j. Spawn j \<in> set (before @ ts @ after) \<longrightarrow> pj_job_id j = jid \<longrightarrow> spawns jid A' = 0)" for jid
  proof -
    have old: "spawns jid A \<le> 1"
      "spawns jid A \<noteq> 0 \<longrightarrow> (\<exists>t' \<in> set (before @ t # after). active t' = Some jid) \<or> has_marker retry A jid"
      "\<And>j. Spawn j \<in> set (before @ t # after) \<Longrightarrow> pj_job_id j = jid \<Longrightarrow> spawns jid A = 0"
      using inv tasks unfolding once_def by auto
    show ?thesis
    proof (cases "spawns jid A' = spawns jid A")
      case True
      have "(\<exists>t' \<in> set (before @ ts @ after). active t' = Some jid) \<or> has_marker retry A' jid" if "spawns jid A \<noteq> 0"
        using old(2) that keep run unfolding once_step_def by auto
      moreover have "spawns jid A = 0" if "Spawn j \<in> set (before @ ts @ after)" "pj_job_id j = jid" for j
      proof (cases "Spawn j \<in> set ts")
        case inner: True
        then have t: "t = ReadMarker j" "\<not> has_marker retry A jid" using run that(2) by (auto simp: once_step_def)
        then have "active t' \<noteq> Some jid" if "t' \<in> set before \<union> set after" for t'
          using second_holder [OF ex(1) tasks _ that, of jid] \<open>pj_job_id j = jid\<close> active_holds by fastforce
        then show ?thesis using old(2) t by auto
      next
        case False
        then show ?thesis using old(3) that by auto
      qed
      ultimately show ?thesis using True old(1) by auto
    next
      case False
      then obtain j t' where j: "t = Spawn j" "pj_job_id j = jid" "spawns jid A' = spawns jid A + 1"
          "t' \<in> set ts" "active t' = Some jid"
        using run unfolding once_step_def by blast
      have "spawns jid A = 0" using old(3) [of j] j by simp
      moreover have "\<not> (Spawn j' \<in> set (before @ ts @ after) \<and> pj_job_id j' = jid)" for j'
      proof
        assume a: "Spawn j' \<in> set (before @ ts @ after) \<and> pj_job_id j' = jid"
        obtain us vs where ts: "ts = us @ t' # vs" using j(4) by (meson split_list)
        have "Spawn j' \<noteq> t'" using j(5) by auto
        then have "Spawn j' \<in> set (before @ us) \<union> set (vs @ after)" using a ts by auto
        then have "holds (Spawn j') \<noteq> Some jid"
          using second_holder [OF ex(2), of "before @ us" t' "vs @ after" jid "Spawn j'"] ts active_holds [OF j(5)] by simp
        then show False using a by simp
      qed
      ultimately show ?thesis using j by auto
    qed
  qed
  moreover have "\<forall>t' \<in> set (before @ ts @ after). fits retry t'"
    using inv tasks run by (auto simp: once_def once_step_def)
  moreover have "polled (ag_poll A') = Some j \<Longrightarrow> pj_retry_count j = retry (pj_job_id j)" for j
    using inv run by (auto simp: once_def once_step_def)
  ultimately show ?thesis unfolding once_def frame by simp
qed

definition single_retry :: "(string \<Rightarrow> u32) \<Rightarrow> proto_job \<Rightarrow> bool" where
  "single_retry retry j \<longleftrightarrow> pj_retry_count j = retry (pj_job_id j)"

lemma once_preserved:
  "agent_step reliable (single_retry retry) auth A A' \<Longrightarrow> exclusive A \<and> once retry A \<Longrightarrow> exclusive A' \<and> once retry A'"
proof (induction rule: agent_step.induct)
  case (task_step A before t after ch ts A')
  have ex: "exclusive (A'\<lparr>ag_tasks := before @ ts @ after\<rparr>)"
    using exclusive_step [OF agent_step.task_step [where good = reliable and sent = "single_retry retry"]]
      task_step by blast
  have "fits retry t" using task_step(1,4) by (auto simp: once_def)
  then have "once_step retry t A ts A'" using task_step(2,3) by (intro run_task_once)
  then show ?case using once_step_inv ex task_step by blast
next
  case (message_step A j)
  have "exclusive (receive_job j A)" using message_step by (simp add: exclusive_def receive_job_def)
  moreover have "once retry (receive_job j A)"
    using message_step by (auto simp: receive_job_def once_def spawns_def has_marker_def fits_def single_retry_def)
  ultimately show ?case by simp
next
  case (poll_step A)
  then show ?case
    by (cases "ag_poll A") (auto simp: exclusive_def once_def spawns_def has_marker_def fits_def)
next
  case (prune_step A)
  then show ?case by (simp add: exclusive_def once_def spawns_def has_marker_def prune_def)
qed

interpretation runs: safe_system agent_start "agent_step reliable (single_retry retry) auth" "\<lambda>A. exclusive A \<and> once retry A"
proof
  fix A
  assume "agent_start A"
  then show "exclusive A \<and> once retry A" by (simp add: agent_start_def exclusive_def once_def spawns_def)
qed (rule once_preserved)

text \<open>A run is executed at most once. As long as the completion markers can be written, and a job is always
  dispatched with the same retry count, an agent starts a process for a job at most once, no matter how often
  the server dispatches the job again, in which order the tasks run, and which reports are lost.\<close>

lemma executed_at_most_once:
  assumes "reach agent_start (agent_step reliable (single_retry retry) auth) A"
  shows "length (filter (\<lambda>x. fst x = jid) (ag_spawned A)) \<le> 1"
  using runs.reach_inv [OF assms] by (simp add: once_def spawns_def)

subsection \<open>Cancellation reaches the process\<close>

text \<open>The points after the check for a raced cancellation, while the process may live.\<close>

fun supervised :: "task \<Rightarrow> (string \<times> int) option" where
  "supervised (ReportRunning j p _) = Some (pj_job_id j, p)"
| "supervised (Wait j p _) = Some (pj_job_id j, p)"
| "supervised (KillGroup j p _ _) = Some (pj_job_id j, p)"
| "supervised (Unregister j p _ _) = Some (pj_job_id j, p)"
| "supervised _ = None"

definition notified :: "agent \<Rightarrow> string \<Rightarrow> int \<Rightarrow> bool" where
  "notified A jid p \<longleftrightarrow> - p \<in> fst ` set (ag_signals A) \<or> (jid, p) \<in> set (ag_warned A)"

definition cancels_reach :: "agent \<Rightarrow> bool" where
  "cancels_reach A \<longleftrightarrow> (\<forall>t \<in> set (ag_tasks A). \<forall>jid p. supervised t = Some (jid, p) \<longrightarrow> jid \<in> ag_cancelled A \<longrightarrow> notified A jid p)"

definition logs_grow :: "agent \<Rightarrow> agent \<Rightarrow> bool" where
  "logs_grow A A' \<longleftrightarrow> set (ag_signals A) \<subseteq> set (ag_signals A') \<and> set (ag_warned A) \<subseteq> set (ag_warned A')"

lemma notified_mono: "logs_grow A A' \<Longrightarrow> notified A jid p \<Longrightarrow> notified A' jid p"
  by (auto simp: logs_grow_def notified_def)

lemma cancels_notify:
  assumes "request_cancel ch jid A = (r, A') \<or> force_cancel ch jid A = (f, A')"
  shows "logs_grow A A' \<and> (\<forall>i. i \<in> ag_cancelled A' \<longrightarrow> i \<in> ag_cancelled A \<or>
    i = jid \<and> (\<forall>p st. ag_pids A jid = Some (p, st) \<longrightarrow> 0 < p \<longrightarrow> notified A' jid p))"
  using assms
  by (auto simp: request_cancel_def force_cancel_def send_signal_def logs_grow_def notified_def Let_def
      split: if_splits option.splits)

lemma run_task_supervised:
  assumes "run_task auth ch t A = (ts, A')"
  shows "logs_grow A A' \<and>
    (\<forall>i. i \<in> ag_cancelled A' \<longrightarrow> i \<in> ag_cancelled A \<or>
       (\<forall>p st. ag_pids A i = Some (p, st) \<longrightarrow> 0 < p \<longrightarrow> notified A' i p)) \<and>
    (\<forall>t' \<in> set ts. \<forall>jid p. supervised t' = Some (jid, p) \<longrightarrow>
       ag_cancelled A' = ag_cancelled A \<and> (supervised t = Some (jid, p) \<or> (jid \<in> ag_cancelled A' \<longrightarrow> notified A' jid p)))"
proof (cases t)
  case (Cancel j)
  have "t' = Escalate (pj_job_id j) \<or> t' = ReportNotRunning (pj_job_id j)" if "t' \<in> set ts" for t'
    using assms Cancel that by (auto simp: Let_def split: if_splits prod.splits)
  then have "\<forall>t' \<in> set ts. supervised t' = None" by fastforce
  moreover have "\<exists>r f. request_cancel ch (pj_job_id j) A = (r, A') \<or> force_cancel ch (pj_job_id j) A = (f, A')"
    using assms Cancel by (auto simp: Let_def split: if_splits prod.splits)
  then have "logs_grow A A'" "\<forall>i. i \<in> ag_cancelled A' \<longrightarrow> i \<in> ag_cancelled A \<or>
      (\<forall>p st. ag_pids A i = Some (p, st) \<longrightarrow> 0 < p \<longrightarrow> notified A' i p)"
    using cancels_notify by blast+
  ultimately show ?thesis by auto
next
  case (Escalate i)
  then show ?thesis using assms
    by (auto simp: escalate_def send_signal_def logs_grow_def split: option.splits if_splits)
next
  case (Claim j)
  then show ?thesis using assms by (auto simp: try_claim_def Let_def logs_grow_def split: if_splits)
qed (use assms in \<open>auto simp: logs_grow_def notified_def Let_def split: if_splits marker_read.splits sum.splits prod.splits\<close>)

lemma supervised_occupies: "supervised t = Some (jid, p) \<Longrightarrow> \<exists>s. occupies t = Some (jid, p, s) \<and> pid_of t = Some (jid, p)"
  by (cases t) auto

lemma supervised_entry:
  assumes "sound A" and "t \<in> set (ag_tasks A)" and "supervised t = Some (jid, p)"
  shows "\<exists>s. ag_pids A jid = Some (p, s) \<and> 0 < p"
proof -
  obtain s where s: "occupies t = Some (jid, p, s)" "pid_of t = Some (jid, p)" using supervised_occupies [OF assms(3)] by blast
  then have "t \<in> set (occupants jid (ag_tasks A))" using assms(2) by (simp add: occupants_def)
  then have "ag_pids A jid = Some (p, s)" using assms(1) s(1) by (auto simp: sound_def registered_def)
  moreover have "own_group A jid p" using assms(1,2) s(2) by (auto simp: sound_def owned_def)
  ultimately show ?thesis by (auto simp: own_group_def)
qed

lemma cancels_step: "agent_step sane sent auth A A' \<Longrightarrow> sound A \<and> cancels_reach A \<Longrightarrow> cancels_reach A'"
proof (induction rule: agent_step.induct)
  case (task_step A before t after ch ts A')
  note run = run_task_supervised [OF task_step(3)]
  have grow: "notified A jid p \<Longrightarrow> notified A' jid p" for jid p using run notified_mono by blast
  have C: "\<forall>t' \<in> set (before @ t # after). \<forall>jid p. supervised t' = Some (jid, p) \<longrightarrow> jid \<in> ag_cancelled A \<longrightarrow> notified A jid p"
    and S: "sound A" using task_step(1,4) by (auto simp: cancels_reach_def)
  have old: "notified A' jid p"
    if mem: "t' \<in> set (before @ t # after)" "supervised t' = Some (jid, p)" "jid \<in> ag_cancelled A'" for t' jid p
  proof (cases "jid \<in> ag_cancelled A")
    case True
    then show ?thesis using mem C grow by blast
  next
    case False
    obtain s where "ag_pids A jid = Some (p, s)" "0 < p"
      using supervised_entry [OF S _ mem(2)] mem(1) task_step(1) by auto
    then show ?thesis using run mem(3) False by blast
  qed
  have "notified A' jid p"
    if "t' \<in> set (before @ ts @ after)" "supervised t' = Some (jid, p)" "jid \<in> ag_cancelled A'" for t' jid p
  proof (cases "t' \<in> set ts")
    case True
    then have "supervised t = Some (jid, p) \<or> notified A' jid p" using run that by blast
    then show ?thesis using old [of t jid p] that(3) by auto
  next
    case False
    then show ?thesis using old that by auto
  qed
  then show ?case by (simp add: cancels_reach_def notified_def)
next
  case (message_step A j)
  then show ?case by (auto simp: cancels_reach_def receive_job_def notified_def)
next
  case (poll_step A)
  then show ?case by (cases "ag_poll A") (auto simp: cancels_reach_def notified_def)
qed (auto simp: cancels_reach_def prune_def notified_def)

interpretation cancelling: safe_system agent_start "agent_step sane sent auth" "\<lambda>A. sound A \<and> cancels_reach A"
proof
  fix A
  assume "agent_start A"
  then show "sound A \<and> cancels_reach A" using sound_start by (auto simp: cancels_reach_def agent_start_def)
qed (use sound_step cancels_step in blast)

text \<open>C6. A cancellation is not lost. Whenever a job is marked as cancelled while an executor reports or waits for
  its process, a signal has been sent to the group of that process, also when the request came between
  the first check and the start of the process; the only exception is a process whose pid was found to belong
  to another one, which was logged.\<close>

theorem cancellation_reaches_process:
  assumes "reach agent_start (agent_step sane sent auth) A" and "Wait j p st \<in> set (ag_tasks A)"
    and "pj_job_id j \<in> ag_cancelled A"
  shows "(\<exists>s. (- p, s) \<in> set (ag_signals A)) \<or> (pj_job_id j, p) \<in> set (ag_warned A)"
proof -
  have "cancels_reach A" using cancelling.reach_inv [OF assms(1)] by simp
  then have "notified A (pj_job_id j) p" using assms(2,3) unfolding cancels_reach_def by fastforce
  then show ?thesis by (force simp: notified_def)
qed

end
