(* ===== verification/Agent_Runs.thy ===== *)
theory Agent_Runs
  imports Agent_Runtime
begin

text \<open>
  Runs of an agent: what becomes of a job whose executor ends before a process exists, cancellations
  that come again, the reports of a whole run as the server records them, and concrete runs as
  witnesses of the properties of \<open>Agent_Runtime\<close>.
\<close>

subsection \<open>A reservation that stays\<close>

definition stuck :: "string \<Rightarrow> agent \<Rightarrow> bool" where
  "stuck jid A \<longleftrightarrow> ag_pids A jid = Some (0, 0) \<and> occupants jid (ag_tasks A) = [] \<and> reserving (ag_poll A) \<noteq> Some jid"

lemma stuck_step:
  "agent_step good sent auth A A' \<Longrightarrow> stuck jid A \<Longrightarrow>
     stuck jid A' \<and> filter (\<lambda>x. fst x = jid) (ag_spawned A') = filter (\<lambda>x. fst x = jid) (ag_spawned A)"
proof (induction rule: agent_step.induct)
  case (task_step A before t after ch ts A')
  have t: "map_option fst (occupies t) \<noteq> Some jid" and rest: "occupants jid before = []" "occupants jid after = []"
    using task_step(1,4) by (auto simp: stuck_def split: if_splits)
  have "filter (\<lambda>x. fst x = jid) (ag_spawned A') = filter (\<lambda>x. fst x = jid) (ag_spawned A)"
  proof (cases t)
    case (Cancel j)
    then show ?thesis using run_task_Cancel(1) task_step(3) by (simp add: cancel_frame_def)
  next
    case (Escalate i)
    then show ?thesis using task_step(3) cancel_frames(3) [of A ch i] by (auto simp: cancel_frame_def)
  next
    case (Claim j)
    then show ?thesis using task_step(3) by (auto simp: try_claim_def Let_def split: if_splits)
  qed (use task_step(3) t in \<open>auto simp: Let_def split: if_splits marker_read.splits sum.splits prod.splits\<close>)
  then show ?case
    using run_task_entry [OF task_step(3), of jid] task_step(4) t rest by (simp add: stuck_def)
next
  case (message_step A j)
  then show ?case by (auto simp: stuck_def receive_job_def)
next
  case (poll_step A)
  then show ?case by (cases "ag_poll A") (auto simp: stuck_def no_entry)
qed (simp add: stuck_def prune_def)

lemma stuck_forever:
  "(agent_step good sent auth)\<^sup>*\<^sup>* A A' \<Longrightarrow> stuck jid A \<Longrightarrow>
     stuck jid A' \<and> filter (\<lambda>x. fst x = jid) (ag_spawned A') = filter (\<lambda>x. fst x = jid) (ag_spawned A)"
proof (induction rule: rtranclp_induct)
  case (step B C)
  then have "stuck jid B" "filter (\<lambda>x. fst x = jid) (ag_spawned B) = filter (\<lambda>x. fst x = jid) (ag_spawned A)" by simp_all
  then show ?case using stuck_step [OF step.hyps(2)] by simp
qed simp

text \<open>An executor that ends early blocks its job. When an executor ends before a process exists, because the
  job was cancelled, a marker was found, the directory could not be made or the process could not be
  started, its placeholder stays in the map of pids; whatever happens afterwards, until the agent restarts
  no process is ever started for the job, and no executor for it exists: dispatching the job again has no
  effect, not even the replay of its recorded outcome.\<close>

lemma early_end_blocks_job:
  assumes "reach agent_start (agent_step sane sent auth) A" and "ag_tasks A = before @ t # after"
    and "occupies t = Some (jid, 0, 0)" and "run_task auth ch t A = ([Release j], A1)"
    and "(agent_step sane sent auth)\<^sup>*\<^sup>* (A1\<lparr>ag_tasks := before @ [Release j] @ after\<rparr>) A'"
  shows "ag_pids A' jid = Some (0, 0) \<and> (\<forall>t' \<in> set (ag_tasks A'). map_option fst (occupies t') \<noteq> Some jid) \<and>
    filter (\<lambda>x. fst x = jid) (ag_spawned A') = filter (\<lambda>x. fst x = jid) (ag_spawned A)"
proof -
  let ?B = "A1\<lparr>ag_tasks := before @ [Release j] @ after\<rparr>"
  have reg: "registered A" using runtime.reach_inv [OF assms(1)] by (simp add: sound_def)
  have t: "t \<in> set (occupants jid (ag_tasks A))" using assms(2,3) by (simp add: occupants_def)
  then have e: "ag_pids A jid = Some (0, 0)" using reg assms(3) by (auto simp: registered_def)
  then have r: "reserving (ag_poll A) \<noteq> Some jid" using reg by (auto simp: registered_def)
  have "length (occupants jid (before @ t # after)) \<le> 1" using reg assms(2) by (simp add: registered_def)
  then have rest: "occupants jid before = []" "occupants jid after = []" using assms(3) by simp_all
  have "ag_pids A1 = ag_pids A \<and> ag_poll A1 = ag_poll A \<and> ag_spawned A1 = ag_spawned A"
    using assms(3,4)
    by (cases t) (auto simp: Let_def try_claim_def split: if_splits marker_read.splits sum.splits)
  then have "stuck jid ?B" and sp: "ag_spawned ?B = ag_spawned A" using e r rest by (simp_all add: stuck_def)
  from stuck_forever [OF assms(5) this(1)] show ?thesis
    using sp by (auto simp: stuck_def occupants_def filter_empty_conv)
qed

text \<open>A cancellation that comes while the entry is the placeholder marks the job and sends nothing; the check after the
  start of the process then sends SIGTERM, but no escalation is ever started, because every later request
  for the job finds it marked.\<close>

lemma repeated_cancel:
  assumes "pj_job_id j \<in> ag_cancelled A" and "pj_error_message j \<noteq> FORCE_CANCEL_MARKER"
  shows "run_task auth ch (Cancel j) A =
    (if ag_pids A (pj_job_id j) = None then [ReportNotRunning (pj_job_id j)] else [], A)"
  using assms by (simp add: request_cancel_def Let_def)

lemma cancel_of_placeholder:
  assumes "ag_pids A (pj_job_id j) = Some (0, 0)" and "pj_error_message j \<noteq> FORCE_CANCEL_MARKER"
  shows "fst (run_task auth ch (Cancel j) A) = []" and "ag_signals (snd (run_task auth ch (Cancel j) A)) = ag_signals A"
  using assms by (simp_all add: request_cancel_def recycled_def Let_def split: option.split)

subsection \<open>A run as the server records it\<close>

definition status_report :: "string \<Rightarrow> job_status \<Rightarrow> string \<Rightarrow> status_update" where
  "status_report jid s m = \<lparr>su_job_id = jid, su_status = status_number s, su_message = m\<rparr>"

lemma status_number_decodes: "status_int_to_str (status_number s) = Some (status_to_str s)"
  by (cases s) (simp_all add: status_int_to_str_def status_number_def proto_status_def)

lemma status_from_to_str: "status_from_str (status_to_str s) = Some s"
  by (cases s) (simp_all add: status_from_str_def)

lemma report_accepted:
  assumes "no_faults E" and "get_job jid (st_jobs st) = Some row" and "jr_status row = status_to_str from"
  shows "get_job jid (st_jobs (snd (update_job_status_rpc E (status_report jid to m) st))) =
    Some (if can_transition from to
          then row\<lparr>jr_status := status_to_str to, jr_pid := None, jr_exit_code := None,
             jr_error_message := (if m = [] then None else Some m),
             jr_finished_at := (if is_terminal to then Some (e_now E) else jr_finished_at row)\<rparr>
          else row)"
proof -
  let ?u = "status_report jid to m"
  have u: "status_int_to_str (su_status ?u) = Some (status_to_str to)" "su_job_id ?u = jid" "su_message ?u = m"
    by (simp_all add: status_report_def status_number_decodes)
  show ?thesis
    using assms by (simp add: update_job_status_rpc_def u status_from_to_str no_faults_def validate_transition_def
        update_status_row_get update_message_def)
qed


subsection \<open>Concrete runs\<close>

datatype move = Go nat choice | Message proto_job | Poll | Prune

fun make_move :: "string option \<Rightarrow> move \<Rightarrow> agent \<Rightarrow> agent" where
  "make_move auth (Go i ch) A =
     (if i < length (ag_tasks A)
      then let (ts, A') = run_task auth ch (ag_tasks A ! i) A
           in A'\<lparr>ag_tasks := take i (ag_tasks A) @ ts @ drop (Suc i) (ag_tasks A)\<rparr>
      else prune A)"
| "make_move auth (Message j) A = (if ag_poll A = PollIdle then receive_job j A else prune A)"
| "make_move auth Poll A = poll_next (ag_poll A) A"
| "make_move auth Prune A = prune A"

fun move_ok :: "(choice \<Rightarrow> bool) \<Rightarrow> (proto_job \<Rightarrow> bool) \<Rightarrow> move \<Rightarrow> bool" where
  "move_ok good sent (Go i ch) = good ch"
| "move_ok good sent (Message j) = sent j"
| "move_ok good sent Poll = True"
| "move_ok good sent Prune = True"

lemma make_move_step: "move_ok good sent m \<Longrightarrow> agent_step good sent auth A (make_move auth m A)"
proof (cases m)
  case (Go i ch)
  assume "move_ok good sent m"
  obtain ts A' where r: "run_task auth ch (ag_tasks A ! i) A = (ts, A')" by (cases "run_task auth ch (ag_tasks A ! i) A")
  show ?thesis
  proof (cases "i < length (ag_tasks A)")
    case True
    then have "ag_tasks A = take i (ag_tasks A) @ (ag_tasks A ! i) # drop (Suc i) (ag_tasks A)"
      by (simp add: id_take_nth_drop)
    from agent_step.task_step [OF this _ r] show ?thesis using \<open>move_ok good sent m\<close> Go True r by simp
  next
    case False
    then show ?thesis using Go agent_step.prune_step by simp
  qed
next
  case (Message j)
  assume "move_ok good sent m"
  then show ?thesis using Message agent_step.message_step agent_step.prune_step by (cases "ag_poll A = PollIdle") simp_all
qed (use agent_step.poll_step agent_step.prune_step in simp_all)

lemma moves_reach:
  "list_all (move_ok good sent) ms \<Longrightarrow> reach agent_start (agent_step good sent auth) A \<Longrightarrow>
     reach agent_start (agent_step good sent auth) (fold (make_move auth) ms A)"
  by (induction ms arbitrary: A) (auto intro: reach.move make_move_step)

definition idle_agent :: agent where
  "idle_agent = \<lparr>ag_pids = Map.empty, ag_cancelled = {}, ag_running = {}, ag_done = Map.empty, ag_pid_files = Map.empty,
     ag_tasks = [], ag_poll = PollIdle, ag_signals = [], ag_spawned = [], ag_reports = [], ag_warned = []\<rparr>"

lemma idle_agent_start: "agent_start idle_agent"
  by (simp add: agent_start_def idle_agent_def)

definition calm :: choice where
  "calm = \<lparr>ch_stat = (\<lambda>_. None), ch_dir_ok = True, ch_spawn = Inr 42, ch_wait = Inr (Some 0), ch_alive = (\<lambda>_. False),
     ch_write_ok = True\<rparr>"

definition sample_proto_job :: proto_job where
  "sample_proto_job = job_to_proto (fetched (sample_row ''j1'' ''starting'' (Some ''n1'') (Some 3)))"

lemma sample_proto_job [simp]:
  "pj_job_id sample_proto_job = ''j1''" "pj_retry_count sample_proto_job = 0" "pj_status sample_proto_job = 2"
  "pj_error_message sample_proto_job = []"
  by (simp_all add: sample_proto_job_def job_to_proto_def fetched_def with_node_def sample_row_def proto_status_def i32_as_u32_def)

definition stop_message :: proto_job where
  "stop_message = sample_proto_job\<lparr>pj_status := 4\<rparr>"

definition dispatch_moves :: "choice \<Rightarrow> move list" where
  "dispatch_moves ch = [Message sample_proto_job, Poll, Poll, Poll, Go 0 calm, Go 0 calm, Go 0 calm, Go 0 ch]"

definition waiting_agent :: agent where
  "waiting_agent = fold (make_move None) (dispatch_moves calm @ [Go 0 calm, Go 0 calm, Go 0 calm, Go 0 calm]) idle_agent"

lemmas run_eval = dispatch_moves_def idle_agent_def receive_job_def try_claim_def read_completed_marker_def read_to_string_def
  process_starttime_def report_status_def calm_def status_number_def proto_status_def Let_def

lemma waiting_agent_eval:
  "ag_tasks waiting_agent = [Wait sample_proto_job 42 0]" "ag_pids waiting_agent ''j1'' = Some (42, 0)"
  "ag_cancelled waiting_agent = {}" "ag_poll waiting_agent = PollIdle" "ag_signals waiting_agent = []"
  "ag_spawned waiting_agent = [(''j1'', 42, job_command sample_proto_job)]" "ag_running waiting_agent = {''j1''}"
  by (simp_all add: waiting_agent_def run_eval)

lemma calm_choice: "reliable calm" "sane calm"
  by (simp_all add: reliable_def sane_def calm_def)

lemma waiting_agent_reached:
  "reach agent_start (agent_step sane (\<lambda>_. True) None) waiting_agent"
  "reach agent_start (agent_step reliable (single_retry (\<lambda>_. 0)) None) waiting_agent"
  unfolding waiting_agent_def
  by (rule moves_reach; simp add: dispatch_moves_def calm_choice single_retry_def reach.start idle_agent_start)+

definition cancelled_agent :: agent where
  "cancelled_agent = fold (make_move None) [Message stop_message, Go 1 calm] waiting_agent"

lemma cancelled_agent_reached: "reach agent_start (agent_step sane (\<lambda>_. True) None) cancelled_agent"
  unfolding cancelled_agent_def
  by (rule moves_reach) (simp_all add: calm_choice waiting_agent_reached)

lemma cancelled_agent_eval:
  "ag_tasks cancelled_agent = [Wait sample_proto_job 42 0, Escalate ''j1'']" "ag_cancelled cancelled_agent = {''j1''}"
  "ag_signals cancelled_agent = [(- 42, SIGTERM)]"
  by (simp_all add: cancelled_agent_def stop_message_def receive_job_def status_number_def proto_status_def waiting_agent_eval
      request_cancel_def send_signal_def recycled_def process_starttime_def read_to_string_def calm_def Let_def FORCE_CANCEL_MARKER_def)

theorem one_executor_witness:
  "holders ''j1'' (ag_tasks waiting_agent) = 1"
  using one_executor [OF waiting_agent_reached(1), of "''j1''"] by (simp add: waiting_agent_eval)


theorem executed_at_most_once_witness:
  "length (filter (\<lambda>x. fst x = ''j1'') (ag_spawned waiting_agent)) \<le> 1"
  by (rule executed_at_most_once [OF waiting_agent_reached(2)])

theorem cancellation_reaches_process_witness:
  "(\<exists>s. (- 42, s) \<in> set (ag_signals cancelled_agent)) \<or> (''j1'', 42) \<in> set (ag_warned cancelled_agent)"
  using cancellation_reaches_process [OF cancelled_agent_reached, of sample_proto_job 42 0] by (simp add: cancelled_agent_eval)

text \<open>A process that cannot be started, and the same job dispatched again.\<close>

definition missing_program :: choice where
  "missing_program = calm\<lparr>ch_spawn := Inl ''no such file''\<rparr>"

definition spawning_agent :: agent where
  "spawning_agent = fold (make_move None) (butlast (dispatch_moves calm)) idle_agent"


end
