(* ===== verification/Agent_Client.thy ===== *)
theory Agent_Client
  imports Agent_Runs
begin

text \<open>
  The connection of an agent to its server, \<open>crates/agent/src/grpc_client.rs\<close> and \<open>lib.rs\<close>: the retries at the start,
  the identity it registers with, the numbering of metrics reports, and the heartbeat loop.

  A call over the network is the list of its results: the first element is what the next call answers.
\<close>

subsection \<open>Connecting and registering\<close>

text \<open>\<open>connect_with_retry\<close> never gives up, so it may run forever: a loop that does not end is \<open>None\<close>. The result
  holds the waits between the attempts, in seconds. \<open>attempt n\<close> is the outcome of the \<open>n\<close>th attempt.\<close>

definition next_delay :: "u64 \<Rightarrow> u64" where "next_delay d = min (d * 2) 60"

partial_function (option) connect_loop :: "(nat \<Rightarrow> 'c option) \<Rightarrow> nat \<Rightarrow> u64 \<Rightarrow> u64 list \<Rightarrow> ('c \<times> u64 list) option" where
  "connect_loop attempt n delay waits =
     (case attempt n of
        Some client \<Rightarrow> Some (client, waits)
      | None \<Rightarrow> connect_loop attempt (Suc n) (next_delay delay) (waits @ [delay]))"

definition connect_with_retry :: "(nat \<Rightarrow> 'c option) \<Rightarrow> ('c \<times> u64 list) option" where
  "connect_with_retry attempt = connect_loop attempt 0 1 []"

text \<open>The registration at the start: ten attempts, then the agent ends with an error. The number counts the
  attempts that failed.\<close>

function register_loop :: "(nat \<Rightarrow> bool) \<Rightarrow> nat \<Rightarrow> nat \<times> bool" where
  "register_loop succeeds attempt =
     (if succeeds attempt then (attempt, True)
      else if 10 \<le> attempt + 1 then (attempt + 1, False)
      else register_loop succeeds (attempt + 1))"
  by pat_completeness auto
termination by (relation "measure (\<lambda>(_, a). 10 - a)") auto

declare register_loop.simps [simp del]

text \<open>The node identifier: the configured one, else the host name, else the persisted identity.\<close>

definition resolve_node_id :: "string option \<Rightarrow> string option \<Rightarrow> string \<Rightarrow> string" where
  "resolve_node_id configured hostname identity =
     (case configured of
        Some c \<Rightarrow> if c \<noteq> [] then c else (case hostname of Some h \<Rightarrow> if h \<noteq> [] then h else identity | None \<Rightarrow> identity)
      | None \<Rightarrow> (case hostname of Some h \<Rightarrow> if h \<noteq> [] then h else identity | None \<Rightarrow> identity))"

text \<open>What \<open>sysinfo\<close> and the socket layer tell about the machine.\<close>

record machine =
  mc_os :: "string option"
  mc_os_version :: "string option"
  mc_hostname :: "string option"
  mc_cpu_brands :: "string list"
  mc_total_memory :: u64
  mc_kernel :: "string option"
  mc_local_ip :: string

definition or_default :: "string option \<Rightarrow> string" where
  "or_default s = (case s of Some x \<Rightarrow> x | None \<Rightarrow> [])"

definition build_node_info :: "string \<Rightarrow> string \<Rightarrow> machine \<Rightarrow> node_message" where
  "build_node_info version node_id m =
     \<lparr>n_node_id = node_id, n_hostname = or_default (mc_hostname m), n_ip_address = mc_local_ip m,
      n_agent_version = version,
      n_os_info = (if or_default (mc_os_version m) = [] then or_default (mc_os m)
                   else or_default (mc_os m) @ '' '' @ or_default (mc_os_version m)),
      n_kernel_version = or_default (mc_kernel m),
      n_cpu_model = (case mc_cpu_brands m of [] \<Rightarrow> [] | b # _ \<Rightarrow> b), n_cpu_cores = of_nat (length (mc_cpu_brands m)),
      n_memory_total_bytes = mc_total_memory m, n_labels = []\<rparr>"

subsection \<open>Reports and heartbeats\<close>

text \<open>The sequence starts at the wall clock in milliseconds; \<open>fetch_add\<close> and the sum wrap.\<close>

definition first_sequence :: "time \<Rightarrow> u64" where
  "first_sequence now = i64_as_u64 (timestamp_millis now)"

definition numbered_report :: "string \<Rightarrow> u64 \<Rightarrow> node_metrics_report \<Rightarrow> node_metrics_report \<times> u64" where
  "numbered_report node_id sequence r = (r\<lparr>rp_node_id := node_id, rp_sequence := sequence + 1\<rparr>, sequence + 1)"

fun report_run :: "string \<Rightarrow> u64 \<Rightarrow> node_metrics_report list \<Rightarrow> node_metrics_report list" where
  "report_run node_id sequence [] = []"
| "report_run node_id sequence (r # rs) =
     (let (r', sequence') = numbered_report node_id sequence r in r' # report_run node_id sequence' rs)"

datatype beat_action = SendHeartbeat | RegisterAgain | PruneCancelled

definition heartbeat_tick :: "u64 \<Rightarrow> beat_action list \<times> u64" where
  "heartbeat_tick beats =
     (let beats = beats + 1
      in (SendHeartbeat # (if beats mod 12 = 0 then [RegisterAgain, PruneCancelled] else []), beats))"

subsection \<open>The retries\<close>

definition delay_at :: "nat \<Rightarrow> u64" where
  "delay_at i = (if i < 6 then 2 ^ i else 60)"

lemma delay_values:
  "delay_at 0 = 1" "delay_at 1 = 2" "delay_at 2 = 4" "delay_at 3 = 8" "delay_at 4 = 16" "delay_at 5 = 32"
  "6 \<le> i \<Longrightarrow> delay_at i = 60"
  by (simp_all add: delay_at_def)

lemma next_delay_at: "next_delay (delay_at i) = delay_at (Suc i)"
proof (cases "i < 6")
  case True
  then consider "i = 0" | "i = 1" | "i = 2" | "i = 3" | "i = 4" | "i = 5" by linarith
  then show ?thesis by cases (simp_all add: next_delay_def delay_at_def min_def word_le_nat_alt)
qed (simp add: next_delay_def delay_at_def)

lemma connect_loop_first:
  "\<forall>i < k. attempt (n + i) = None \<Longrightarrow> attempt (n + k) = Some c \<Longrightarrow>
     connect_loop attempt n (delay_at m) ws = Some (c, ws @ map delay_at [m..<m + k])"
proof (induction k arbitrary: n m ws)
  case 0
  then show ?case by (simp add: connect_loop.simps)
next
  case (Suc k)
  have "attempt n = None" using Suc.prems(1) by (metis add.right_neutral zero_less_Suc)
  moreover have "connect_loop attempt (Suc n) (delay_at (Suc m)) (ws @ [delay_at m]) =
      Some (c, (ws @ [delay_at m]) @ map delay_at [Suc m..<Suc m + k])"
    using Suc.prems by (intro Suc.IH) (auto dest: spec [of _ "Suc _"])
  moreover have "[m..<m + Suc k] = m # [Suc m..<Suc m + k]" by (simp add: upt_conv_Cons)
  ultimately show ?case by (simp add: connect_loop.simps [of attempt n] next_delay_at)
qed

lemma connect_loop_returns:
  assumes ret: "connect_loop attempt n delay waits = Some r"
  shows "\<exists>k. attempt (n + k) = Some (fst r) \<and> (\<forall>i < k. attempt (n + i) = None)"
proof (rule connect_loop.raw_induct [where
      P = "\<lambda>attempt n delay waits r. \<exists>k. attempt (n + k) = Some (fst r) \<and> (\<forall>i < k. attempt (n + i) = None)", OF _ ret])
  fix loop and attempt :: "nat \<Rightarrow> 'a option" and n delay waits r
  assume IH: "\<And>attempt n delay waits r. loop attempt n delay waits = Some r \<Longrightarrow>
      \<exists>k. attempt (n + k) = Some (fst r) \<and> (\<forall>i < k. attempt (n + i) = None)"
    and eq: "(case attempt n of None \<Rightarrow> loop attempt (Suc n) (next_delay delay) (waits @ [delay])
       | Some client \<Rightarrow> Some (client, waits)) = Some r"
  show "\<exists>k. attempt (n + k) = Some (fst r) \<and> (\<forall>i < k. attempt (n + i) = None)"
  proof (cases "attempt n")
    case (Some c)
    with eq show ?thesis by (intro exI [of _ 0]) auto
  next
    case None
    with eq IH obtain k where k: "attempt (Suc n + k) = Some (fst r)" "\<forall>i < k. attempt (Suc n + i) = None"
      by fastforce
    have "attempt (n + i) = None" if "i < Suc k" for i using that None k(2) by (cases i) auto
    with k(1) show ?thesis by (intro exI [of _ "Suc k"]) simp
  qed
qed

text \<open>C36. The agent connects as soon as the server can be reached, and waits longer and longer until then. It
  returns a connection exactly when some attempt succeeds; that is then the first one that does, and the waits
  before it are 1, 2, 4, 8, 16 and 32 seconds and 60 seconds from there on. Without such an attempt it never
  returns.\<close>

theorem connects_at_first_success:
  "connect_with_retry attempt = Some (c, waits) \<longleftrightarrow>
     (\<exists>k. attempt k = Some c \<and> (\<forall>i < k. attempt i = None) \<and> waits = map delay_at [0..<k])"
proof -
  have start: "connect_loop attempt 0 1 [] = Some (c, map delay_at [0..<k])"
    if "attempt k = Some c" "\<forall>i < k. attempt i = None" for c k
    using connect_loop_first [of k attempt 0 c 0 "[]"] that by (simp add: delay_values)
  show ?thesis
  proof
    assume "connect_with_retry attempt = Some (c, waits)"
    then have ret: "connect_loop attempt 0 1 [] = Some (c, waits)" by (simp add: connect_with_retry_def)
    from connect_loop_returns [OF this] obtain k where "attempt k = Some c" "\<forall>i < k. attempt i = None" by auto
    with start [OF this] ret show "\<exists>k. attempt k = Some c \<and> (\<forall>i < k. attempt i = None) \<and> waits = map delay_at [0..<k]"
      by auto
  qed (use start in \<open>auto simp: connect_with_retry_def\<close>)
qed

theorem connects_at_first_success_witness:
  "connect_with_retry (\<lambda>n. if n < 8 then None else Some ''up'') = Some (''up'', [1, 2, 4, 8, 16, 32, 60, 60])"
  unfolding connects_at_first_success
  by (intro exI [of _ 8]) (simp add: upt_rec delay_at_def)

lemma register_gives_up:
  "attempt < 10 \<Longrightarrow> \<forall>i. attempt \<le> i \<and> i < 10 \<longrightarrow> \<not> succeeds i \<Longrightarrow> register_loop succeeds attempt = (10, False)"
proof (induction succeeds attempt rule: register_loop.induct)
  case (1 succeeds attempt)
  then show ?case by (cases "attempt = 9") (simp_all add: register_loop.simps)
qed

lemma register_first:
  "attempt \<le> k \<Longrightarrow> k < 10 \<Longrightarrow> \<forall>i. attempt \<le> i \<and> i < k \<longrightarrow> \<not> succeeds i \<Longrightarrow> succeeds k \<Longrightarrow>
     register_loop succeeds attempt = (k, True)"
proof (induction succeeds attempt rule: register_loop.induct)
  case (1 succeeds attempt)
  then show ?case by (cases "attempt = k") (auto simp: register_loop.simps [of succeeds k] register_loop.simps [of succeeds attempt])
qed

lemma register_loop_spec:
  "snd (register_loop succeeds 0) \<longleftrightarrow> (\<exists>i < 10. succeeds i)"
proof (cases "\<exists>i < 10. succeeds i")
  case True
  define k where "k = (LEAST i. succeeds i)"
  from True have "succeeds k" "k < 10" unfolding k_def by (auto intro: LeastI Least_le [THEN le_less_trans])
  moreover have "\<forall>i. 0 \<le> i \<and> i < k \<longrightarrow> \<not> succeeds i" using not_less_Least k_def by blast
  ultimately show ?thesis using register_first [of 0 k succeeds] by auto
qed (use register_gives_up [of 0 succeeds] in auto)

subsection \<open>The numbers of the reports\<close>

lemma cache_key_eq:
  "cache_key r = cache_key r' \<longleftrightarrow> rp_node_id r = rp_node_id r' \<and> rp_sequence r = rp_sequence r'"
proof
  assume eq: "cache_key r = cache_key r'"
  have no: "CHR '':'' \<notin> set (show_nat n)" for n
    using show_nat_digits [of n] by (auto simp: list_all_iff is_ascii_digit_def code_def)
  have last: "after_last (CHR '':'') (cache_key r) = show_nat (unat (rp_sequence r))" for r
    by (simp add: cache_key_def after_last_append no)
  from eq last [of r] last [of r'] have same: "show_nat (unat (rp_sequence r)) = show_nat (unat (rp_sequence r'))" by simp
  then have "digits_value (show_nat (unat (rp_sequence r))) = digits_value (show_nat (unat (rp_sequence r')))" by simp
  then have "rp_sequence r = rp_sequence r'" by (simp add: word_unat_eq_iff)
  with eq same show "rp_node_id r = rp_node_id r' \<and> rp_sequence r = rp_sequence r'" by (simp add: cache_key_def)
qed (simp add: cache_key_def)

lemma report_run_numbers:
  "unat s + length rs < 2 ^ 64 \<Longrightarrow>
     map (\<lambda>r. unat (rp_sequence r)) (report_run n s rs) = [Suc (unat s)..<Suc (unat s + length rs)] \<and>
     (\<forall>r \<in> set (report_run n s rs). rp_node_id r = n)"
proof (induction rs arbitrary: s)
  case (Cons r rs)
  then have "unat (s + 1) = Suc (unat s)" by (simp add: unat_word_ariths(1))
  moreover have "[Suc (unat s)..<Suc (unat s + length (r # rs))] = Suc (unat s) # [Suc (Suc (unat s))..<Suc (Suc (unat s) + length rs)]"
    by (simp add: upt_conv_Cons del: upt_Suc)
  moreover have "unat (s + 1) + length rs < 2 ^ 64" using Cons.prems calculation(1) by simp
  ultimately show ?case using Cons.IH [of "s + 1"] by (simp add: numbered_report_def del: upt_Suc)
qed simp

lemma seen_was_received:
  "k \<in> set (st_seen (fold receive ms st)) \<Longrightarrow> k \<in> set (st_seen st) \<or> (\<exists>m \<in> set ms. cache_key (snd m) = k)"
proof (induction ms arbitrary: st)
  case (Cons m ms)
  from Cons.IH [of "receive m st"] Cons.prems show ?case
    by (auto simp: receive_def report_metrics_seen dest: in_set_takeD split: if_splits)
qed simp

definition reports_of :: "string \<Rightarrow> (env \<times> node_metrics_report) list \<Rightarrow> node_metrics_report list" where
  "reports_of n ms = filter (\<lambda>r. rp_node_id r = n) (map snd ms)"

lemma reports_of_append [simp]: "reports_of n (ms @ ms') = reports_of n ms @ reports_of n ms'"
  by (simp add: reports_of_def)

lemma reports_of_Cons [simp]:
  "reports_of n (m # ms) = (if rp_node_id (snd m) = n then snd m # reports_of n ms else reports_of n ms)"
  by (simp add: reports_of_def)

lemma number_in_run:
  assumes "map (\<lambda>r. unat (rp_sequence r)) rs = [a..<b]" "r \<in> set rs"
  shows "a \<le> unat (rp_sequence r) \<and> unat (rp_sequence r) < b"
proof -
  from assms(2) have "unat (rp_sequence r) \<in> set (map (\<lambda>r. unat (rp_sequence r)) rs)" by simp
  with assms(1) show ?thesis by (simp only: set_upt atLeastLessThan_iff)
qed

text \<open>C17. A restarted agent is never mistaken for the sender of old reports. An agent sends reports, ends, and
  starts again with the same node identifier; the server receives its reports between those of any other
  nodes. When the second start is at least one millisecond per sent report later than the first, no report of
  the second run is in the server's memory of received reports when it arrives, so each of them is stored and
  evaluated and is acknowledged with a time or ends in the panic of an alert duration out of range.\<close>

theorem restart_reports_are_new:
  assumes clock: "0 \<le> timestamp_millis t1" "timestamp_millis t1 + int (length rs1) \<le> timestamp_millis t2"
      "timestamp_millis t2 + int (length rs2) < 2 ^ 64"
    and run1: "reports_of n ms1 = report_run n (first_sequence t1) rs1"
    and run2: "reports_of n ms2 = report_run n (first_sequence t2) rs2"
    and fresh: "st_seen st = []"
    and now: "ms2 = pre @ (E, r) # post" "rp_node_id r = n"
    and st: "st' = fold receive (ms1 @ pre) st"
  shows "cache_key r \<notin> set (st_seen st') \<and> cache_key r \<in> set (st_seen (receive (E, r) st')) \<and>
    fst (report_metrics E r st') \<in>
      {None, Some \<lparr>ma_node_id = n, ma_sequence = rp_sequence r, ma_received_at = Some (timestamp (e_now E))\<rparr>}"
proof -
  let ?q = "\<lambda>r. unat (rp_sequence r)"
  have s1: "unat (first_sequence t1) = nat (timestamp_millis t1)" and s2: "unat (first_sequence t2) = nat (timestamp_millis t2)"
    using clock by (simp_all add: first_sequence_def unat_i64_as_u64_nonneg)
  have len: "unat (first_sequence t1) + length rs1 < 2 ^ 64" "unat (first_sequence t2) + length rs2 < 2 ^ 64"
    using clock unfolding s1 s2 by (simp_all add: nat_add_distrib [symmetric] nat_less_iff flip: of_nat_less_iff [where 'a = int])
  from report_run_numbers [OF len(1), of n] run1
  have n1: "map ?q (reports_of n ms1) = [Suc (unat (first_sequence t1))..<Suc (unat (first_sequence t1) + length rs1)]" by simp
  from report_run_numbers [OF len(2), of n] run2
  have n2: "map ?q (reports_of n ms2) = [Suc (unat (first_sequence t2))..<Suc (unat (first_sequence t2) + length rs2)]" by simp
  have "r \<in> set (reports_of n ms2)" using now by simp
  then have big: "unat (first_sequence t2) < ?q r" using number_in_run [OF n2] by fastforce
  have "distinct (map ?q (reports_of n ms2))" unfolding n2 by (rule distinct_upt)
  then have once: "?q r \<notin> ?q ` set (reports_of n pre)" using now by auto
  have new: "cache_key r \<notin> set (st_seen st')"
  proof
    assume "cache_key r \<in> set (st_seen st')"
    with fresh st obtain m where m: "m \<in> set (ms1 @ pre)" "cache_key (snd m) = cache_key r"
      using seen_was_received [of "cache_key r" "ms1 @ pre" st] by auto
    then have same: "rp_node_id (snd m) = n" "rp_sequence (snd m) = rp_sequence r" using now(2) by (auto simp: cache_key_eq)
    from m(1) same(1) have "snd m \<in> set (reports_of n ms1) \<or> snd m \<in> set (reports_of n pre)"
      by (auto simp: reports_of_def)
    then show False
    proof
      assume "snd m \<in> set (reports_of n ms1)"
      moreover have "nat (timestamp_millis t1) + length rs1 \<le> nat (timestamp_millis t2)" using clock by linarith
      ultimately show False using number_in_run [OF n1] same(2) big unfolding s1 s2 by fastforce
    next
      assume "snd m \<in> set (reports_of n pre)"
      then have "?q (snd m) \<in> ?q ` set (reports_of n pre)" by (rule imageI)
      with once same(2) show False by simp
    qed
  qed
  moreover have "cache_key r \<in> set (st_seen (receive (E, r) st'))"
    using new by (simp add: receive_def report_metrics_seen SEEN_CAPACITY_def)
  ultimately show ?thesis using now(2) by (auto simp: report_metrics_def Let_def split: prod.split bool.split)
qed

lemma first_sequence_values: "first_sequence 0 = 0" "first_sequence 1000000 = 1"
  by (simp_all add: first_sequence_def timestamp_millis_def i64_as_u64_def)

theorem restart_reports_are_new_witness:
  "cache_key (sample_report\<lparr>rp_sequence := 2\<rparr>) \<notin>
     set (st_seen (receive (sample_env, sample_report\<lparr>rp_sequence := 1\<rparr>) sample_state))"
proof -
  have "report_run ''n1'' 0 [sample_report] = [sample_report\<lparr>rp_sequence := 1\<rparr>]"
      "report_run ''n1'' 1 [sample_report] = [sample_report\<lparr>rp_sequence := 2\<rparr>]"
    by (simp_all add: numbered_report_def sample_report_def)
  then show ?thesis
    using restart_reports_are_new [of 0 "[sample_report]" 1000000 "[sample_report]" "''n1''"
        "[(sample_env, sample_report\<lparr>rp_sequence := 1\<rparr>)]" "[(sample_env, sample_report\<lparr>rp_sequence := 2\<rparr>)]"
        sample_state "[]" sample_env "sample_report\<lparr>rp_sequence := 2\<rparr>" "[]"]
    by (simp add: first_sequence_values timestamp_millis_def reports_of_def) (simp add: sample_report_def sample_state_def)
qed

end
