(* ===== verification/Cluster.thy ===== *)
theory Cluster
  imports Job_Rows Agent_Client
begin

text \<open>
  The server and the agent of one node together: the server makes any of its steps, the agent polls the jobs
  of its node, takes the messages of the stream one by one and runs its tasks, and its reports reach the
  server in any order, again, or never. A message may be outdated when the agent takes it. The jobs that
  were handed out are recorded.
\<close>

record cluster =
  cl_server :: app_state
  cl_inbox :: "proto_job list"
  cl_handed :: "proto_job list"
  cl_agent :: agent

definition cluster_start :: "cluster \<Rightarrow> bool" where
  "cluster_start S \<longleftrightarrow> fresh_server (cl_server S) \<and> cl_inbox S = [] \<and> cl_handed S = [] \<and> agent_start (cl_agent S)"

inductive cluster_step :: "string \<Rightarrow> string \<Rightarrow> string option \<Rightarrow> cluster \<Rightarrow> cluster \<Rightarrow> bool"
  for n :: string and token :: string and auth :: "string option" where
  served: "server_step (cl_server S) st \<Longrightarrow> cluster_step n token auth S (S\<lparr>cl_server := st\<rparr>)"
| polled: "grpc_auth_interceptor token auth = Inr () \<Longrightarrow> cl_inbox S = [] \<Longrightarrow> js = get_pending_jobs E n (cl_server S) \<Longrightarrow>
     cluster_step n token auth S (S\<lparr>cl_inbox := js, cl_handed := cl_handed S @ js\<rparr>)"
| stream_lost: "cluster_step n token auth S (S\<lparr>cl_inbox := []\<rparr>)"
| received: "cl_inbox S = j # js \<Longrightarrow> ag_poll (cl_agent S) = PollIdle \<Longrightarrow>
     cluster_step n token auth S (S\<lparr>cl_inbox := js, cl_agent := receive_job j (cl_agent S)\<rparr>)"
| worked: "agent_step reliable (\<lambda>_. False) auth (cl_agent S) A \<Longrightarrow> cluster_step n token auth S (S\<lparr>cl_agent := A\<rparr>)"
| delivered: "(u, a) \<in> set (ag_reports (cl_agent S)) \<Longrightarrow> grpc_auth_interceptor token a = Inr () \<Longrightarrow>
     cluster_step n token auth S (S\<lparr>cl_server := snd (update_job_status_rpc E u (cl_server S))\<rparr>)"
| agent_restarted: "agent_start A \<Longrightarrow> cluster_step n token auth S (S\<lparr>cl_agent := A, cl_inbox := []\<rparr>)"

inductive_cases cluster_stepE: "cluster_step n token auth S S'"

subsection \<open>Where a started process comes from\<close>

definition row_command :: "'n job_row \<Rightarrow> command" where
  "row_command r =
     \<lparr>cmd_program = jr_executable r, cmd_args = strings_of (jr_arguments r), cmd_dir = jr_working_directory r,
      cmd_env = string_map_of (jr_environment r)\<rparr>"

text \<open>A job as it is handed out, and the row that stands behind it.\<close>

definition stored_as :: "job_table \<Rightarrow> proto_job \<Rightarrow> bool" where
  "stored_as t j \<longleftrightarrow> (\<exists>r \<in> set t. jr_job_id r = pj_job_id j \<and> row_command r = job_command j)"

definition handed_ok :: "string \<Rightarrow> proto_job \<Rightarrow> bool" where
  "handed_ok n j \<longleftrightarrow> pj_node_id j = n \<and> pj_status j \<in> {status_number Starting, status_number Stopping} \<and> pj_retry_count j = 0"

definition runnable :: "proto_job list \<Rightarrow> proto_job \<Rightarrow> bool" where
  "runnable H j \<longleftrightarrow> j \<in> set H \<and> pj_status j \<noteq> status_number Stopping"

definition from_handed :: "proto_job list \<Rightarrow> agent \<Rightarrow> bool" where
  "from_handed H A \<longleftrightarrow> (\<forall>t \<in> set (ag_tasks A). \<forall>j. job_of t = Some j \<longrightarrow> runnable H j) \<and>
     (\<forall>j. polled (ag_poll A) = Some j \<longrightarrow> runnable H j) \<and>
     (\<forall>(i, p, c) \<in> set (ag_spawned A). \<exists>j. runnable H j \<and> i = pj_job_id j \<and> c = job_command j)"

definition cluster_inv :: "string \<Rightarrow> cluster \<Rightarrow> bool" where
  "cluster_inv n S \<longleftrightarrow> never_retried (st_jobs (cl_server S)) \<and>
     (\<forall>j \<in> set (cl_handed S). stored_as (st_jobs (cl_server S)) j \<and> handed_ok n j) \<and>
     set (cl_inbox S) \<subseteq> set (cl_handed S) \<and> from_handed (cl_handed S) (cl_agent S) \<and>
     exclusive (cl_agent S) \<and> once (\<lambda>_. 0) (cl_agent S)"

lemma submitted_row: "submitted_part q = submitted_part r \<Longrightarrow> jr_job_id q = jr_job_id r \<and> row_command q = row_command r"
  by (simp add: submitted_part_def row_command_def)

lemma stored_as_keeps:
  assumes "keeps t t'" "stored_as t j"
  shows "stored_as t' j"
proof -
  obtain r where r: "r \<in> set t" "jr_job_id r = pj_job_id j" "row_command r = job_command j"
    using assms(2) by (auto simp: stored_as_def)
  then have "submitted_part r \<in> submitted_part ` set t'" using assms(1) by (auto simp: keeps_def)
  then obtain q where "q \<in> set t'" "submitted_part q = submitted_part r" by (metis imageE)
  with r submitted_row [of q r] show ?thesis by (auto simp: stored_as_def)
qed

lemma runnable_mono: "runnable H j \<Longrightarrow> runnable (H @ H') j"
  by (simp add: runnable_def)

lemma from_handed_mono: "from_handed H A \<Longrightarrow> from_handed (H @ H') A"
  unfolding from_handed_def by (fast intro: runnable_mono)

lemma pending_jobs_ok:
  assumes "j \<in> set (get_pending_jobs E n st)" "never_retried (st_jobs st)"
  shows "stored_as (st_jobs st) j \<and> handed_ok n j"
proof -
  obtain r where r: "r \<in> set (st_jobs st)" "jr_node_id r = Some n" "jr_status r \<in> {''starting'', ''stopping''}"
      "j = job_to_proto (fetched r)"
    using assms(1) by (auto simp: get_pending_jobs_def get_jobs_for_node_def select_where_def split: if_splits)
  have "row_command r = job_command j" "pj_job_id j = jr_job_id r"
    by (simp_all add: r(4) row_command_def job_command_def job_to_proto_def fetched_def with_node_def)
  moreover have "handed_ok n j"
    using r assms(2) by (auto simp: handed_ok_def job_to_proto_def fetched_def with_node_def proto_status_def
        status_number_def never_retried_def i32_as_u32_def)
  ultimately show ?thesis using r(1) by (auto simp: stored_as_def)
qed

lemma run_task_jobs:
  assumes "run_task auth ch t A = (ts, A')"
  shows "(\<forall>t' \<in> set ts. job_of t' = None \<or> job_of t' = job_of t) \<and> ag_poll A' = ag_poll A \<and>
    (\<forall>e \<in> set (ag_spawned A'). e \<in> set (ag_spawned A) \<or>
       (\<exists>j pid. job_of t = Some j \<and> e = (pj_job_id j, pid, job_command j)))"
proof (cases t)
  case (Cancel j)
  then show ?thesis using assms
    by (auto simp: Let_def cancel_frame_def dest!: cancel_frames(1,2) split: if_splits prod.splits)
next
  case (Escalate i)
  then show ?thesis using assms cancel_frames(3) [of A ch i] by (auto simp: cancel_frame_def)
qed (use assms in \<open>auto simp: Let_def try_claim_def split: if_splits marker_read.splits sum.splits prod.splits\<close>)

lemma worked_from_handed:
  assumes "agent_step good (\<lambda>_. False) auth A A'" "from_handed H A"
  shows "from_handed H A'"
  using assms
proof (induction rule: agent_step.induct)
  case (task_step A before t after ch ts A')
  have "\<forall>t' \<in> set ts. \<forall>j. job_of t' = Some j \<longrightarrow> runnable H j"
    using run_task_jobs [OF task_step(3)] task_step(1,4) by (fastforce simp: from_handed_def)
  moreover have "\<exists>j. runnable H j \<and> i = pj_job_id j \<and> c = job_command j" if "(i, p, c) \<in> set (ag_spawned A')" for i p c
    using run_task_jobs [OF task_step(3)] task_step(1,4) that by (fastforce simp: from_handed_def)
  ultimately show ?case
    using run_task_jobs [OF task_step(3)] task_step(1,4) by (auto simp: from_handed_def)
next
  case (poll_step A)
  then show ?case by (cases "ag_poll A") (auto simp: from_handed_def)
qed (simp_all add: from_handed_def prune_def)

lemma worked_agent:
  assumes "agent_step reliable (\<lambda>_. False) auth A A'" "exclusive A \<and> once (\<lambda>_. 0) A"
  shows "exclusive A' \<and> once (\<lambda>_. 0) A'"
proof -
  have "agent_step reliable (single_retry (\<lambda>_. 0)) auth A A'"
    using assms(1) by (cases rule: agent_step.cases) (auto intro: agent_step.intros)
  then show ?thesis using assms(2) by (rule once_preserved)
qed

lemma received_agent:
  assumes "ag_poll A = PollIdle" "pj_retry_count j = 0" "exclusive A \<and> once (\<lambda>_. 0) A"
  shows "exclusive (receive_job j A) \<and> once (\<lambda>_. 0) (receive_job j A)"
proof -
  have "agent_step reliable (single_retry (\<lambda>_. 0)) None A (receive_job j A)"
    using assms(1,2) by (intro agent_step.message_step) (simp_all add: single_retry_def)
  then show ?thesis using assms(3) by (rule once_preserved)
qed

lemma started_agent: "agent_start A \<Longrightarrow> from_handed H A \<and> exclusive A \<and> once (\<lambda>_. 0) A"
  by (simp add: agent_start_def from_handed_def exclusive_def once_def spawns_def)

lemma table_changed:
  assumes "cluster_inv n S" "keeps (st_jobs (cl_server S)) (st_jobs st)" "never_retried (st_jobs st)"
  shows "cluster_inv n (S\<lparr>cl_server := st\<rparr>)"
  using assms stored_as_keeps [OF assms(2)] by (auto simp: cluster_inv_def)

lemma cluster_inv_step: "cluster_step n token auth S S' \<Longrightarrow> cluster_inv n S \<Longrightarrow> cluster_inv n S'"
proof (induction rule: cluster_step.induct)
  case (served S st)
  have "never_retried (st_jobs st)"
    using retries.server_step_inv [OF served(1)] served(2) by (simp add: cluster_inv_def)
  then show ?case by (rule table_changed [OF served(2) step_keeps [OF served(1)]])
next
  case (polled S js E)
  then show ?case using pending_jobs_ok [of _ E n "cl_server S"] from_handed_mono [of "cl_handed S" "cl_agent S" js]
    by (auto simp: cluster_inv_def)
next
  case (received S j js)
  then have "runnable (cl_handed S) j \<or> pj_status j = status_number Stopping" "pj_retry_count j = 0"
    by (auto simp: cluster_inv_def runnable_def handed_ok_def)
  moreover have "from_handed (cl_handed S) (receive_job j (cl_agent S))"
    using received calculation(1) by (auto simp: cluster_inv_def from_handed_def receive_job_def)
  ultimately show ?case using received received_agent [of "cl_agent S" j] by (auto simp: cluster_inv_def)
next
  case (worked S A)
  then show ?case using worked_from_handed worked_agent by (auto simp: cluster_inv_def)
next
  case (delivered u a S E)
  have "keeps (st_jobs (cl_server S)) (st_jobs (cl_server S))" by (simp add: keeps_def)
  then have "keeps (st_jobs (cl_server S)) (st_jobs (snd (update_job_status_rpc E u (cl_server S))))"
    by (rule submissions.update_rpc)
  moreover have "never_retried (st_jobs (snd (update_job_status_rpc E u (cl_server S))))"
    using delivered(3) by (intro retries.update_rpc) (simp add: cluster_inv_def)
  ultimately show ?case by (rule table_changed [OF delivered(3)])
next
  case (agent_restarted A S)
  then show ?case using started_agent [of A "cl_handed S"] by (simp add: cluster_inv_def)
qed (simp add: cluster_inv_def)

interpretation cluster: safe_system cluster_start "cluster_step n token auth" "cluster_inv n" for n token auth
proof
  show "cluster_inv n S" if "cluster_start S" for S
    using that started_agent [of "cl_agent S" "[]"]
    by (simp add: cluster_start_def cluster_inv_def fresh_server_def never_retried_def)
qed (rule cluster_inv_step)

text \<open>C3. An agent runs what the database says, once. However the steps of the server, the messages, the tasks of
  the agent and its reports interleave, every process that an agent starts runs the command that is stored with
  its job, was handed out by the server as a starting job of that node, and is the only one this agent starts for
  the job while completion markers can be written.\<close>

theorem processes_run_stored_commands:
  assumes "reach cluster_start (cluster_step n token auth) S" and "(jid, pid, cmd) \<in> set (ag_spawned (cl_agent S))"
  shows "(\<exists>r \<in> set (st_jobs (cl_server S)). jr_job_id r = jid \<and> row_command r = cmd) \<and>
    (\<exists>j \<in> set (cl_handed S). pj_job_id j = jid \<and> pj_node_id j = n \<and> pj_status j = status_number Starting) \<and>
    length (filter (\<lambda>x. fst x = jid) (ag_spawned (cl_agent S))) = 1"
proof -
  have inv: "cluster_inv n S" using cluster.reach_inv [OF assms(1)] .
  then obtain j where j: "runnable (cl_handed S) j" "jid = pj_job_id j" "cmd = job_command j"
    using assms(2) by (fastforce simp: cluster_inv_def from_handed_def)
  then have "stored_as (st_jobs (cl_server S)) j" "handed_ok n j"
    using inv by (auto simp: cluster_inv_def runnable_def)
  moreover have "length (filter (\<lambda>x. fst x = jid) (ag_spawned (cl_agent S))) \<le> 1"
    using inv by (simp add: cluster_inv_def once_def spawns_def)
  moreover have "filter (\<lambda>x. fst x = jid) (ag_spawned (cl_agent S)) \<noteq> []"
    using assms(2) by (force simp: filter_empty_conv)
  ultimately have "length (filter (\<lambda>x. fst x = jid) (ag_spawned (cl_agent S))) = 1"
    by (metis One_nat_def le_antisym length_greater_0_conv Suc_leI)
  with \<open>stored_as _ j\<close> \<open>handed_ok n j\<close> show ?thesis
    using j by (auto simp: stored_as_def handed_ok_def runnable_def intro!: bexI [of _ j])
qed

subsection \<open>A cluster that starts a job\<close>

text \<open>The waiting job gets a node with four GPUs, the next tick assigns it, the agent polls and starts it.\<close>

definition roomy_server :: app_state where
  "roomy_server = waiting_server\<lparr>st_registry := register (sample_node\<lparr>ne_gpu_count := 4\<rparr>) registry_new\<rparr>"

definition ticked_server :: app_state where
  "ticked_server = background_tick sample_postgres sample_env 1 roomy_server"

lemma roomy_cycle: "st_jobs (run_scheduler_cycle sample_env roomy_server) = [assign_effect ''n1'' 0 waiting_row]"
  unfolding run_scheduler_cycle_def roomy_server_def waiting_server_def waiting_row_def [symmetric]
  by (simp add: load_queue_def recycle_dead_nodes_def requeue_stale_def refresh_capacity_def Let_def
      sample_server_def sample_state_def registry_list_def register_def registry_new_def kvalues_def sample_node_def
      reset_stale_starting_jobs_def select_where_def update_where_def stale_starting_def fold_requeue forget_def
      set_node_gpu_capacity_def scheduler_new_def list_queued_jobs_for_scheduling_def job_row_to_job_def enqueue_def kget_def
      schedule_def find_node_for_job_def gpus_in_use_def saturating_sub_def word_le_nat_alt dispatch_def
      assign_job_to_node_def rows_affected_def queued_job_def push_update_def st_node_ids_def sample_node_info_def)

lemma roomy_start:
  "prune_login_attempts 0 (roomy_server\<lparr>st_registry := check_node_status 0 (st_registry roomy_server)\<rparr>) = roomy_server"
  by (simp add: prune_login_attempts_def prune_limiter_def limiter_new_def kretain_def roomy_server_def waiting_server_def
      sample_server_def sample_state_def check_node_status_def register_def registry_new_def kmap_values_def sample_node_def
      status_at_def num_seconds_def i64_as_u64_def)

lemma roomy_metrics: "prune_old_metrics now [] = []"
  by (simp add: prune_old_metrics_def delete_where_def)

lemma ticked_row: "st_jobs ticked_server = [assign_effect ''n1'' 0 waiting_row]"
proof -
  have "unless_fault sample_env ''prune_old_metrics'' (\<lambda>st. st\<lparr>st_metrics := prune_old_metrics 0 (st_metrics st)\<rparr>) roomy_server = roomy_server"
    by (simp add: unless_fault_def roomy_metrics roomy_server_def waiting_server_def sample_server_def sample_state_def)
  then show ?thesis
    by (simp add: ticked_server_def background_tick_def roomy_start roomy_cycle Let_def reap_running_def reap_stopping_def
        reset_stale_stopping_jobs_def mark_running_jobs_lost_def table_simps stale_stopping_def running_on_nodes_def
        assign_effect_def)
qed

definition started_job :: proto_job where
  "started_job = job_to_proto (fetched (assign_effect ''n1'' 0 waiting_row))"

lemma started_job_simps [simp]: "pj_job_id started_job = ''job_id''" "pj_retry_count started_job = 0" "pj_status started_job = 2"
  by (simp_all add: started_job_def job_to_proto_def fetched_def with_node_def assign_effect_def proto_status_def
      i32_as_u32_def waiting_row_def stored_def submitted_row_def)

definition quiet_cluster :: cluster where
  "quiet_cluster = \<lparr>cl_server = ticked_server, cl_inbox = [], cl_handed = [], cl_agent = idle_agent\<rparr>"

lemma serving_cluster:
  "reach fresh_server server_step st \<Longrightarrow>
     reach cluster_start (cluster_step n token auth) \<lparr>cl_server = st, cl_inbox = [], cl_handed = [], cl_agent = idle_agent\<rparr>"
proof (induction rule: reach.induct)
  case (move s t)
  from reach.move [OF move.IH cluster_step.served] move.hyps(2) show ?case by simp
qed (simp add: reach.start cluster_start_def idle_agent_start)

lemma quiet_reach: "reach cluster_start (cluster_step n token auth) quiet_cluster"
proof -
  have "reach fresh_server server_step roomy_server"
    by (rule server.reach_next [OF waiting_reach server_step.other]) (simp_all add: roomy_server_def)
  then have "reach fresh_server server_step ticked_server"
    unfolding ticked_server_def by (rule server.reach_next) (rule server_step.ticked)
  then show ?thesis unfolding quiet_cluster_def by (rule serving_cluster)
qed

lemma working_cluster:
  "list_all (move_ok reliable (\<lambda>_. False)) ms \<Longrightarrow> reach cluster_start (cluster_step n token auth) S \<Longrightarrow>
     reach cluster_start (cluster_step n token auth) (S\<lparr>cl_agent := fold (make_move auth) ms (cl_agent S)\<rparr>)"
proof (induction ms arbitrary: S)
  case (Cons m ms)
  have "reach cluster_start (cluster_step n token auth) (S\<lparr>cl_agent := make_move auth m (cl_agent S)\<rparr>)"
    using Cons.prems by (intro reach.move [OF Cons.prems(2)] cluster_step.worked make_move_step) simp
  from Cons.IH [OF _ this] Cons.prems(1) show ?case by simp
qed simp

definition start_moves :: "move list" where
  "start_moves = [Poll, Poll, Poll, Go 0 calm, Go 0 calm, Go 0 calm, Go 0 calm]"

definition started_cluster :: cluster where
  "started_cluster =
     \<lparr>cl_server = ticked_server, cl_inbox = [], cl_handed = [started_job],
      cl_agent = fold (make_move None) start_moves (receive_job started_job idle_agent)\<rparr>"

lemma started_reach: "reach cluster_start (cluster_step ''n1'' [] None) started_cluster"
proof -
  have jobs: "get_pending_jobs sample_env ''n1'' ticked_server = [started_job]"
    by (simp add: get_pending_jobs_def get_jobs_for_node_def select_where_def ticked_row started_job_def assign_effect_def)
  have "reach cluster_start (cluster_step ''n1'' [] None) (quiet_cluster\<lparr>cl_inbox := [started_job], cl_handed := [started_job]\<rparr>)"
    using reach.move [OF quiet_reach cluster_step.polled [of "[]" None quiet_cluster "[started_job]" sample_env "''n1''"]] jobs
    by (simp add: grpc_auth_interceptor_def quiet_cluster_def)
  from reach.move [OF this cluster_step.received]
  have "reach cluster_start (cluster_step ''n1'' [] None)
      \<lparr>cl_server = ticked_server, cl_inbox = [], cl_handed = [started_job], cl_agent = receive_job started_job idle_agent\<rparr>"
    by (simp add: quiet_cluster_def idle_agent_def)
  from working_cluster [OF _ this, of start_moves] show ?thesis
    by (simp add: started_cluster_def start_moves_def calm_choice)
qed

theorem processes_run_stored_commands_witness:
  "\<exists>r \<in> set (st_jobs ticked_server). jr_job_id r = ''job_id'' \<and> row_command r = job_command started_job"
proof -
  have "(''job_id'', 42, job_command started_job) \<in> set (ag_spawned (cl_agent started_cluster))"
    by (simp add: started_cluster_def start_moves_def run_eval)
  from processes_run_stored_commands [OF started_reach this] show ?thesis by (simp add: started_cluster_def)
qed

end
