(* ===== verification/Server_Run.thy ===== *)
theory Server_Run
  imports Background
begin

text \<open>
  The process of the server, \<open>run\<close> of \<open>crates/server/src/lib.rs\<close>: the order in which it starts its services
  and gives up, the certificates, the TLS listener, and the end. Whether an address parses, the contents
  of files, the database and the PEM parser are arguments. What a listener hands to the handlers with a
  connection decides whether they can answer.
\<close>

subsection \<open>Certificates\<close>

text \<open>The transport of a listener; TLS carries the certificate and the key.\<close>

datatype transport = Plain | Tls (tls_cert: string) (tls_key: string)

datatype start_error =
    ConfigRejected string | NoDatabase | BadAddress string | CertPathMissing | CertUnreadable | KeyPathMissing
  | KeyUnreadable | Incoherent string

record server_world =
  wo_read :: "string \<Rightarrow> string option"
  wo_address_ok :: "string \<Rightarrow> bool"
  wo_database :: bool

definition read_pem_pair :: "server_world \<Rightarrow> server_config \<Rightarrow> start_error + string \<times> string" where
  "read_pem_pair w c =
     (case sc_tls_cert_path c of
        None \<Rightarrow> Inl CertPathMissing
      | Some cert_path \<Rightarrow>
     (case wo_read w cert_path of
        None \<Rightarrow> Inl CertUnreadable
      | Some cert \<Rightarrow>
     (case sc_tls_key_path c of
        None \<Rightarrow> Inl KeyPathMissing
      | Some key_path \<Rightarrow>
     (case wo_read w key_path of
        None \<Rightarrow> Inl KeyUnreadable
      | Some key \<Rightarrow> Inr (cert, key)))))"

definition load_tls_identity :: "server_world \<Rightarrow> server_config \<Rightarrow> start_error + (string \<times> string) option" where
  "load_tls_identity w c =
     (if \<not> sc_tls_enabled c then Inr None
      else case read_pem_pair w c of Inl e \<Rightarrow> Inl e | Inr p \<Rightarrow> Inr (Some p))"

definition http_pem :: "server_world \<Rightarrow> server_config \<Rightarrow> start_error + (string \<times> string) option" where
  "http_pem w c =
     (if sc_tls_enabled c
      then case read_pem_pair w c of Inl e \<Rightarrow> Inl e | Inr (cert, key) \<Rightarrow> Inr (Some (cert, key))
      else Inr None)"

definition transport_of :: "(string \<times> string) option \<Rightarrow> transport" where
  "transport_of p = (case p of Some (cert, key) \<Rightarrow> Tls cert key | None \<Rightarrow> Plain)"

subsection \<open>Start\<close>

record services =
  sv_background :: bool
  sv_grpc :: "transport option"
  sv_http :: "transport option"
  sv_prometheus :: bool

definition no_services :: services where
  "no_services = \<lparr>sv_background = False, sv_grpc = None, sv_http = None, sv_prometheus = False\<rparr>"

text \<open>The services that have been started, and the error that ends the start. \<open>loaded\<close> is the answer of
  \<open>load_config\<close>.\<close>

definition start_services :: "server_world \<Rightarrow> string + server_config \<Rightarrow> start_error option \<times> services" where
  "start_services w loaded =
     (case loaded of
        Inl e \<Rightarrow> (Some (ConfigRejected e), no_services)
      | Inr c \<Rightarrow>
     if \<not> wo_database w then (Some NoDatabase, no_services) else
     let s = no_services\<lparr>sv_background := True\<rparr> in
     if \<not> wo_address_ok w (sc_grpc_addr c) then (Some (BadAddress (sc_grpc_addr c)), s) else
     (case load_tls_identity w c of
        Inl e \<Rightarrow> (Some e, s)
      | Inr identity \<Rightarrow>
     let s = s\<lparr>sv_grpc := Some (transport_of identity)\<rparr> in
     (case validate_config c of
        Inl e \<Rightarrow> (Some (Incoherent e), s)
      | Inr _ \<Rightarrow>
     if \<not> wo_address_ok w (sc_http_addr c) then (Some (BadAddress (sc_http_addr c)), s) else
     (case http_pem w c of
        Inl e \<Rightarrow> (Some e, s)
      | Inr pem \<Rightarrow>
     let s = s\<lparr>sv_http := Some (transport_of pem)\<rparr> in
     if sc_prometheus_enabled c
     then if wo_address_ok w (sc_prometheus_addr c) then (None, s\<lparr>sv_prometheus := True\<rparr>)
          else (Some (BadAddress (sc_prometheus_addr c)), s)
     else (None, s)))))"

subsection \<open>End\<close>

datatype task_end = Finished | Failed string | Panicked string

datatype wakeup = Interrupt | GrpcEnds task_end | HttpEnds task_end

fun task_result :: "string \<Rightarrow> task_end \<Rightarrow> string + unit" where
  "task_result name Finished = Inr ()"
| "task_result name (Failed e) = Inl (name @ '' server failed: '' @ e)"
| "task_result name (Panicked e) = Inl (name @ '' server task panicked: '' @ e)"

text \<open>The first event of \<open>select!\<close> ends the process: the answer of \<open>run\<close>, and the services that still run.\<close>

fun run_end :: "wakeup \<Rightarrow> services \<Rightarrow> (string + unit) \<times> services" where
  "run_end Interrupt s = (Inr (), s\<lparr>sv_grpc := None, sv_http := None, sv_prometheus := False\<rparr>)"
| "run_end (GrpcEnds r) s =
     (task_result ''gRPC'' r, s\<lparr>sv_grpc := None, sv_http := None, sv_prometheus := False\<rparr>)"
| "run_end (HttpEnds r) s =
     (task_result ''HTTP'' r, s\<lparr>sv_http := None, sv_grpc := None, sv_prometheus := False\<rparr>)"

subsection \<open>The TLS listener\<close>

text \<open>The PEM parser: the certificates of a text, the first private key, and whether they make a
  configuration.\<close>

record ('cert, 'key) pem =
  pem_certs :: "string \<Rightarrow> 'cert list option"
  pem_key :: "string \<Rightarrow> 'key option option"
  pem_pair_ok :: "'cert list \<Rightarrow> 'key \<Rightarrow> bool"

record ('cert, 'key) rustls_config =
  rc_certs :: "'cert list"
  rc_key :: 'key
  rc_alpn :: "string list"

datatype tls_error = BadCertificates | BadKey | NoKey | PairRejected

definition build_rustls_server_config ::
  "('cert, 'key) pem \<Rightarrow> string \<Rightarrow> string \<Rightarrow> tls_error + ('cert, 'key) rustls_config" where
  "build_rustls_server_config p cert_pem key_pem =
     (case pem_certs p cert_pem of
        None \<Rightarrow> Inl BadCertificates
      | Some certs \<Rightarrow>
     (case pem_key p key_pem of
        None \<Rightarrow> Inl BadKey
      | Some None \<Rightarrow> Inl NoKey
      | Some (Some key) \<Rightarrow>
          if pem_pair_ok p certs key then Inr \<lparr>rc_certs = certs, rc_key = key, rc_alpn = [''http/1.1'']\<rparr>
          else Inl PairRejected))"

text \<open>What the accept loop meets: an error of \<open>accept\<close>, or a connection whose handshake succeeds or not.
  The result counts the connections served and holds the error that ended the loop, if one did.\<close>

datatype accept_event = AcceptFails string | Connection bool

fun accept_loop :: "accept_event list \<Rightarrow> nat \<times> string option" where
  "accept_loop [] = (0, None)"
| "accept_loop (AcceptFails e # es) = (0, Some e)"
| "accept_loop (Connection handshake # es) =
     (let (n, e) = accept_loop es in (if handshake then Suc n else n, e))"

datatype serve_error = TlsSetup tls_error | BindFails string | AcceptError string

definition serve_http_tls ::
  "('cert, 'key) pem \<Rightarrow> string option \<Rightarrow> accept_event list \<Rightarrow> string \<Rightarrow> string \<Rightarrow> nat \<times> serve_error option" where
  "serve_http_tls p bind_error es cert_pem key_pem =
     (case build_rustls_server_config p cert_pem key_pem of
        Inl e \<Rightarrow> (0, Some (TlsSetup e))
      | Inr _ \<Rightarrow>
          (case bind_error of
             Some e \<Rightarrow> (0, Some (BindFails e))
           | None \<Rightarrow> (case accept_loop es of (n, e) \<Rightarrow> (n, map_option AcceptError e))))"

text \<open>The peer address that a handler finds with its request: the plain listener is made with
  \<open>into_make_service_with_connect_info\<close>, the TLS listener serves the bare router. An extractor that finds
  none answers 500 before the handler runs.\<close>

definition connect_info :: "transport \<Rightarrow> string \<Rightarrow> string option" where
  "connect_info t peer = (case t of Plain \<Rightarrow> Some peer | Tls _ _ \<Rightarrow> None)"

definition with_connect_info ::
  "string option \<Rightarrow> (string \<Rightarrow> app_state \<Rightarrow> 'a reply \<times> app_state) \<Rightarrow> app_state \<Rightarrow> 'a reply \<times> app_state" where
  "with_connect_info info handler st = (case info of None \<Rightarrow> (Err Internal500, st) | Some a \<Rightarrow> handler a st)"

definition login_request ::
  "transport \<Rightarrow> env \<Rightarrow> string \<Rightarrow> string \<Rightarrow> app_state \<Rightarrow> login_response reply \<times> app_state" where
  "login_request t E username password st =
     with_connect_info (connect_info t (e_peer E)) (\<lambda>a. login (E\<lparr>e_peer := a\<rparr>) username password) st"

subsection \<open>What the start guarantees\<close>

lemmas start_unfold = start_services_def load_tls_identity_def http_pem_def transport_of_def no_services_def Let_def

lemma validate_config_tls:
  "validate_config c = Inr () \<Longrightarrow> sc_tls_enabled c \<Longrightarrow> sc_tls_cert_path c \<noteq> None \<and> sc_tls_key_path c \<noteq> None"
  by (auto simp: validate_config_def split: if_splits)


text \<open>The check of the configuration decides nothing: the certificates were read before it, so an incoherent
  configuration has already ended the start, with the database migrated and the background tasks running.\<close>

lemma validation_is_dead:
  assumes "start_services w (Inr c) = (failure, s)"
  shows "failure \<noteq> Some (Incoherent e)"
    "validate_config c \<noteq> Inr () \<Longrightarrow> wo_database w \<Longrightarrow> failure \<noteq> None \<and> sv_background s \<and> sv_grpc s = None"
  using assms
  by (auto simp: start_unfold read_pem_pair_def validate_config_def split: if_splits option.splits sum.splits prod.splits)

text \<open>However the process ends, no listener outlives it; it reports success only for an interrupt or a
  listener that ended without an error.\<close>

lemma run_end_stops:
  "sv_grpc (snd (run_end e s)) = None \<and> sv_http (snd (run_end e s)) = None \<and> \<not> sv_prometheus (snd (run_end e s)) \<and>
   (fst (run_end e s) = Inr () \<longleftrightarrow> e = Interrupt \<or> e = GrpcEnds Finished \<or> e = HttpEnds Finished)"
  by (cases "(e, s)" rule: run_end.cases) (auto elim!: task_result.elims)

text \<open>Failed handshakes never end the TLS listener, an error of \<open>accept\<close> does.\<close>

lemma accept_loop_end:
  "snd (accept_loop es) = None \<longleftrightarrow> (\<forall>x \<in> set es. \<exists>h. x = Connection h)"
  by (induction es rule: accept_loop.induct) (auto simp: split_beta Let_def)

lemma served_connections:
  "snd (accept_loop es) = None \<Longrightarrow> fst (accept_loop es) = count_list es (Connection True)"
  by (induction es rule: accept_loop.induct) (auto simp: split_beta Let_def)

text \<open>Nobody logs in over TLS: the handler needs the address of the peer, which that listener does not
  hand on.\<close>

lemma tls_login_fails: "login_request (Tls cert key) E username password st = (Err Internal500, st)"
  by (simp add: login_request_def connect_info_def with_connect_info_def)

lemma plain_login: "login_request Plain E username password st = login E username password st"
  by (simp add: login_request_def connect_info_def with_connect_info_def)

definition tls_world :: server_world where
  "tls_world = \<lparr>wo_read = (\<lambda>p. if p = ''c'' then Some ''CERT'' else if p = ''k'' then Some ''KEY'' else None),
     wo_address_ok = (\<lambda>a. True), wo_database = True\<rparr>"

definition tls_config :: server_config where
  "tls_config = default_server_config\<lparr>sc_tls_enabled := True, sc_tls_cert_path := Some ''c'', sc_tls_key_path := Some ''k''\<rparr>"


end
