(* ===== verification/Web.thy ===== *)
theory Web
  imports Middleware
begin

text \<open>
  The dashboard of \<open>crates/server/src/web.rs\<close> and the whole router of \<open>build_http_router\<close>: the embedded
  files with their headers, whose contents are an argument, and the paths beside those of the API.
\<close>

text \<open>A header map, where an insertion replaces the value; the body brings a content type of its own.\<close>

record web_response =
  wr_body :: string
  wr_headers :: "(string, string) kmap"

definition into_response :: "string \<Rightarrow> string \<Rightarrow> web_response" where
  "into_response content_type body = \<lparr>wr_body = body, wr_headers = kput ''content-type'' content_type []\<rparr>"

definition content_security_policy :: string where
  "content_security_policy =
     ''default-src 'self'; script-src 'self'; style-src 'self' 'unsafe-inline'; img-src 'self' data:; connect-src 'self' ws: wss:; font-src 'self'; object-src 'none'; base-uri 'none'; frame-ancestors 'none'' @ [CHR 0x27]"

definition with_asset_headers :: "web_response \<Rightarrow> string \<Rightarrow> web_response" where
  "with_asset_headers r content_type =
     (let h = kput ''content-type'' content_type (wr_headers r);
          h = kput ''content-security-policy'' content_security_policy h;
          h = kput ''x-content-type-options'' ''nosniff'' h;
          h = kput ''cache-control'' ''no-cache'' h
      in r\<lparr>wr_headers := h\<rparr>)"

text \<open>The routes: the path, the embedded file, whether it is text, and its content type.\<close>

definition asset_table :: "(string \<times> string \<times> bool \<times> string) list" where
  "asset_table =
     [(''/'', ''index.html'', True, ''text/html; charset=utf-8''),
      (''/styles.css'', ''styles.css'', True, ''text/css; charset=utf-8''),
      (''/app.js'', ''app.js'', True, ''text/javascript; charset=utf-8''),
      (''/api.js'', ''api.js'', True, ''text/javascript; charset=utf-8''),
      (''/lib.js'', ''lib.js'', True, ''text/javascript; charset=utf-8''),
      (''/motion.js'', ''motion.js'', True, ''text/javascript; charset=utf-8''),
      (''/icon.png'', ''icon.png'', False, ''image/png''),
      (''/fonts/barlow-condensed-500.woff2'', ''barlow-condensed-500.woff2'', False, ''font/woff2''),
      (''/fonts/barlow-condensed-600.woff2'', ''barlow-condensed-600.woff2'', False, ''font/woff2'')]"

definition asset_response :: "(string \<Rightarrow> string) \<Rightarrow> string \<Rightarrow> bool \<Rightarrow> string \<Rightarrow> web_response" where
  "asset_response files name is_text content_type =
     with_asset_headers (into_response (if is_text then ''text/plain; charset=utf-8'' else ''application/octet-stream'')
       (files name)) content_type"

definition serve_asset :: "(string \<Rightarrow> string) \<Rightarrow> string \<Rightarrow> web_response option" where
  "serve_asset files path =
     map_option (\<lambda>(name, is_text, content_type). asset_response files name is_text content_type)
       (map_of asset_table path)"

subsection \<open>The router\<close>

definition public_table :: "(http_method \<times> string) list" where
  "public_table =
     [(GET, ''/api/health''), (POST, ''/api/login''), (POST, ''/api/refresh-token''), (GET, ''/ws'')]"

definition server_routes :: "(http_method \<times> string) list" where
  "server_routes =
     map (\<lambda>(path, _). (GET, path)) asset_table @ public_table
     @ map (\<lambda>(meth, pat, _). (meth, ''/api'' @ pat)) route_table"

text \<open>No two routers register the same method on the same path, which \<open>merge\<close> would answer with a panic at the
  start.\<close>

lemma routes_do_not_overlap: "distinct server_routes"
  by (simp add: server_routes_def asset_table_def public_table_def route_table_def)

text \<open>Every file of the dashboard is served with the declared content type, with sniffing off and under the
  content security policy.\<close>

lemma assets_are_hardened:
  assumes "serve_asset files path = Some r"
  shows "kget (wr_headers r) ''x-content-type-options'' = Some ''nosniff''"
    "kget (wr_headers r) ''content-security-policy'' = Some content_security_policy"
    "kget (wr_headers r) ''content-type'' = map_option (\<lambda>(_, _, ct). ct) (map_of asset_table path)"
    "map_option (\<lambda>(name, _). files name) (map_of asset_table path) = Some (wr_body r)"
  using assms
  by (auto simp: serve_asset_def asset_response_def with_asset_headers_def into_response_def Let_def kget_def)

end
