(* ===== verification/Ws_Session.thy ===== *)
theory Ws_Session
  imports Ws_Manager "HOL-Library.Sublist"
begin

text \<open>
  One WebSocket connection, \<open>WsHandler::handle\<close> of \<open>crates/server/src/ws_handler.rs\<close>: its registration, the
  welcome, the loop over heartbeats, frames of the peer and queued texts, and its end. The loop takes one
  event at a time; whether the socket accepts a frame is part of the event. The channel lives in the
  client table as long as the client is in it; what the channel still held when a broadcast took the
  client out is an argument of the turn.
\<close>

datatype frame = TextFrame string | PingFrame string | PongFrame string

datatype session_event =
    Heartbeat bool                 \<comment> \<open>the ping, and whether it could be sent\<close>
  | FromPeer string                \<comment> \<open>a text frame\<close>
  | PingFromPeer string
  | IgnoredFrame                   \<comment> \<open>binary, pong\<close>
  | CloseFromPeer
  | SocketFails string
  | SocketEnds
  | Outbound bool                  \<comment> \<open>\<open>rx.recv()\<close>, and whether the text could be sent\<close>

text \<open>\<open>rx.recv\<close>: the next text; a channel without a sender and without texts ends; an open and empty one
  waits, which no event reports. The second component is what is left of a detached channel.\<close>

datatype received = Waits | Received string | ChannelEnds

definition recv :: "string \<Rightarrow> ws_manager \<Rightarrow> string list \<Rightarrow> received \<times> ws_manager \<times> string list" where
  "recv client_id W rest =
     (case kget (ws_clients W) client_id of
        Some c \<Rightarrow> (case ws_deliver client_id W of (Some t, W') \<Rightarrow> (Received t, W', rest) | (None, W') \<Rightarrow> (Waits, W', rest))
      | None \<Rightarrow> (case rest of [] \<Rightarrow> (ChannelEnds, W, []) | t # q \<Rightarrow> (Received t, W, q)))"

record session_result =
  sr_frames :: "frame list"
  sr_manager :: ws_manager
  sr_rest :: "string list"
  sr_continues :: bool

definition turn_result :: "frame list \<Rightarrow> ws_manager \<Rightarrow> string list \<Rightarrow> bool \<Rightarrow> session_result" where
  "turn_result fs W rest go = \<lparr>sr_frames = fs, sr_manager = W, sr_rest = rest, sr_continues = go\<rparr>"

definition session_turn ::
  "(json \<Rightarrow> string) \<Rightarrow> (string \<Rightarrow> string option option) \<Rightarrow> string \<Rightarrow> session_event \<Rightarrow> ws_manager \<Rightarrow> string list
    \<Rightarrow> session_result" where
  "session_turn to_string from_str client_id e W rest =
     (case e of
        Heartbeat sent \<Rightarrow> turn_result (if sent then [PingFrame []] else []) W rest sent
      | FromPeer txt \<Rightarrow> turn_result [] (handle_message to_string from_str client_id txt W) rest True
      | PingFromPeer d \<Rightarrow> turn_result [PongFrame d] W rest True
      | IgnoredFrame \<Rightarrow> turn_result [] W rest True
      | CloseFromPeer \<Rightarrow> turn_result [] W rest False
      | SocketFails err \<Rightarrow> turn_result [] W rest False
      | SocketEnds \<Rightarrow> turn_result [] W rest False
      | Outbound sent \<Rightarrow>
          (case recv client_id W rest of
             (Waits, W', rest') \<Rightarrow> turn_result [] W' rest' True
           | (Received t, W', rest') \<Rightarrow> turn_result (if sent then [TextFrame t] else []) W' rest' sent
           | (ChannelEnds, W', rest') \<Rightarrow> turn_result [] W' rest' False))"

text \<open>The start: registration and welcome, whose failure is ignored.\<close>

definition session_start :: "(json \<Rightarrow> string) \<Rightarrow> server_config \<Rightarrow> string \<Rightarrow> string \<Rightarrow> ws_manager \<Rightarrow> frame list \<times> ws_manager" where
  "session_start to_string cfg client_id ip W =
     ([TextFrame (to_string (message_json (empty_message\<lparr>wm_type := ''connected''\<rparr>)))], ws_connect cfg client_id ip W)"

text \<open>What other tasks do to the manager in between: broadcasts, and the connection, subscription, delivery and end
  of other clients. A broadcast that drops this client leaves it a channel without a sender.\<close>

definition others_broadcast :: "string \<Rightarrow> string \<Rightarrow> string option \<Rightarrow> ws_manager \<times> string list \<Rightarrow> ws_manager \<times> string list" where
  "others_broadcast i message flt s =
     (case s of (W, rest) \<Rightarrow>
        let W' = broadcast message flt W
        in (W', case kget (ws_clients W) i of
                  Some c \<Rightarrow> if kget (ws_clients W') i = None then ch_queue c else rest
                | None \<Rightarrow> rest))"

datatype manager_action =
    Broadcasts string "string option"
  | Connects string string
  | Subscribes string string
  | Takes string
  | Leaves string

fun others_act ::
  "(json \<Rightarrow> string) \<Rightarrow> (string \<Rightarrow> string option option) \<Rightarrow> server_config \<Rightarrow> string \<Rightarrow> manager_action
    \<Rightarrow> ws_manager \<times> string list \<Rightarrow> ws_manager \<times> string list" where
  "others_act ts fs cfg i (Broadcasts message flt) s = others_broadcast i message flt s"
| "others_act ts fs cfg i (Connects k ip) (W, rest) = (ws_connect cfg k ip W, rest)"
| "others_act ts fs cfg i (Subscribes k txt) (W, rest) = (handle_message ts fs k txt W, rest)"
| "others_act ts fs cfg i (Takes k) (W, rest) = (snd (ws_deliver k W), rest)"
| "others_act ts fs cfg i (Leaves k) (W, rest) = (ws_unregister k W, rest)"

fun elsewhere :: "string \<Rightarrow> manager_action \<Rightarrow> bool" where
  "elsewhere i (Broadcasts message flt) = True"
| "elsewhere i (Connects k ip) = (k \<noteq> i)"
| "elsewhere i (Subscribes k txt) = (k \<noteq> i)"
| "elsewhere i (Takes k) = (k \<noteq> i)"
| "elsewhere i (Leaves k) = (k \<noteq> i)"

text \<open>The whole connection: each event comes after what the others did since the last turn; the last turn is
  followed by the unregistration.\<close>

fun session_loop ::
  "(json \<Rightarrow> string) \<Rightarrow> (string \<Rightarrow> string option option) \<Rightarrow> server_config \<Rightarrow> string
    \<Rightarrow> (manager_action list \<times> session_event) list
    \<Rightarrow> ws_manager \<times> string list \<Rightarrow> frame list \<times> ws_manager \<times> bool" where
  "session_loop ts fs cfg i [] (W, rest) = ([], W, False)"
| "session_loop ts fs cfg i ((others, e) # es) (W, rest) =
     (let (W, rest) = fold (others_act ts fs cfg i) others (W, rest);
          r = session_turn ts fs i e W rest
      in if sr_continues r
         then let (out, W', ended) = session_loop ts fs cfg i es (sr_manager r, sr_rest r)
              in (sr_frames r @ out, W', ended)
         else (sr_frames r, ws_unregister i (sr_manager r), True))"

subsection \<open>Delivery\<close>

text \<open>The texts on their way to the peer, those a step adds, and those a whole connection is given.\<close>

definition pending :: "string \<Rightarrow> ws_manager \<times> string list \<Rightarrow> string list" where
  "pending i s = (case kget (ws_clients (fst s)) i of Some c \<Rightarrow> ch_queue c | None \<Rightarrow> snd s)"

definition added :: "string \<Rightarrow> ws_manager \<times> string list \<Rightarrow> ws_manager \<times> string list \<Rightarrow> string list" where
  "added i s s' = drop (length (pending i s)) (pending i s')"

fun is_outbound :: "session_event \<Rightarrow> bool" where
  "is_outbound (Outbound _) = True"
| "is_outbound _ = False"

fun given_texts ::
  "(json \<Rightarrow> string) \<Rightarrow> (string \<Rightarrow> string option option) \<Rightarrow> server_config \<Rightarrow> string
    \<Rightarrow> (manager_action list \<times> session_event) list \<Rightarrow> ws_manager \<times> string list \<Rightarrow> string list" where
  "given_texts ts fs cfg i [] s = []"
| "given_texts ts fs cfg i ((others, e) # es) s =
     (let s' = fold (others_act ts fs cfg i) others s; r = session_turn ts fs i e (fst s') (snd s');
          t = (sr_manager r, sr_rest r)
      in added i s s' @ (if is_outbound e then [] else added i s' t)
         @ (if sr_continues r then given_texts ts fs cfg i es t else []))"

definition sent_texts :: "frame list \<Rightarrow> string list" where
  "sent_texts fs = List.map_filter (\<lambda>f. case f of TextFrame t \<Rightarrow> Some t | _ \<Rightarrow> None) fs"

lemma sent_texts_simps [simp]:
  "sent_texts [] = []" "sent_texts (TextFrame t # fs) = t # sent_texts fs" "sent_texts (PingFrame d # fs) = sent_texts fs"
  "sent_texts (PongFrame d # fs) = sent_texts fs" "sent_texts (xs @ ys) = sent_texts xs @ sent_texts ys"
  by (simp_all add: sent_texts_def List.map_filter_def)

text \<open>Others only add texts to the channel, and keep the table in order.\<close>

definition appends :: "string \<Rightarrow> (ws_manager \<times> string list \<Rightarrow> ws_manager \<times> string list) \<Rightarrow> bool" where
  "appends i f \<longleftrightarrow> (\<forall>s. kwf (ws_clients (fst s)) \<longrightarrow>
     kwf (ws_clients (fst (f s))) \<and> prefix (pending i s) (pending i (f s)))"

lemma added_prefix: "prefix (pending i s) (pending i s') \<Longrightarrow> pending i s @ added i s s' = pending i s'"
  by (auto simp: added_def prefix_def)

lemma broadcast_appends: "appends i (others_broadcast i message flt)"
  by (auto simp: appends_def others_broadcast_def pending_def broadcast_wf broadcast_get offered_def try_send_def
      split: option.splits if_splits)

lemma message_pending:
  assumes "kwf (ws_clients W)"
  shows "prefix (pending i (W, rest)) (pending i (handle_message ts fs i txt W, rest))"
    "kwf (ws_clients (handle_message ts fs i txt W))"
  using assms
  by (auto simp: pending_def handle_message_def try_send_def Let_def store_simps kwf_kput split: option.splits sum.splits if_splits)

lemma appends_act: "elsewhere i a \<Longrightarrow> appends i (others_act ts fs cfg i a)"
  using broadcast_appends
  by (cases a) (auto simp: appends_def pending_def ws_connect_def ws_register_def handle_message_def ws_deliver_def
      ws_unregister_def Let_def store_simps kwf_kput km.wf_del split: option.splits list.splits)

lemma appends_all: "list_all (elsewhere i) as \<Longrightarrow> appends i (fold (others_act ts fs cfg i) as)"
proof (induction as)
  case (Cons a as)
  then have a: "appends i (others_act ts fs cfg i a)" and as: "appends i (fold (others_act ts fs cfg i) as)"
    using appends_act by simp_all
  show ?case unfolding appends_def
  proof (intro allI impI)
    fix s :: "ws_manager \<times> string list"
    assume "kwf (ws_clients (fst s))"
    then have "kwf (ws_clients (fst (others_act ts fs cfg i a s)))" "prefix (pending i s) (pending i (others_act ts fs cfg i a s))"
      using a unfolding appends_def by blast+
    with as show "kwf (ws_clients (fst (fold (others_act ts fs cfg i) (a # as) s))) \<and>
        prefix (pending i s) (pending i (fold (others_act ts fs cfg i) (a # as) s))"
      unfolding appends_def fold_Cons comp_apply by (blast intro: prefix_order.trans)
  qed
qed (simp add: appends_def)

text \<open>A turn: what was pending is what it sends and what is pending after it, but for the text whose sending
  failed.\<close>

lemma turn_pending:
  assumes "kwf (ws_clients W)" "r = session_turn ts fs i e W rest"
  shows "kwf (ws_clients (sr_manager r))"
    "sr_continues r \<Longrightarrow>
      pending i (W, rest) @ (if is_outbound e then [] else added i (W, rest) (sr_manager r, sr_rest r)) =
      sent_texts (sr_frames r) @ pending i (sr_manager r, sr_rest r)"
    "\<not> sr_continues r \<Longrightarrow> sent_texts (sr_frames r) = []"
proof -
  consider t where "e = FromPeer t" | "\<forall>t. e \<noteq> FromPeer t" by blast
  then have "kwf (ws_clients (sr_manager r)) \<and> (if sr_continues r then
      pending i (W, rest) @ (if is_outbound e then [] else added i (W, rest) (sr_manager r, sr_rest r)) =
      sent_texts (sr_frames r) @ pending i (sr_manager r, sr_rest r) else sent_texts (sr_frames r) = [])"
  proof cases
    case 1
    with message_pending [OF assms(1)] show ?thesis
      by (simp add: assms(2) session_turn_def turn_result_def added_prefix)
  next
    case 2
    with assms(1) show ?thesis
      by (auto simp: assms(2) session_turn_def turn_result_def recv_def ws_deliver_def pending_def added_def
          store_simps kwf_kput split: session_event.splits option.splits list.splits)
  qed
  then show "kwf (ws_clients (sr_manager r))"
    "sr_continues r \<Longrightarrow>
      pending i (W, rest) @ (if is_outbound e then [] else added i (W, rest) (sr_manager r, sr_rest r)) =
      sent_texts (sr_frames r) @ pending i (sr_manager r, sr_rest r)"
    "\<not> sr_continues r \<Longrightarrow> sent_texts (sr_frames r) = []"
    by (simp_all split: if_splits)
qed

text \<open>C16. A connection sends the texts that are queued for it in their order, none twice and none skipped,
  whatever broadcasts, other clients, the peer and the heartbeats do in between; texts that were queued before a
  broadcast dropped the client are still sent. When the connection has ended its client is off the
  table.\<close>

theorem connection_sends_in_order:
  assumes "\<forall>(others, e) \<in> set es. list_all (elsewhere i) others" and "kwf (ws_clients W)"
    and "session_loop ts fs cfg i es (W, rest) = (out, W', ended)"
  shows "prefix (sent_texts out) (pending i (W, rest) @ given_texts ts fs cfg i es (W, rest)) \<and>
    (ended \<longrightarrow> kget (ws_clients W') i = None)"
  using assms
proof (induction es arbitrary: W rest out)
  case (Cons oe es)
  obtain others e where oe: "oe = (others, e)" by (cases oe)
  let ?f = "fold (others_act ts fs cfg i) others"
  have others: "appends i ?f" using Cons.prems(1) by (simp add: oe appends_all)
  obtain V q where V: "?f (W, rest) = (V, q)" by (cases "?f (W, rest)")
  define r where "r = session_turn ts fs i e V q"
  have a: "kwf (ws_clients V)" "prefix (pending i (W, rest)) (pending i (V, q))"
    using others Cons.prems(2) V unfolding appends_def by (metis fst_conv)+
  from a(2) have p: "pending i (W, rest) @ added i (W, rest) (V, q) = pending i (V, q)" by (rule added_prefix)
  note t = turn_pending [OF a(1) r_def]
  show ?case
  proof (cases "sr_continues r")
    case True
    obtain out' where l: "session_loop ts fs cfg i es (sr_manager r, sr_rest r) = (out', W', ended)" "out = sr_frames r @ out'"
      using Cons.prems(3) True by (auto simp: oe V r_def [symmetric] Let_def split: prod.splits)
    have l': "prefix (sent_texts out') (pending i (sr_manager r, sr_rest r) @ given_texts ts fs cfg i es (sr_manager r, sr_rest r))"
      "ended \<longrightarrow> kget (ws_clients W') i = None"
      using Cons.IH [OF _ t(1) l(1)] Cons.prems(1) by auto
    let ?g = "given_texts ts fs cfg i es (sr_manager r, sr_rest r)"
      and ?m = "if is_outbound e then [] else added i (V, q) (sr_manager r, sr_rest r)"
    have "given_texts ts fs cfg i (oe # es) (W, rest) = added i (W, rest) (V, q) @ ?m @ ?g"
      using True by (simp add: oe V r_def [symmetric] Let_def)
    then have "pending i (W, rest) @ given_texts ts fs cfg i (oe # es) (W, rest) =
        ((pending i (W, rest) @ added i (W, rest) (V, q)) @ ?m) @ ?g" by (simp only: append_assoc)
    also have "\<dots> = (sent_texts (sr_frames r) @ pending i (sr_manager r, sr_rest r)) @ ?g"
      by (simp only: p t(2) [OF True])
    finally show ?thesis using l' by (simp add: l(2) del: given_texts.simps)
  next
    case False
    then show ?thesis using Cons.prems(3) t(1) t(3) [OF False]
      by (auto simp: oe V r_def [symmetric] Let_def store_simps)
  qed
qed simp

definition sample_session :: "(manager_action list \<times> session_event) list" where
  "sample_session =
     [([Connects ''k'' ''a'', Broadcasts ''one'' None], Heartbeat True), ([Broadcasts ''two'' None], Outbound True),
      ([Takes ''k''], PingFromPeer ''x''), ([Leaves ''k''], Outbound True), ([], CloseFromPeer)]"

theorem connection_sends_in_order_witness:
  "\<exists>out W'. session_loop (\<lambda>j. []) (\<lambda>t. None) default_server_config ''i'' sample_session
       (ws_connect default_server_config ''i'' ''a'' ws_new, []) = (out, W', True) \<and>
     sent_texts out = [''one'', ''two''] \<and> kget (ws_clients W') ''i'' = None"
proof -
  let ?W = "ws_connect default_server_config ''i'' ''a'' ws_new"
  have a: "\<forall>(others, e) \<in> set sample_session. list_all (elsewhere ''i'') others"
    by (simp add: sample_session_def)
  have w: "kwf (ws_clients ?W)"
    by (simp add: ws_connect_def ws_register_def ws_new_def kwf_def)
  obtain out W' where l: "session_loop (\<lambda>j. []) (\<lambda>t. None) default_server_config ''i'' sample_session (?W, []) = (out, W', True)"
      "sent_texts out = [''one'', ''two'']"
    by (simp add: sample_session_def ws_connect_def ws_register_def ws_new_def default_server_config_def
        others_broadcast_def broadcast_def skipped_def try_send_def session_turn_def turn_result_def recv_def
        ws_deliver_def ws_unregister_def kdel_def kget_def Let_def)
  from connection_sends_in_order [OF a w l(1)] l show ?thesis by blast
qed

text \<open>A turn is a step of the connection system, or leaves the table alone.\<close>

lemma session_turn_is_step:
  "sr_manager (session_turn ts fs i e W rest) = W \<or> ws_step K cfg (W, pend) (sr_manager (session_turn ts fs i e W rest), pend)"
  using ws_step.delivered [of K cfg W pend i] ws_step.subscribed [of K cfg W pend ts fs i]
  by (auto simp: session_turn_def turn_result_def recv_def split: session_event.split option.splits prod.splits list.splits received.splits)

end
