(* ===== verification/Schema.thy ===== *)
theory Schema
  imports User_Queries
begin

text \<open>
  The schema of the database, \<open>run_migrations\<close> of \<open>crates/storage/src/lib.rs\<close>: the statements as data and
  their effect on the catalog of the database. The script runs at every start of the server, over whatever
  an earlier version left; an error undoes it. The statement after it that drops a constraint may fail.
\<close>

datatype sql_type = Varchar nat | SqlText | SqlInteger | Bigint | Bigserial | DoublePrecision | Jsonb | SqlBoolean
  | Timestamptz | SqlDate

datatype sql_default = Literal string | Now

text \<open>A reference names the table, the column, and whether a deletion cascades.\<close>

record column =
  co_name :: string
  co_type :: sql_type
  co_not_null :: bool
  co_default :: "sql_default option"
  co_references :: "(string \<times> string \<times> bool) option"

definition col ::
  "string \<Rightarrow> sql_type \<Rightarrow> bool \<Rightarrow> sql_default option \<Rightarrow> (string \<times> string \<times> bool) option \<Rightarrow> column" where
  "col n ty nn d r = \<lparr>co_name = n, co_type = ty, co_not_null = nn, co_default = d, co_references = r\<rparr>"

record table =
  tb_columns :: "column list"
  tb_primary :: string
  tb_uniques :: "string list list"

record catalog =
  cat_tables :: "string \<Rightarrow> table option"
  cat_indexes :: "string \<Rightarrow> (string \<times> string list) option"

datatype ddl =
    CreateTable string table
  | AddColumn string column
  | CreateIndex string string "string list"
  | DropNotNull string string

datatype ddl_error = UndefinedTable string | UndefinedColumn string | InvalidForeignKey string

subsection \<open>Statements\<close>

definition column_names :: "table \<Rightarrow> string list" where "column_names t = map co_name (tb_columns t)"

text \<open>A column can be referenced when it alone is a key of its table.\<close>

definition referable :: "catalog \<Rightarrow> string \<times> string \<times> bool \<Rightarrow> bool" where
  "referable c r \<longleftrightarrow>
     (case r of (tab, column, _) \<Rightarrow>
       (case cat_tables c tab of None \<Rightarrow> False | Some t \<Rightarrow> tb_primary t = column \<or> [column] \<in> set (tb_uniques t)))"

definition references_of :: "table \<Rightarrow> (string \<times> string \<times> bool) list" where
  "references_of t = List.map_filter co_references (tb_columns t)"

definition drop_not_null :: "string \<Rightarrow> table \<Rightarrow> table" where
  "drop_not_null column t =
     t\<lparr>tb_columns := map (\<lambda>k. if co_name k = column then k\<lparr>co_not_null := False\<rparr> else k) (tb_columns t)\<rparr>"

fun exec :: "ddl \<Rightarrow> catalog \<Rightarrow> ddl_error + catalog" where
  "exec (CreateTable n t) c =
     (if cat_tables c n \<noteq> None then Inr c
      else if list_all (referable c) (references_of t) then Inr (c\<lparr>cat_tables := (cat_tables c)(n \<mapsto> t)\<rparr>)
      else Inl (InvalidForeignKey n))"
| "exec (AddColumn n k) c =
     (case cat_tables c n of
        None \<Rightarrow> Inl (UndefinedTable n)
      | Some t \<Rightarrow>
          if co_name k \<in> set (column_names t) then Inr c
          else Inr (c\<lparr>cat_tables := (cat_tables c)(n \<mapsto> t\<lparr>tb_columns := tb_columns t @ [k]\<rparr>)\<rparr>))"
| "exec (CreateIndex i n ks) c =
     (if cat_indexes c i \<noteq> None then Inr c
      else case cat_tables c n of
             None \<Rightarrow> Inl (UndefinedTable n)
           | Some t \<Rightarrow>
               if set ks \<subseteq> set (column_names t) then Inr (c\<lparr>cat_indexes := (cat_indexes c)(i \<mapsto> (n, ks))\<rparr>)
               else Inl (UndefinedColumn n))"
| "exec (DropNotNull n column) c =
     (case cat_tables c n of
        None \<Rightarrow> Inl (UndefinedTable n)
      | Some t \<Rightarrow>
          if column \<in> set (column_names t) then Inr (c\<lparr>cat_tables := (cat_tables c)(n \<mapsto> drop_not_null column t)\<rparr>)
          else Inl (UndefinedColumn n))"

fun run_script :: "ddl list \<Rightarrow> catalog \<Rightarrow> ddl_error + catalog" where
  "run_script [] c = Inr c"
| "run_script (s # ss) c = (case exec s c of Inl e \<Rightarrow> Inl e | Inr c' \<Rightarrow> run_script ss c')"

subsection \<open>The script\<close>

definition node_info_table :: table where
  "node_info_table =
     \<lparr>tb_columns =
        [col ''node_id'' (Varchar 255) True None None,
         col ''hostname'' (Varchar 255) True None None,
         col ''ip_address'' (Varchar 45) True None None,
         col ''agent_version'' (Varchar 50) False None None,
         col ''os_info'' SqlText False None None,
         col ''kernel_version'' (Varchar 100) False None None,
         col ''cpu_model'' (Varchar 255) False None None,
         col ''cpu_cores'' SqlInteger True (Some (Literal ''0'')) None,
         col ''memory_total_bytes'' Bigint True (Some (Literal ''0'')) None,
         col ''agent_platform'' (Varchar 100) False None None,
         col ''registered_at'' Timestamptz True (Some Now) None,
         col ''last_seen'' Timestamptz True (Some Now) None,
         col ''labels'' Jsonb False (Some (Literal ''{}'')) None,
         col ''gpu_count'' SqlInteger True (Some (Literal ''0'')) None],
      tb_primary = ''node_id'', tb_uniques = []\<rparr>"

definition node_metrics_table :: table where
  "node_metrics_table =
     \<lparr>tb_columns =
        [col ''id'' Bigserial True None None,
         col ''node_id'' (Varchar 255) True None (Some (''node_info'', ''node_id'', False)),
         col ''sequence'' Bigint True None None,
         col ''timestamp_ms'' Bigint True None None,
         col ''monotonic_clock_ms'' Bigint False None None,
         col ''cpu_usage_percent'' DoublePrecision False None None,
         col ''load_1'' DoublePrecision False None None,
         col ''load_5'' DoublePrecision False None None,
         col ''load_15'' DoublePrecision False None None,
         col ''memory_total_bytes'' Bigint False None None,
         col ''memory_used_bytes'' Bigint False None None,
         col ''swap_total_bytes'' Bigint False None None,
         col ''swap_used_bytes'' Bigint False None None,
         col ''uptime_seconds'' Bigint False None None,
         col ''boot_time_seconds'' Bigint False None None,
         col ''gpu_metrics'' Jsonb False None None,
         col ''gpu_processes'' Jsonb False None None,
         col ''network_metrics'' Jsonb False None None,
         col ''disk_metrics'' Jsonb False None None,
         col ''cpu_core_metrics'' Jsonb False None None,
         col ''cpu_processes'' Jsonb False None None,
         col ''created_at'' Timestamptz True (Some Now) None],
      tb_primary = ''id'', tb_uniques = []\<rparr>"

definition metrics_hourly_table :: table where
  "metrics_hourly_table =
     \<lparr>tb_columns =
        [col ''id'' Bigserial True None None,
         col ''node_id'' (Varchar 255) True None (Some (''node_info'', ''node_id'', False)),
         col ''metric_name'' (Varchar 255) True None None,
         col ''hour_bucket'' Timestamptz True None None,
         col ''avg_value'' DoublePrecision False None None,
         col ''max_value'' DoublePrecision False None None,
         col ''min_value'' DoublePrecision False None None,
         col ''p95_value'' DoublePrecision False None None,
         col ''sample_count'' Bigint True (Some (Literal ''0'')) None,
         col ''created_at'' Timestamptz True (Some Now) None],
      tb_primary = ''id'', tb_uniques = [[''node_id'', ''metric_name'', ''hour_bucket'']]\<rparr>"

definition metrics_daily_table :: table where
  "metrics_daily_table =
     \<lparr>tb_columns =
        [col ''id'' Bigserial True None None,
         col ''node_id'' (Varchar 255) True None (Some (''node_info'', ''node_id'', False)),
         col ''metric_name'' (Varchar 255) True None None,
         col ''day_bucket'' SqlDate True None None,
         col ''avg_value'' DoublePrecision False None None,
         col ''max_value'' DoublePrecision False None None,
         col ''min_value'' DoublePrecision False None None,
         col ''p95_value'' DoublePrecision False None None,
         col ''sample_count'' Bigint True (Some (Literal ''0'')) None,
         col ''created_at'' Timestamptz True (Some Now) None],
      tb_primary = ''id'', tb_uniques = [[''node_id'', ''metric_name'', ''day_bucket'']]\<rparr>"

definition jobs_table :: table where
  "jobs_table =
     \<lparr>tb_columns =
        [col ''job_id'' (Varchar 255) True None None,
         col ''node_id'' (Varchar 255) True None (Some (''node_info'', ''node_id'', False)),
         col ''name'' (Varchar 255) True None None,
         col ''executable'' SqlText True None None,
         col ''arguments'' Jsonb True (Some (Literal ''[]'')) None,
         col ''working_directory'' SqlText True (Some (Literal ''/'')) None,
         col ''environment'' Jsonb True (Some (Literal ''{}'')) None,
         col ''status'' (Varchar 50) True (Some (Literal ''queued'')) None,
         col ''pid'' SqlInteger False None None,
         col ''exit_code'' SqlInteger False None None,
         col ''error_message'' SqlText False None None,
         col ''created_at'' Timestamptz True (Some Now) None,
         col ''started_at'' Timestamptz False None None,
         col ''finished_at'' Timestamptz False None None,
         col ''created_by'' (Varchar 255) True None None,
         col ''resource_quota'' SqlText False None None,
         col ''retry_count'' SqlInteger True (Some (Literal ''0'')) None,
         col ''max_retries'' SqlInteger True (Some (Literal ''0'')) None],
      tb_primary = ''job_id'', tb_uniques = []\<rparr>"

definition job_logs_table :: table where
  "job_logs_table =
     \<lparr>tb_columns =
        [col ''id'' Bigserial True None None,
         col ''job_id'' (Varchar 255) True None (Some (''jobs'', ''job_id'', True)),
         col ''log_offset'' Bigint True None None,
         col ''log_data'' SqlText True None None,
         col ''is_stderr'' SqlBoolean True (Some (Literal ''false'')) None,
         col ''timestamp'' Timestamptz True (Some Now) None,
         col ''created_at'' Timestamptz True (Some Now) None],
      tb_primary = ''id'', tb_uniques = [[''job_id'', ''log_offset'']]\<rparr>"

definition alert_rules_table :: table where
  "alert_rules_table =
     \<lparr>tb_columns =
        [col ''rule_id'' (Varchar 255) True None None,
         col ''name'' (Varchar 255) True None None,
         col ''description'' SqlText False None None,
         col ''metric'' (Varchar 255) True None None,
         col ''operator'' (Varchar 20) True None None,
         col ''threshold'' DoublePrecision True None None,
         col ''duration_seconds'' SqlInteger True (Some (Literal ''30'')) None,
         col ''severity'' (Varchar 20) True (Some (Literal ''warning'')) None,
         col ''node_id'' (Varchar 255) True (Some (Literal [])) None,
         col ''gpu_uuids'' Jsonb True (Some (Literal ''[]'')) None,
         col ''labels'' Jsonb False (Some (Literal ''{}'')) None,
         col ''enabled'' SqlBoolean True (Some (Literal ''true'')) None,
         col ''created_at'' Timestamptz True (Some Now) None,
         col ''updated_at'' Timestamptz True (Some Now) None,
         col ''created_by'' (Varchar 255) True (Some (Literal ''system'')) None],
      tb_primary = ''rule_id'', tb_uniques = []\<rparr>"

definition alert_events_table :: table where
  "alert_events_table =
     \<lparr>tb_columns =
        [col ''event_id'' (Varchar 255) True None None,
         col ''rule_id'' (Varchar 255) True None (Some (''alert_rules'', ''rule_id'', False)),
         col ''node_id'' (Varchar 255) True None None,
         col ''gpu_uuid'' (Varchar 255) True (Some (Literal [])) None,
         col ''old_state'' (Varchar 20) False None None,
         col ''new_state'' (Varchar 20) True None None,
         col ''current_value'' DoublePrecision False None None,
         col ''threshold'' DoublePrecision True None None,
         col ''notification_sent'' (Varchar 255) False None None,
         col ''timestamp'' Timestamptz True (Some Now) None],
      tb_primary = ''event_id'', tb_uniques = []\<rparr>"

definition users_table :: table where
  "users_table =
     \<lparr>tb_columns =
        [col ''user_id'' (Varchar 255) True None None,
         col ''username'' (Varchar 100) True None None,
         col ''email'' (Varchar 255) False None None,
         col ''role'' (Varchar 20) True (Some (Literal ''viewer'')) None,
         col ''password_hash'' SqlText True None None,
         col ''enabled'' SqlBoolean True (Some (Literal ''true'')) None,
         col ''created_at'' Timestamptz True (Some Now) None,
         col ''last_login_at'' Timestamptz False None None,
         col ''failed_login_attempts'' SqlInteger True (Some (Literal ''0'')) None,
         col ''locked_until'' Timestamptz False None None],
      tb_primary = ''user_id'', tb_uniques = [[''username'']]\<rparr>"

definition refresh_tokens_table :: table where
  "refresh_tokens_table =
     \<lparr>tb_columns =
        [col ''token'' (Varchar 255) True None None,
         col ''user_id'' (Varchar 255) True None (Some (''users'', ''user_id'', False)),
         col ''expires_at'' Timestamptz True None None,
         col ''created_at'' Timestamptz True (Some Now) None,
         col ''revoked'' SqlBoolean True (Some (Literal ''false'')) None],
      tb_primary = ''token'', tb_uniques = []\<rparr>"

definition audit_logs_table :: table where
  "audit_logs_table =
     \<lparr>tb_columns =
        [col ''log_id'' (Varchar 255) True None None,
         col ''username'' (Varchar 255) True None None,
         col ''action'' (Varchar 255) True None None,
         col ''target'' (Varchar 255) False None None,
         col ''target_type'' (Varchar 50) False None None,
         col ''details'' SqlText False None None,
         col ''result'' (Varchar 50) True None None,
         col ''source_ip'' (Varchar 45) False None None,
         col ''timestamp'' Timestamptz True (Some Now) None],
      tb_primary = ''log_id'', tb_uniques = []\<rparr>"

definition schema_script :: "ddl list" where
  "schema_script =
     [CreateTable ''node_info'' node_info_table,
      CreateTable ''node_metrics'' node_metrics_table,
      AddColumn ''node_metrics'' (col ''cpu_processes'' Jsonb False None None),
      CreateIndex ''idx_node_metrics_node_time'' ''node_metrics'' [''node_id'', ''timestamp_ms''],
      CreateIndex ''idx_node_metrics_timestamp'' ''node_metrics'' [''timestamp_ms''],
      CreateTable ''metrics_hourly'' metrics_hourly_table,
      CreateIndex ''idx_metrics_hourly_lookup'' ''metrics_hourly'' [''node_id'', ''metric_name'', ''hour_bucket''],
      CreateTable ''metrics_daily'' metrics_daily_table,
      CreateIndex ''idx_metrics_daily_lookup'' ''metrics_daily'' [''node_id'', ''metric_name'', ''day_bucket''],
      CreateTable ''jobs'' jobs_table,
      CreateIndex ''idx_jobs_node'' ''jobs'' [''node_id''],
      CreateIndex ''idx_jobs_status'' ''jobs'' [''status''],
      CreateIndex ''idx_jobs_created_at'' ''jobs'' [''created_at''],
      CreateTable ''job_logs'' job_logs_table,
      CreateIndex ''idx_job_logs_job_offset'' ''job_logs'' [''job_id'', ''log_offset''],
      CreateTable ''alert_rules'' alert_rules_table,
      CreateTable ''alert_events'' alert_events_table,
      CreateIndex ''idx_alert_events_rule'' ''alert_events'' [''rule_id''],
      CreateIndex ''idx_alert_events_node'' ''alert_events'' [''node_id''],
      CreateIndex ''idx_alert_events_timestamp'' ''alert_events'' [''timestamp''],
      CreateTable ''users'' users_table,
      CreateTable ''refresh_tokens'' refresh_tokens_table,
      CreateIndex ''idx_refresh_tokens_user'' ''refresh_tokens'' [''user_id''],
      CreateTable ''audit_logs'' audit_logs_table,
      CreateIndex ''idx_audit_logs_user'' ''audit_logs'' [''username''],
      CreateIndex ''idx_audit_logs_action'' ''audit_logs'' [''action''],
      CreateIndex ''idx_audit_logs_timestamp'' ''audit_logs'' [''timestamp'']]"

definition migrate :: "catalog \<Rightarrow> ddl_error + catalog" where
  "migrate c =
     (case run_script schema_script c of
        Inl e \<Rightarrow> Inl e
      | Inr c' \<Rightarrow> (case exec (DropNotNull ''jobs'' ''node_id'') c' of Inl _ \<Rightarrow> Inr c' | Inr d \<Rightarrow> Inr d))"

subsection \<open>Running it again\<close>

text \<open>What a statement of the script has established once it has run; no later statement undoes it, and where it
  holds the statement does nothing.\<close>

fun settled :: "ddl \<Rightarrow> catalog \<Rightarrow> bool" where
  "settled (CreateTable n t) c \<longleftrightarrow> cat_tables c n \<noteq> None"
| "settled (AddColumn n k) c \<longleftrightarrow> (\<exists>t. cat_tables c n = Some t \<and> co_name k \<in> set (column_names t))"
| "settled (CreateIndex i n ks) c \<longleftrightarrow> cat_indexes c i \<noteq> None"
| "settled (DropNotNull n column) c \<longleftrightarrow> (\<exists>t. cat_tables c n = Some t \<and> column \<in> set (column_names t) \<and> drop_not_null column t = t)"

definition idempotent_form :: "ddl \<Rightarrow> bool" where
  "idempotent_form s \<longleftrightarrow> (case s of DropNotNull _ _ \<Rightarrow> False | _ \<Rightarrow> True)"

lemma names_drop [simp]: "column_names (drop_not_null k t) = column_names t"
  by (simp add: column_names_def drop_not_null_def comp_def if_distrib cong: if_cong)

lemma names_add [simp]: "column_names (t\<lparr>tb_columns := tb_columns t @ [k]\<rparr>) = column_names t @ [co_name k]"
  by (simp add: column_names_def)

lemma exec_settles: "exec s c = Inr c' \<Longrightarrow> idempotent_form s \<Longrightarrow> settled s c'"
  by (cases s) (auto simp: idempotent_form_def split: if_splits option.splits)

lemma exec_keeps: "exec s c = Inr c' \<Longrightarrow> idempotent_form q \<Longrightarrow> settled q c \<Longrightarrow> settled q c'"
  by (cases s; cases q) (auto simp: idempotent_form_def split: if_splits option.splits)

lemma exec_again: "settled s c \<Longrightarrow> exec s c = Inr c"
  by (cases s) (auto simp: fun_upd_idem)

lemma run_keeps:
  "run_script ss c = Inr c' \<Longrightarrow> idempotent_form q \<Longrightarrow> settled q c \<Longrightarrow> settled q c'"
  by (induction ss arbitrary: c) (auto split: sum.splits intro: exec_keeps)

lemma run_settles:
  "run_script ss c = Inr c' \<Longrightarrow> list_all idempotent_form ss \<Longrightarrow> list_all (\<lambda>s. settled s c') ss"
  by (induction ss arbitrary: c) (auto split: sum.splits intro: run_keeps exec_settles)

lemma run_again: "list_all (\<lambda>s. settled s c) ss \<Longrightarrow> run_script ss c = Inr c"
  by (induction ss) (simp_all add: exec_again)

lemma schema_form: "list_all idempotent_form schema_script"
  by (simp add: schema_script_def idempotent_form_def)

lemma drop_twice: "drop_not_null k (drop_not_null k t) = drop_not_null k t"
  by (simp add: drop_not_null_def)

text \<open>The migration can run at every start: whatever database it has once succeeded on, running it again succeeds and
  changes nothing.\<close>

lemma migrations_idempotent:
  assumes "migrate c = Inr d"
  shows "migrate d = Inr d"
proof -
  obtain c' where run: "run_script schema_script c = Inr c'"
    using assms by (auto simp: migrate_def split: sum.splits)
  have set': "list_all (\<lambda>s. settled s c') schema_script" using run_settles [OF run schema_form] .
  show ?thesis
  proof (cases "exec (DropNotNull ''jobs'' ''node_id'') c'")
    case (Inl e)
    then have "d = c'" using assms run by (simp add: migrate_def)
    then show ?thesis using run_again [OF set'] Inl by (simp add: migrate_def)
  next
    case (Inr d')
    then have d: "d = d'" using assms run by (simp add: migrate_def)
    have "list_all (\<lambda>s. settled s d) schema_script"
      using set' schema_form exec_keeps [OF Inr] by (auto simp: list_all_iff d)
    moreover have "exec (DropNotNull ''jobs'' ''node_id'') d = Inr d"
      using Inr by (auto simp: d drop_twice split: option.splits if_splits)
    ultimately show ?thesis using run_again by (simp add: migrate_def)
  qed
qed

text \<open>On an empty database it succeeds: every reference names a key of a table created before, every index the
  columns of its table. Afterwards a job needs no node.\<close>

definition empty_catalog :: catalog where
  "empty_catalog = \<lparr>cat_tables = Map.empty, cat_indexes = Map.empty\<rparr>"

lemmas table_defs = node_info_table_def node_metrics_table_def metrics_hourly_table_def metrics_daily_table_def jobs_table_def
  job_logs_table_def alert_rules_table_def alert_events_table_def users_table_def refresh_tokens_table_def audit_logs_table_def

lemma table_references [simp]:
  "references_of node_info_table = []" "references_of node_metrics_table = [(''node_info'', ''node_id'', False)]"
  "references_of metrics_hourly_table = [(''node_info'', ''node_id'', False)]"
  "references_of metrics_daily_table = [(''node_info'', ''node_id'', False)]"
  "references_of jobs_table = [(''node_info'', ''node_id'', False)]"
  "references_of job_logs_table = [(''jobs'', ''job_id'', True)]" "references_of alert_rules_table = []"
  "references_of alert_events_table = [(''alert_rules'', ''rule_id'', False)]" "references_of users_table = []"
  "references_of refresh_tokens_table = [(''users'', ''user_id'', False)]" "references_of audit_logs_table = []"
  by (simp_all add: references_of_def List.map_filter_simps table_defs col_def)

lemma table_keys [simp]:
  "tb_primary node_info_table = ''node_id''" "tb_primary jobs_table = ''job_id''" "tb_primary alert_rules_table = ''rule_id''"
  "tb_primary users_table = ''user_id''"
  by (simp_all add: table_defs)

lemma table_names:
  "column_names node_metrics_table =
     [''id'', ''node_id'', ''sequence'', ''timestamp_ms'', ''monotonic_clock_ms'', ''cpu_usage_percent'',
      ''load_1'', ''load_5'', ''load_15'', ''memory_total_bytes'', ''memory_used_bytes'',
      ''swap_total_bytes'', ''swap_used_bytes'', ''uptime_seconds'', ''boot_time_seconds'',
      ''gpu_metrics'', ''gpu_processes'', ''network_metrics'', ''disk_metrics'', ''cpu_core_metrics'',
      ''cpu_processes'', ''created_at'']"
  "column_names metrics_hourly_table =
     [''id'', ''node_id'', ''metric_name'', ''hour_bucket'', ''avg_value'', ''max_value'', ''min_value'',
      ''p95_value'', ''sample_count'', ''created_at'']"
  "column_names metrics_daily_table =
     [''id'', ''node_id'', ''metric_name'', ''day_bucket'', ''avg_value'', ''max_value'', ''min_value'',
      ''p95_value'', ''sample_count'', ''created_at'']"
  "column_names jobs_table =
     [''job_id'', ''node_id'', ''name'', ''executable'', ''arguments'', ''working_directory'',
      ''environment'', ''status'', ''pid'', ''exit_code'', ''error_message'', ''created_at'',
      ''started_at'', ''finished_at'', ''created_by'', ''resource_quota'', ''retry_count'',
      ''max_retries'']"
  "column_names job_logs_table =
     [''id'', ''job_id'', ''log_offset'', ''log_data'', ''is_stderr'', ''timestamp'', ''created_at'']"
  "column_names alert_events_table =
     [''event_id'', ''rule_id'', ''node_id'', ''gpu_uuid'', ''old_state'', ''new_state'',
      ''current_value'', ''threshold'', ''notification_sent'', ''timestamp'']"
  "column_names refresh_tokens_table =
     [''token'', ''user_id'', ''expires_at'', ''created_at'', ''revoked'']"
  "column_names audit_logs_table =
     [''log_id'', ''username'', ''action'', ''target'', ''target_type'', ''details'', ''result'',
      ''source_ip'', ''timestamp'']"
  by (simp_all add: column_names_def table_defs col_def)

lemma migrate_fresh:
  "\<exists>d. migrate empty_catalog = Inr d \<and> cat_tables d ''jobs'' = Some (drop_not_null ''node_id'' jobs_table)"
  by (simp add: migrate_def schema_script_def empty_catalog_def referable_def col_def table_names)

end
