(* ===== verification/Api_Handlers.thy ===== *)
theory Api_Handlers
  imports Job_Handlers
begin

text \<open>
  The read-only endpoints of \<open>crates/server/src/handlers.rs\<close>: nodes, metrics and their history across the
  retention tiers, job logs, the cluster summary, the audit log and the Prometheus gauges. The RFC 3339
  text of a time and the text format of Prometheus are arguments.
\<close>

subsection \<open>Nodes\<close>

fun node_status_text :: "node_status \<Rightarrow> string" where
  "node_status_text Online = ''online''"
| "node_status_text Degraded = ''degraded''"
| "node_status_text Offline = ''offline''"

definition node_json :: "(time \<Rightarrow> string) \<Rightarrow> node_entry \<Rightarrow> json" where
  "node_json rfc3339 n = json_obj
     [(''node_id'', JStr (ne_node_id n)), (''hostname'', JStr (ne_hostname n)),
      (''ip_address'', JStr (ne_ip_address n)), (''status'', JStr (node_status_text (ne_status n))),
      (''last_seen'', JStr (rfc3339 (ne_last_seen n))), (''gpu_count'', json_word (ne_gpu_count n)),
      (''labels'', JObj (map (\<lambda>(k, v). (k, JStr v)) (ne_labels n)))]"

definition list_nodes :: "(time \<Rightarrow> string) \<Rightarrow> app_state \<Rightarrow> json list" where
  "list_nodes rfc3339 st = map (node_json rfc3339) (registry_list (st_registry st))"

definition get_node_status :: "(time \<Rightarrow> string) \<Rightarrow> string \<Rightarrow> app_state \<Rightarrow> json reply" where
  "get_node_status rfc3339 node_id st =
     (case registry_get node_id (st_registry st) of
        None \<Rightarrow> Err NotFound404
      | Some n \<Rightarrow> Ok (json_obj
          [(''node_id'', JStr (ne_node_id n)), (''status'', JStr (node_status_text (ne_status n))),
           (''last_seen'', JStr (rfc3339 (ne_last_seen n)))]))"

text \<open>\<open>None\<close> is the empty object.\<close>

definition get_node_metrics :: "env \<Rightarrow> string \<Rightarrow> app_state \<Rightarrow> node_metrics_row option reply" where
  "get_node_metrics E node_id st =
     (if e_fault E ''get_latest_metrics'' then Err Internal500 else Ok (get_latest_metrics node_id (st_metrics st)))"

subsection \<open>History\<close>

type_synonym tier_range = "(int \<times> int) option"

definition RAW_RETENTION_MS :: int where "RAW_RETENTION_MS = 24 * 3600 * 1000"
definition HOURLY_RETENTION_MS :: int where "HOURLY_RETENTION_MS = 7 * 24 * 3600 * 1000"

definition history_tiers :: "int \<Rightarrow> int \<Rightarrow> int \<Rightarrow> tier_range \<times> tier_range \<times> tier_range" where
  "history_tiers start_ms end_ms now_ms =
     (let raw_cutoff = now_ms - RAW_RETENTION_MS;
          hourly_cutoff = now_ms - HOURLY_RETENTION_MS;
          raw = (if raw_cutoff \<le> end_ms then Some (max start_ms raw_cutoff, end_ms) else None);
          hourly = (if start_ms < raw_cutoff \<and> hourly_cutoff < end_ms
                    then Some (max start_ms hourly_cutoff, min end_ms (raw_cutoff - 1)) else None);
          daily = (if start_ms < hourly_cutoff then Some (start_ms, min end_ms (hourly_cutoff - 1)) else None)
      in (raw, hourly, daily))"

text \<open>A row of the answer: a raw report, or the value of one bucket under the key of the raw reports.\<close>

datatype history_row =
    RawRow node_metrics_row
  | BucketRow (bucket_node: string) (bucket_ms: int) (bucket_key: string) (bucket_value: f64) (bucket_source: string)

fun history_ms :: "history_row \<Rightarrow> int" where
  "history_ms (RawRow r) = nm_timestamp_ms r"
| "history_ms (BucketRow n t k v s) = t"

definition bucket_metric_key :: "string \<Rightarrow> string option" where
  "bucket_metric_key metric =
     (if metric = ''cpu_usage_percent'' then Some ''cpu_usage_percent''
      else if metric = ''memory_used_percent'' then Some ''memory_usage_percent''
      else if metric = ''gpu_utilization'' then Some ''gpu_utilization_percent'' else None)"

definition aggregate_rows_to_json :: "string \<Rightarrow> (time \<times> string \<times> f64) list \<Rightarrow> string \<Rightarrow> history_row list" where
  "aggregate_rows_to_json node_id buckets source =
     List.map_filter (\<lambda>(bucket, metric, avg).
       map_option (\<lambda>key. BucketRow node_id (timestamp_millis bucket) key avg source) (bucket_metric_key metric)) buckets"

definition raw_rows :: "env \<Rightarrow> string \<Rightarrow> tier_range \<Rightarrow> app_state \<Rightarrow> history_row list" where
  "raw_rows E node_id rng st =
     (case rng of
        None \<Rightarrow> []
      | Some (a, b) \<Rightarrow>
          if e_fault E ''get_metrics_history'' then []
          else case get_metrics_history node_id a b 10000 (st_metrics st) of
                 Inl _ \<Rightarrow> [] | Inr rs \<Rightarrow> map RawRow rs)"

definition bucket_rows :: "env \<Rightarrow> string \<Rightarrow> tier_range \<Rightarrow> bool \<Rightarrow> app_state \<Rightarrow> history_row list" where
  "bucket_rows E node_id rng hourly st =
     (case rng of
        None \<Rightarrow> []
      | Some (a, b) \<Rightarrow>
          if e_fault E (if hourly then ''get_hourly'' else ''get_daily'') then []
          else case get_aggregated_history node_id a b hourly (st_hourly st) (st_daily st) of
                 Inl _ \<Rightarrow> []
               | Inr bs \<Rightarrow> aggregate_rows_to_json node_id bs (if hourly then ''hourly'' else ''daily''))"

definition get_metrics_history_handler :: "env \<Rightarrow> params \<Rightarrow> app_state \<Rightarrow> history_row list reply" where
  "get_metrics_history_handler E ps st =
     (case kget ps ''node_id'' of
        None \<Rightarrow> Err BadRequest400
      | Some node_id \<Rightarrow>
     if node_id = [] then Err BadRequest400 else
     (case Option.bind (kget ps ''start_time_ms'') parse_i64 of
        None \<Rightarrow> Err BadRequest400
      | Some start_time \<Rightarrow>
     (case Option.bind (kget ps ''end_time_ms'') parse_i64 of
        None \<Rightarrow> Err BadRequest400
      | Some end_time \<Rightarrow>
          let (raw, hourly, daily) = history_tiers start_time end_time (timestamp_millis (e_now E))
          in Ok (sort_key history_ms
               (raw_rows E node_id raw st @ bucket_rows E node_id hourly True st
                @ bucket_rows E node_id daily False st)))))"

subsection \<open>Logs, cluster and audit\<close>

definition get_job_logs_handler :: "env \<Rightarrow> string \<Rightarrow> params \<Rightarrow> app_state \<Rightarrow> job_log_row list reply" where
  "get_job_logs_handler E jid ps st =
     (let offset = max (case Option.bind (kget ps ''offset'') parse_i64 of Some n \<Rightarrow> n | None \<Rightarrow> 0) 0;
          limit = int_param ''limit'' 100 1 1000 ps
      in if e_fault E ''get_job_logs'' then Err Internal500
         else case get_job_logs jid offset limit False (st_logs st) of Inl _ \<Rightarrow> Err Internal500 | Inr rs \<Rightarrow> Ok rs)"

record cluster_info =
  ci_total_nodes :: nat
  ci_online_nodes :: nat
  ci_degraded_nodes :: nat
  ci_offline_nodes :: nat
  ci_total_gpus :: u32
  ci_idle_gpus :: "int option"
  ci_avg_gpu_utilization :: "f64 option"
  ci_running_jobs :: nat
  ci_active_alerts :: nat

text \<open>\<open>f64::round\<close>, half away from zero.\<close>

definition f64_round :: "f64 \<Rightarrow> f64" where
  "f64_round x =
     (case x of Fin r \<Rightarrow> Fin (of_int (if 0 \<le> r then \<lfloor>r + 1 / 2\<rfloor> else - \<lfloor>- r + 1 / 2\<rfloor>)) | _ \<Rightarrow> x)"

definition count_status :: "node_status \<Rightarrow> node_entry list \<Rightarrow> nat" where
  "count_status s ns = length (filter (\<lambda>n. ne_status n = s) ns)"

definition get_cluster_info :: "postgres \<Rightarrow> env \<Rightarrow> app_state \<Rightarrow> cluster_info" where
  "get_cluster_info P E st =
     (let nodes = registry_list (st_registry st);
          summary = (if e_fault E ''gpu_summary'' then None
            else case get_gpu_utilization_summary P (st_metrics st) of Inl _ \<Rightarrow> None | Inr s \<Rightarrow> s)
      in \<lparr>ci_total_nodes = length nodes, ci_online_nodes = count_status Online nodes,
          ci_degraded_nodes = count_status Degraded nodes, ci_offline_nodes = count_status Offline nodes,
          ci_total_gpus = sum_list (map ne_gpu_count nodes),
          ci_idle_gpus = map_option (\<lambda>(avg, busy, cap). max (cap - busy) 0) summary,
          ci_avg_gpu_utilization =
            map_option (\<lambda>(avg, busy, cap). f64_div_fin (f64_round (f64_mul avg (Fin 10))) 10) summary,
          ci_running_jobs =
            (if e_fault E ''list_jobs'' then 0
             else case list_jobs (\<not> e_fault E ''count_jobs'') None (Some ''running'') None 0 1 (st_jobs st) of
                    Inl _ \<Rightarrow> 0 | Inr (_, n) \<Rightarrow> n),
          ci_active_alerts =
            (if e_fault E ''get_active_alert_events'' then 0 else length (get_active_alert_events (st_alerts st)))\<rparr>)"

text \<open>A time stamp in the query is absent, valid, or an error of the client.\<close>

definition time_param :: "string \<Rightarrow> params \<Rightarrow> time option option" where
  "time_param key ps =
     (case kget ps key of
        None \<Rightarrow> Some None
      | Some s \<Rightarrow> map_option Some (Option.bind (parse_i64 s) from_timestamp_millis))"

definition list_audit_logs_handler :: "env \<Rightarrow> params \<Rightarrow> app_state \<Rightarrow> (audit_log_row list \<times> nat) reply" where
  "list_audit_logs_handler E ps st =
     (case time_param ''start_time_ms'' ps of
        None \<Rightarrow> Err BadRequest400
      | Some start_time \<Rightarrow>
     (case time_param ''end_time_ms'' ps of
        None \<Rightarrow> Err BadRequest400
      | Some end_time \<Rightarrow>
          if e_fault E ''list_audit_logs'' then Err Internal500
          else case list_audit_logs (kget ps ''user'') (kget ps ''action'') start_time end_time
                      (int_param ''page'' 0 0 1000000 ps) (int_param ''page_size'' 50 1 500 ps) (st_audit st) of
                 Inl _ \<Rightarrow> Err Internal500
               | Inr r \<Rightarrow> Ok r))"

text \<open>The gauges, each with its name and its description; \<open>encode\<close> is the text encoder of the
  \<open>prometheus_client\<close> crate.\<close>

definition cluster_gauges :: "app_state \<Rightarrow> (string \<times> string \<times> int) list" where
  "cluster_gauges st =
     [(''nodes_total'', ''Total number of registered nodes (any status)'',
       int (length (registry_list (st_registry st)))),
      (''nodes_online'', ''Nodes currently online'', int (length (list_online (st_registry st))))]"

definition render_prometheus_metrics ::
  "((string \<times> string \<times> int) list \<Rightarrow> string) \<Rightarrow> app_state \<Rightarrow> string" where
  "render_prometheus_metrics encode st = encode (cluster_gauges st)"

subsection \<open>Tiers\<close>

definition covers :: "tier_range \<Rightarrow> int \<Rightarrow> bool" where
  "covers rng t \<longleftrightarrow> (case rng of Some (a, b) \<Rightarrow> a \<le> t \<and> t \<le> b | None \<Rightarrow> False)"

text \<open>The retention tiers. An instant is covered by at most one tier, and by none outside the requested
  range. Inside the range it is covered by the raw tier in the last day, by the hourly tier up to seven days,
  by the daily tier before, with one exception: the instant exactly seven days ago is lost when
  the range ends there.\<close>

lemma history_tiers_partition:
  "case history_tiers a b now of (raw, hourly, daily) \<Rightarrow>
     (covers raw t \<longleftrightarrow> a \<le> t \<and> t \<le> b \<and> now - 86400000 \<le> t) \<and>
     (covers hourly t \<longleftrightarrow> a \<le> t \<and> t \<le> b \<and> now - 604800000 \<le> t \<and> t < now - 86400000 \<and> \<not> b = now - 604800000) \<and>
     (covers daily t \<longleftrightarrow> a \<le> t \<and> t \<le> b \<and> t < now - 604800000)"
  by (auto simp: history_tiers_def Let_def covers_def RAW_RETENTION_MS_def HOURLY_RETENTION_MS_def)

subsection \<open>Answers\<close>

lemma history_mono: "m \<le> n \<Longrightarrow> timestamp_millis m \<le> timestamp_millis n"
  by (simp add: timestamp_millis_def zdiv_mono1)

lemma bucket_rows_member:
  assumes "r \<in> set (bucket_rows E node_id rng hourly st)"
  shows "covers rng (history_ms r) \<and> (case r of BucketRow n _ _ _ _ \<Rightarrow> n = node_id | _ \<Rightarrow> False)"
proof -
  obtain a b where rng: "rng = Some (a, b)" using assms by (auto simp: bucket_rows_def split: option.splits)
  then obtain bs where bs: "get_aggregated_history node_id a b hourly (st_hourly st) (st_daily st) = Inr bs"
    "r \<in> set (aggregate_rows_to_json node_id bs (if hourly then ''hourly'' else ''daily''))"
    using assms
    by (cases "get_aggregated_history node_id a b hourly (st_hourly st) (st_daily st)")
       (auto simp: bucket_rows_def split: if_splits)
  then obtain bucket metric avg key where x: "(bucket, metric, avg) \<in> set bs"
    "r = BucketRow node_id (timestamp_millis bucket) key avg (if hourly then ''hourly'' else ''daily'')"
    by (auto simp: aggregate_rows_to_json_def map_filter_def)
  have "a * 1000000 \<le> bucket \<and> bucket \<le> b * 1000000"
    using bs(1) x(1) by (auto simp: get_aggregated_history_def select_where_def Let_def split: if_splits)
  then have "a \<le> timestamp_millis bucket \<and> timestamp_millis bucket \<le> b"
    using history_mono [of "a * 1000000" bucket] history_mono [of bucket "b * 1000000"] by (simp add: timestamp_millis_def)
  then show ?thesis using x(2) rng by (simp add: covers_def)
qed

lemma raw_rows_member:
  assumes "r \<in> set (raw_rows E node_id rng st)"
  shows "covers rng (history_ms r) \<and> (case r of RawRow m \<Rightarrow> nm_node_id m = node_id | _ \<Rightarrow> False)"
  using assms
  by (auto simp: raw_rows_def covers_def get_metrics_history_def select_where_def
      split: option.splits if_splits sum.splits dest!: in_set_takeD)

text \<open>Every answer of the history endpoint is in time order, holds only rows of the requested node inside the
  requested range, and takes from the raw table only what is younger than a day and from the buckets only what
  is older.\<close>

lemma history_sound:
  assumes "get_metrics_history_handler E ps st = Ok rows" and "kget ps ''node_id'' = Some node_id"
    and "Option.bind (kget ps ''start_time_ms'') parse_i64 = Some a" and "Option.bind (kget ps ''end_time_ms'') parse_i64 = Some b"
  shows "sorted (map history_ms rows) \<and>
    (\<forall>r \<in> set rows. a \<le> history_ms r \<and> history_ms r \<le> b \<and>
       (case r of RawRow m \<Rightarrow> nm_node_id m = node_id \<and> timestamp_millis (e_now E) - 86400000 \<le> history_ms r
        | BucketRow n t k v s \<Rightarrow> n = node_id \<and> history_ms r < timestamp_millis (e_now E) - 86400000))"
proof -
  obtain raw hourly daily where tiers: "history_tiers a b (timestamp_millis (e_now E)) = (raw, hourly, daily)"
    by (cases "history_tiers a b (timestamp_millis (e_now E))")
  have rows: "rows = sort_key history_ms (raw_rows E node_id raw st @ bucket_rows E node_id hourly True st
      @ bucket_rows E node_id daily False st)"
    using assms tiers by (auto simp: get_metrics_history_handler_def split: if_splits)
  have cov: "covers raw t \<Longrightarrow> a \<le> t \<and> t \<le> b \<and> timestamp_millis (e_now E) - 86400000 \<le> t"
    "covers hourly t \<Longrightarrow> a \<le> t \<and> t \<le> b \<and> t < timestamp_millis (e_now E) - 86400000"
    "covers daily t \<Longrightarrow> a \<le> t \<and> t \<le> b \<and> t < timestamp_millis (e_now E) - 86400000" for t
    using tiers by (auto simp: history_tiers_def Let_def covers_def RAW_RETENTION_MS_def HOURLY_RETENTION_MS_def split: if_splits)
  have "a \<le> history_ms r \<and> history_ms r \<le> b \<and>
       (case r of RawRow m \<Rightarrow> nm_node_id m = node_id \<and> timestamp_millis (e_now E) - 86400000 \<le> history_ms r
        | BucketRow n t k v s \<Rightarrow> n = node_id \<and> history_ms r < timestamp_millis (e_now E) - 86400000)"
    if mem: "r \<in> set rows" for r
  proof -
    consider (raw) "r \<in> set (raw_rows E node_id raw st)" | (hourly) "r \<in> set (bucket_rows E node_id hourly True st)"
      | (daily) "r \<in> set (bucket_rows E node_id daily False st)" using mem rows by auto
    then show ?thesis
    proof cases
      case raw
      show ?thesis using raw_rows_member [OF raw] cov(1) by (cases r) simp_all
    next
      case hourly
      show ?thesis using bucket_rows_member [OF hourly] cov(2) by (cases r) simp_all
    next
      case daily
      show ?thesis using bucket_rows_member [OF daily] cov(3) by (cases r) simp_all
    qed
  qed
  then show ?thesis by (simp add: rows)
qed

definition sample_params :: params where
  "sample_params = [(''end_time_ms'', ''9''), (''node_id'', ''n1''), (''start_time_ms'', ''0'')]"

subsection \<open>GPU summary\<close>

text \<open>The idle GPUs of the summary are the difference of two counts, which is never negative: the bound at
  zero does not apply. A GPU whose utilization is unknown counts as idle.\<close>

lemma idle_gpus_count:
  assumes "get_gpu_utilization_summary P (st_metrics st) = Inr (Some (avg, busy, cap))" "\<not> e_fault E ''gpu_summary''"
  shows "ci_idle_gpus (get_cluster_info P E st) = Some (cap - busy) \<and> 0 \<le> cap - busy \<and> cap - busy \<le> cap"
  using assms busy_le_total [OF assms(1)] by (simp add: get_cluster_info_def Let_def)

text \<open>Prometheus and the summary of the dashboard report the same counts.\<close>

lemma gauges_agree:
  "map (\<lambda>(_, _, v). v) (cluster_gauges st) =
     [int (ci_total_nodes (get_cluster_info P E st)), int (ci_online_nodes (get_cluster_info P E st))]"
  by (simp add: cluster_gauges_def get_cluster_info_def Let_def list_online_def registry_list_def count_status_def)

end
