(* ===== verification/Agent_Start.thy ===== *)
theory Agent_Start
  imports Agent_Client Config
begin

text \<open>
  The process of the agent, \<open>run\<close> of \<open>crates/agent/src/lib.rs\<close>, and its client, \<open>AgentClient\<close> of
  \<open>grpc_client.rs\<close>: the client that every connection attempt makes, the credentials of its requests, and the
  order of the start. The results of the network, the files and the machine are arguments.
\<close>

subsection \<open>The client\<close>

text \<open>\<open>local_ip\<close>: whether a socket is bound, whether it connects, and its address.\<close>

definition local_ip :: "bool \<Rightarrow> bool \<Rightarrow> string option \<Rightarrow> string" where
  "local_ip bound joined address =
     (if bound then if joined then (case address of Some a \<Rightarrow> a | None \<Rightarrow> []) else [] else [])"

record agent_client =
  cn_node_id :: string
  cn_auth :: "string option"
  cn_sequence :: u64

datatype client_error = InvalidAddress | ConnectionFailed | InvalidToken

text \<open>\<open>uri_ok\<close> and \<open>metadata\<close> are the parsers of the \<open>tonic\<close> crate; \<open>reachable\<close> says whether the channel connects.\<close>

definition agent_client_new ::
  "bool \<Rightarrow> (string \<Rightarrow> string option) \<Rightarrow> bool \<Rightarrow> time \<Rightarrow> string \<Rightarrow> string \<Rightarrow> client_error + agent_client" where
  "agent_client_new uri_ok metadata reachable now node_id token =
     (if \<not> uri_ok then Inl InvalidAddress
      else if \<not> reachable then Inl ConnectionFailed
      else let seed = first_sequence now
           in if token = [] then Inr \<lparr>cn_node_id = node_id, cn_auth = None, cn_sequence = seed\<rparr>
              else case metadata (''Bearer '' @ token) of
                     None \<Rightarrow> Inl InvalidToken
                   | Some v \<Rightarrow> Inr \<lparr>cn_node_id = node_id, cn_auth = Some v, cn_sequence = seed\<rparr>)"

text \<open>The credentials of a request of the client.\<close>

definition client_authed :: "agent_client \<Rightarrow> string option" where
  "client_authed c = (case cn_auth c of Some token \<Rightarrow> Some token | None \<Rightarrow> None)"

record node_heartbeat =
  hb_node_id :: string
  hb_timestamp_ms :: u64
  hb_status :: int

definition heartbeat_message :: "agent_client \<Rightarrow> time \<Rightarrow> node_heartbeat" where
  "heartbeat_message c now =
     \<lparr>hb_node_id = cn_node_id c, hb_timestamp_ms = i64_as_u64 (timestamp_millis now), hb_status = 1\<rparr>"

text \<open>\<open>watch_jobs\<close>: a poll that fails is followed by a wait of five seconds, in seconds per poll.\<close>

definition watch_waits :: "bool list \<Rightarrow> nat list" where
  "watch_waits polls = map (\<lambda>ok. if ok then 0 else 5) polls"

subsection \<open>The start\<close>

text \<open>What the agent finds: its files, the machine, the network over time, the processes of an earlier life and the
  clock.\<close>

record agent_world =
  aw_files :: files
  aw_yaml :: "string \<Rightarrow> string + agent_config"
  aw_defaults :: agent_config
  aw_mkdir_ok :: "string \<Rightarrow> bool"
  aw_write_ok :: "string \<Rightarrow> bool"
  aw_uuid :: string
  aw_hostname :: "string option"
  aw_uri_ok :: "string \<Rightarrow> bool"
  aw_metadata :: "string \<Rightarrow> string option"
  aw_reachable :: "nat \<Rightarrow> bool"
  aw_registers :: "nat \<Rightarrow> bool"
  aw_stat :: "int \<Rightarrow> string option"
  aw_dirs :: "job_dir list"
  aw_now :: time

definition connect_attempt :: "agent_world \<Rightarrow> agent_config \<Rightarrow> string \<Rightarrow> nat \<Rightarrow> agent_client option" where
  "connect_attempt w c node_id n =
     (case agent_client_new (aw_uri_ok w (ac_server_addr c)) (aw_metadata w) (aw_reachable w n) (aw_now w) node_id
             (ac_agent_token c) of
        Inr client \<Rightarrow> Some client | Inl _ \<Rightarrow> None)"

record running_agent =
  ra_client :: agent_client
  ra_waits :: "u64 list"
  ra_signals :: signals
  ra_reap_later :: "(string \<times> int) list"
  ra_dirs :: "job_dir list"

datatype agent_outcome = StartFails string | NeverConnects | RegistrationFails nat | Runs running_agent

definition agent_run :: "agent_world \<Rightarrow> cli \<Rightarrow> agent_outcome" where
  "agent_run w cl =
     (case load_agent_config (aw_files w) (aw_yaml w) (aw_defaults w) (aw_mkdir_ok w) cl of
        Inl e \<Rightarrow> StartFails e
      | Inr c \<Rightarrow>
     (case load_or_create (aw_uuid w) (aw_write_ok w) (ac_node_id_file c) (aw_files w) of
        Inl e \<Rightarrow> StartFails e
      | Inr (identity, _) \<Rightarrow>
     let node_id = resolve_node_id (ac_node_id c) (aw_hostname w) identity in
     (case connect_with_retry (connect_attempt w c node_id) of
        None \<Rightarrow> NeverConnects
      | Some (client, waits) \<Rightarrow>
     (case register_loop (aw_registers w) 0 of
        (tries, False) \<Rightarrow> RegistrationFails tries
      | (tries, True) \<Rightarrow>
     let (sigs, later, dirs) = cleanup_orphaned_process_groups (aw_stat w) (aw_dirs w) in
     Runs \<lparr>ra_client = client, ra_waits = waits, ra_signals = sigs, ra_reap_later = later,
            ra_dirs = cleanup_old_job_dirs (aw_now w) (days 7) dirs\<rparr>))))"

subsection \<open>Credentials\<close>

text \<open>A client and a server with the same token agree, and a client without a token is accepted by a server that
  asks for none: every request of a client that exists passes the interceptor. The header parser keeps the text.\<close>

lemma client_requests_accepted:
  assumes "agent_client_new uri_ok metadata reachable now node_id token = Inr c"
    and "\<And>s v. metadata s = Some v \<Longrightarrow> v = s"
  shows "grpc_auth_interceptor token (client_authed c) = Inr ()"
proof (cases "token = []")
  case False
  then have "cn_auth c = Some (''Bearer '' @ token)"
    using assms(1) assms(2) [of "''Bearer '' @ token"]
    by (auto simp: agent_client_new_def Let_def split: if_splits option.splits)
  then show ?thesis by (simp add: grpc_auth_interceptor_def client_authed_def)
qed (simp add: grpc_auth_interceptor_def)

text \<open>A token that is no header value is not reported as such: every attempt fails after connecting, the agent tries
  again for ever and never starts.\<close>

lemma invalid_token_never_starts:
  assumes "ac_agent_token c \<noteq> []" "aw_metadata w (''Bearer '' @ ac_agent_token c) = None"
  shows "connect_with_retry (connect_attempt w c node_id) = None"
proof (cases "connect_with_retry (connect_attempt w c node_id)")
  case (Some r)
  then have "connect_loop (connect_attempt w c node_id) 0 1 [] = Some r" by (simp add: connect_with_retry_def)
  from connect_loop_returns [OF this] obtain k where "connect_attempt w c node_id k = Some (fst r)" by auto
  then show ?thesis using assms by (simp add: connect_attempt_def agent_client_new_def Let_def split: if_splits)
qed

text \<open>An agent that runs has the identity the configuration, the host name or the file gives it, was connected by an
  attempt that succeeded, and signals nothing before it is registered.\<close>

lemma agent_runs:
  assumes "agent_run w cl = Runs a"
  shows "\<exists>c identity fs k. load_agent_config (aw_files w) (aw_yaml w) (aw_defaults w) (aw_mkdir_ok w) cl = Inr c \<and>
    load_or_create (aw_uuid w) (aw_write_ok w) (ac_node_id_file c) (aw_files w) = Inr (identity, fs) \<and>
    connect_attempt w c (resolve_node_id (ac_node_id c) (aw_hostname w) identity) k = Some (ra_client a) \<and>
    cn_node_id (ra_client a) = resolve_node_id (ac_node_id c) (aw_hostname w) identity \<and>
    (\<exists>n. register_loop (aw_registers w) 0 = (n, True)) \<and>
    ra_signals a = fst (cleanup_orphaned_process_groups (aw_stat w) (aw_dirs w))"
proof -
  obtain c identity fs client waits n where run:
    "load_agent_config (aw_files w) (aw_yaml w) (aw_defaults w) (aw_mkdir_ok w) cl = Inr c"
    "load_or_create (aw_uuid w) (aw_write_ok w) (ac_node_id_file c) (aw_files w) = Inr (identity, fs)"
    "connect_with_retry (connect_attempt w c (resolve_node_id (ac_node_id c) (aw_hostname w) identity)) = Some (client, waits)"
    "register_loop (aw_registers w) 0 = (n, True)" "ra_client a = client"
    "ra_signals a = fst (cleanup_orphaned_process_groups (aw_stat w) (aw_dirs w))"
    using assms by (auto simp: agent_run_def Let_def split: sum.splits prod.splits option.splits bool.splits)
  from run(3) have "connect_loop (connect_attempt w c (resolve_node_id (ac_node_id c) (aw_hostname w) identity)) 0 1 [] = Some (client, waits)"
    by (simp add: connect_with_retry_def)
  from connect_loop_returns [OF this]
  obtain k where k: "connect_attempt w c (resolve_node_id (ac_node_id c) (aw_hostname w) identity) k = Some client" by auto
  then have "cn_node_id client = resolve_node_id (ac_node_id c) (aw_hostname w) identity"
    by (auto simp: connect_attempt_def agent_client_new_def Let_def split: sum.splits if_splits option.splits)
  with run k show ?thesis by blast
qed

end
