(* ===== verification/Paths.thy ===== *)
theory Paths
  imports Rust_Text
begin

text \<open>
  The pieces of a text between separators, \<open>str::split\<close>, and the last component of a path.
\<close>

text \<open>The last component of a path, as \<open>Path::file_name\<close> gives it.\<close>

fun split_on :: "char \<Rightarrow> string \<Rightarrow> string list" where
  "split_on c [] = [[]]"
| "split_on c (x # s) =
     (if x = c then [] # split_on c s else case split_on c s of [] \<Rightarrow> [[x]] | w # ws \<Rightarrow> (x # w) # ws)"

definition file_name :: "string \<Rightarrow> string option" where
  "file_name path =
     (let parts = filter (\<lambda>c. c \<noteq> [] \<and> c \<noteq> ''.'') (split_on (CHR ''/'') path)
      in if parts = [] \<or> last parts = ''..'' then None else Some (last parts))"

lemma split_on_no: "c \<notin> set s \<Longrightarrow> split_on c s = [s]"
  by (induction s) auto

lemma split_on_append: "c \<notin> set a \<Longrightarrow> split_on c (a @ c # s) = a # split_on c s"
  by (induction a) auto

end
