(* ===== verification/Agent_Metrics.thy ===== *)
theory Agent_Metrics
  imports Paths Agent_Client Config
begin

text \<open>
  The metrics collector of the agent, \<open>crates/agent/src/metrics.rs\<close>. What \<open>sysinfo\<close>, \<open>NVML\<close>, the program
  \<open>nvidia-smi\<close> and the files under \<open>/proc\<close> answer during one collection is an argument, \<open>sample\<close>; the collector's
  own state, its order of steps, its arithmetic and its parsers are modelled. Fields of the messages that are
  constant in the source are left out. The hash map of the interfaces is iterated in the order of the names.
\<close>

subsection \<open>Numbers in texts\<close>

text \<open>\<open>str::parse\<close> for floating point numbers: the exact decimal value, rounded once.\<close>

definition parse_exponent :: "string \<Rightarrow> int option" where
  "parse_exponent s =
     (case s of
        [] \<Rightarrow> Some 0
      | c # t \<Rightarrow>
          if c = CHR ''e'' \<or> c = CHR ''E'' then
            (let d = (if signed_with (CHR ''-'') t \<or> signed_with (CHR ''+'') t then tl t else t)
             in if d = [] \<or> \<not> list_all is_ascii_digit d then None
                else Some (if signed_with (CHR ''-'') t then - int (digits_value d) else int (digits_value d)))
          else None)"

definition parse_decimal :: "string \<Rightarrow> rat option" where
  "parse_decimal s =
     (let whole = takeWhile is_ascii_digit s; r = dropWhile is_ascii_digit s;
          (frac, r) = (case r of c # t \<Rightarrow>
                         if c = CHR ''.'' then (takeWhile is_ascii_digit t, dropWhile is_ascii_digit t) else ([], r)
                       | [] \<Rightarrow> ([], []))
      in if whole = [] \<and> frac = [] then None
         else map_option (\<lambda>e. of_nat (digits_value (whole @ frac)) * 10 powi (e - int (length frac))) (parse_exponent r))"

definition parse_float :: "(rat \<Rightarrow> f64) \<Rightarrow> string \<Rightarrow> f64 option" where
  "parse_float rnd s =
     (let neg = signed_with (CHR ''-'') s; t = (if neg \<or> signed_with (CHR ''+'') s then tl s else s)
      in case parse_decimal t of
           Some x \<Rightarrow> Some (rnd (if neg then - x else x))
         | None \<Rightarrow>
             if eq_ignore_ascii_case t ''nan'' then Some NaN
             else if eq_ignore_ascii_case t ''inf'' \<or> eq_ignore_ascii_case t ''infinity'' then Some (f64_sign_inf (\<not> neg))
             else None)"

abbreviation parse_f32 :: "string \<Rightarrow> f64 option" where "parse_f32 \<equiv> parse_float round32"
abbreviation parse_f64 :: "string \<Rightarrow> f64 option" where "parse_f64 \<equiv> parse_float round64"

definition word_field :: "nat option \<Rightarrow> 'a::len word option" where "word_field n = map_option of_nat n"

definition parse_opt :: "(string \<Rightarrow> 'a option) \<Rightarrow> string \<Rightarrow> 'a option" where
  "parse_opt parse field =
     (let f = trim field in if f = [] \<or> eq_ignore_ascii_case f ''[N/A]'' then None else parse f)"

text \<open>\<open>u64 as f64\<close>, \<open>i128 as f64\<close>, \<open>u32 as f32\<close> and \<open>f64 as f32\<close>.\<close>

definition int_as_f64 :: "int \<Rightarrow> f64" where "int_as_f64 i = round64 (of_int i)"
definition u32_as_f32 :: "u32 \<Rightarrow> f64" where "u32_as_f32 w = round32 (of_nat (unat w))"
definition f64_as_f32 :: "f64 \<Rightarrow> f64" where "f64_as_f32 a = (case a of Fin x \<Rightarrow> round32 x | _ \<Rightarrow> a)"

subsection \<open>What the machine answers\<close>

record network_measure = network_metrics +
  net_packets_sent :: u64
  net_packets_recv :: u64
  net_tx_rate :: "f64 option"
  net_rx_rate :: "f64 option"

record disk_measure = disk_metrics +
  d_usage_percent :: f64

record gpu_measure = gpu_metrics +
  g_power_limit_watts :: "f64 option"

record nvml_device =
  nv_open :: bool
  nv_uuid :: "string option"
  nv_name :: "string option"
  nv_utilization :: "(u32 \<times> u32) option"
  nv_memory :: "(u64 \<times> u64) option"
  nv_temperature :: "u32 option"
  nv_power :: "u32 option"
  nv_power_limit :: "u32 option"
  nv_fan :: "u32 option"
  nv_processes :: "(u32 \<times> u64 option) list option"
  nv_samples :: "(u32 \<times> u32 \<times> u32 \<times> u32 \<times> u32) list option"

text \<open>A run of \<open>nvidia-smi\<close>: not started, a failing status, or its output.\<close>

datatype smi = SmiMissing | SmiFailed | SmiOutput string

record sample =
  sa_now :: time
  sa_monotonic_ms :: u64
  sa_cpus :: "f64 list"
  sa_memory :: "u64 \<times> u64"
  sa_swap :: "u64 \<times> u64"
  sa_uptime :: "u64 \<times> u64"
  sa_disks :: "(string \<times> u64 \<times> u64) list"
  sa_loadavg :: "string option"
  sa_net_dev :: "string option"
  sa_nvml :: "nvml_device list option option"
  sa_smi_gpus :: smi
  sa_smi_uuids :: smi
  sa_smi_apps :: "string \<Rightarrow> smi"
  sa_processes :: "(f64 \<times> u32 \<times> u64) list"
  sa_refreshed :: nat
  sa_status :: "u32 \<Rightarrow> string option"
  sa_cmdline :: "u32 \<Rightarrow> string option"
  sa_user :: "u32 \<Rightarrow> string option"

record counter =
  ct_sent :: u64
  ct_recv :: u64
  ct_at_ms :: int

record collector =
  co_prev_network :: "(string, counter) kmap option"
  co_baseline :: bool

definition collector_new :: collector where
  "collector_new = \<lparr>co_prev_network = None, co_baseline = False\<rparr>"

subsection \<open>The host\<close>

definition get_load_average :: "string option \<Rightarrow> (f64 \<times> f64 \<times> f64) option" where
  "get_load_average file =
     (case read_to_string file of
        None \<Rightarrow> None
      | Some contents \<Rightarrow>
          (case split_whitespace contents of
             a # b # c # _ \<Rightarrow>
               (case (parse_f64 a, parse_f64 b, parse_f64 c) of
                  (Some x, Some y, Some z) \<Rightarrow> Some (x, y, z) | _ \<Rightarrow> None)
           | _ \<Rightarrow> Some (Fin 0, Fin 0, Fin 0)))"

text \<open>The mean of the cores; \<open>0.0 / 0.0\<close> without any.\<close>

definition cpu_usage :: "f64 list \<Rightarrow> f64" where
  "cpu_usage cpus =
     (if cpus = [] then NaN
      else case round32 (of_nat (length cpus)) of Fin n \<Rightarrow> f32_div_fin (foldl f32_add (Fin 0) cpus) n | _ \<Rightarrow> NaN)"

definition collect_disks :: "(string \<times> u64 \<times> u64) list \<Rightarrow> disk_measure list" where
  "collect_disks disks = map (\<lambda>(mount, size, available).
     let used = (if available \<le> size then size - available else 0);
         usage_pct = (if 0 < size then
                        (case int_as_f64 (uint size) of
                           Fin n \<Rightarrow> f64_mul (f64_div_fin (int_as_f64 (uint used)) n) (Fin 100) | _ \<Rightarrow> NaN)
                      else Fin 0)
     in \<lparr>d_mount_point = mount, d_total_bytes = size, d_used_bytes = used, d_free_bytes = available,
         d_usage_percent = f64_as_f32 usage_pct\<rparr>) disks"

record network_stats =
  ns_sent :: u64
  ns_recv :: u64
  ns_packets_sent :: u64
  ns_packets_recv :: u64

definition or_zero :: "nat option \<Rightarrow> u64" where
  "or_zero n = (case n of Some v \<Rightarrow> of_nat v | None \<Rightarrow> 0)"

definition trim_end_colons :: "string \<Rightarrow> string" where
  "trim_end_colons s = rev (dropWhile (\<lambda>c. c = CHR '':'') (rev s))"

definition interface_line :: "string \<Rightarrow> (string \<times> network_stats) option" where
  "interface_line line =
     (let parts = split_whitespace line
      in if length parts < 17 then None
         else Some (trim_end_colons (parts ! 0),
           \<lparr>ns_sent = or_zero (parse_u64 (parts ! 9)), ns_recv = or_zero (parse_u64 (parts ! 1)),
            ns_packets_sent = or_zero (parse_u64 (parts ! 10)), ns_packets_recv = or_zero (parse_u64 (parts ! 2))\<rparr>))"

definition read_network_stats :: "string option \<Rightarrow> (string, network_stats) kmap" where
  "read_network_stats file =
     (case read_to_string file of
        None \<Rightarrow> []
      | Some contents \<Rightarrow>
          fold (\<lambda>line stats. case interface_line line of Some (i, s) \<Rightarrow> kput i s stats | None \<Rightarrow> stats)
            (drop 2 (lines contents)) [])"

text \<open>The rate of one direction; \<open>elapsed\<close> is in seconds.\<close>

definition byte_rate :: "u64 \<Rightarrow> u64 \<Rightarrow> f64 \<Rightarrow> f64 option" where
  "byte_rate current previous elapsed =
     (if f64_lt (Fin 0) elapsed then
        Some (f64_as_f32 (f64_max
          (case elapsed of Fin e \<Rightarrow> f64_div_fin (int_as_f64 (uint current - uint previous)) e | _ \<Rightarrow> Fin 0) (Fin 0)))
      else None)"

definition elapsed_secs :: "int \<Rightarrow> counter \<Rightarrow> f64" where
  "elapsed_secs now_ms prev = f64_div_fin (int_as_f64 (now_ms - ct_at_ms prev)) 1000"

definition measure_network ::
  "(string, counter) kmap option \<Rightarrow> int \<Rightarrow> string \<times> network_stats \<Rightarrow> network_measure" where
  "measure_network prev_network now_ms e =
     (case e of (iface, stats) \<Rightarrow>
        let prev = (case prev_network of None \<Rightarrow> None | Some m \<Rightarrow> kget m iface)
        in \<lparr>net_interface_name = iface, net_bytes_sent = ns_sent stats, net_bytes_recv = ns_recv stats,
            net_packets_sent = ns_packets_sent stats, net_packets_recv = ns_packets_recv stats,
            net_tx_rate = (case prev of Some p \<Rightarrow> byte_rate (ns_sent stats) (ct_sent p) (elapsed_secs now_ms p) | None \<Rightarrow> None),
            net_rx_rate = (case prev of Some p \<Rightarrow> byte_rate (ns_recv stats) (ct_recv p) (elapsed_secs now_ms p) | None \<Rightarrow> None)\<rparr>)"

definition collect_network :: "sample \<Rightarrow> collector \<Rightarrow> network_measure list \<times> collector" where
  "collect_network s c =
     (let now_ms = timestamp_millis (sa_now s); stats = read_network_stats (sa_net_dev s)
      in (map (measure_network (co_prev_network c) now_ms) stats,
          c\<lparr>co_prev_network := Some (fold (\<lambda>(iface, st). kput iface
               \<lparr>ct_sent = ns_sent st, ct_recv = ns_recv st, ct_at_ms = now_ms\<rparr>) stats [])\<rparr>))"

subsection \<open>GPUs\<close>

definition watts :: "u32 \<Rightarrow> f64" where "watts mw = f32_div_fin (u32_as_f32 mw) 1000"

definition nvml_gpu :: "nat \<Rightarrow> nvml_device \<Rightarrow> gpu_measure option" where
  "nvml_gpu idx d =
     (if \<not> nv_open d then None
      else case nv_utilization d of
             None \<Rightarrow> None
           | Some (gpu, memory) \<Rightarrow>
               Some \<lparr>g_index = of_nat idx, g_uuid = (case nv_uuid d of Some u \<Rightarrow> u | None \<Rightarrow> []),
                     g_name = (case nv_name d of Some n \<Rightarrow> n | None \<Rightarrow> ''unknown''),
                     g_utilization_gpu = u32_as_f32 gpu, g_utilization_memory = u32_as_f32 memory,
                     g_memory_total_bytes = map_option fst (nv_memory d), g_memory_used_bytes = map_option snd (nv_memory d),
                     g_temperature_celsius = map_option u32_as_f32 (nv_temperature d),
                     g_power_watts = map_option watts (nv_power d),
                     g_fan_speed_percent = map_option u32_as_f32 (nv_fan d), g_mig_enabled = False,
                     g_power_limit_watts = map_option watts (nv_power_limit d)\<rparr>)"

fun nvml_gpus :: "nat \<Rightarrow> nvml_device list \<Rightarrow> gpu_measure list" where
  "nvml_gpus idx [] = []"
| "nvml_gpus idx (d # ds) = (case nvml_gpu idx d of Some g \<Rightarrow> [g] | None \<Rightarrow> []) @ nvml_gpus (Suc idx) ds"

definition mib :: "u64 \<Rightarrow> u64" where "mib v = v * 1024 * 1024"

definition smi_line :: "string \<Rightarrow> gpu_measure option" where
  "smi_line line =
     (let fields = map trim (split_on (CHR '','') line)
      in if length fields < 10 then None
         else case parse_opt parse_f32 (fields ! 3) of
                None \<Rightarrow> None
              | Some utilization_gpu \<Rightarrow>
                  (case parse_opt parse_f32 (fields ! 4) of
                     None \<Rightarrow> None
                   | Some utilization_memory \<Rightarrow>
                       Some \<lparr>g_index = (case parse_u32 (fields ! 0) of Some v \<Rightarrow> of_nat v | None \<Rightarrow> 0),
                             g_uuid = fields ! 1, g_name = fields ! 2,
                             g_utilization_gpu = utilization_gpu, g_utilization_memory = utilization_memory,
                             g_memory_total_bytes = map_option mib (word_field (parse_opt parse_u64 (fields ! 5))),
                             g_memory_used_bytes = map_option mib (word_field (parse_opt parse_u64 (fields ! 6))),
                             g_temperature_celsius = parse_opt parse_f32 (fields ! 7),
                             g_power_watts = parse_opt parse_f32 (fields ! 8),
                             g_fan_speed_percent = (if 10 < length fields then parse_opt parse_f32 (fields ! 10) else None),
                             g_mig_enabled = False, g_power_limit_watts = parse_opt parse_f32 (fields ! 9)\<rparr>))"

definition collect_gpu_fallback :: "smi \<Rightarrow> gpu_measure list" where
  "collect_gpu_fallback out =
     (case out of SmiOutput stdout \<Rightarrow> List.map_filter smi_line (lines (from_utf8_lossy stdout)) | _ \<Rightarrow> [])"

definition collect_gpu :: "sample \<Rightarrow> gpu_measure list" where
  "collect_gpu s =
     (case sa_nvml s of
        Some (Some devices) \<Rightarrow> nvml_gpus 0 devices
      | _ \<Rightarrow> collect_gpu_fallback (sa_smi_gpus s))"

subsection \<open>Owners and commands\<close>

definition ends_with :: "string \<Rightarrow> string \<Rightarrow> bool" where
  "ends_with s p \<longleftrightarrow> length p \<le> length s \<and> drop (length s - length p) s = p"

definition process_user :: "sample \<Rightarrow> u32 \<Rightarrow> string" where
  "process_user s pid =
     (case read_to_string (sa_status s pid) of
        None \<Rightarrow> ''unknown''
      | Some status \<Rightarrow>
          (case filter (\<lambda>l. starts_with l ''Uid:'') (lines status) of
             [] \<Rightarrow> ''unknown''
           | line # _ \<Rightarrow>
               let uid = (case split_whitespace line of _ # u # _ \<Rightarrow>
                            (case parse_u32 u of Some v \<Rightarrow> of_nat v | None \<Rightarrow> 0) | _ \<Rightarrow> 0)
               in case sa_user s uid of Some name \<Rightarrow> from_utf8_lossy name | None \<Rightarrow> ''?''))"

definition process_command :: "sample \<Rightarrow> u32 \<Rightarrow> string" where
  "process_command s pid =
     (case sa_cmdline s pid of
        None \<Rightarrow> ''unknown''
      | Some bytes \<Rightarrow>
          (case filter (\<lambda>p. p \<noteq> []) (split_on (CHR 0x00) (from_utf8_lossy bytes)) of
             [] \<Rightarrow> ''unknown''
           | first # rest \<Rightarrow>
               let base = (case file_name first of Some b \<Rightarrow> b | None \<Rightarrow> first);
                   script = (case filter (\<lambda>p. ends_with p ''.py'') rest of p # _ \<Rightarrow> file_name p | [] \<Rightarrow> None)
               in case script of Some sc \<Rightarrow> base @ '' '' @ sc | None \<Rightarrow> base))"

subsection \<open>GPU processes\<close>

definition nvml_process :: "sample \<Rightarrow> nvml_device \<Rightarrow> u32 \<times> u64 option \<Rightarrow> gpu_process" where
  "nvml_process s d p =
     (let sample = find (\<lambda>q. fst q = fst p) (case nv_samples d of Some qs \<Rightarrow> qs | None \<Rightarrow> [])
      in \<lparr>p_pid = fst p, p_username = process_user s (fst p), p_command = process_command s (fst p),
          p_gpu_uuid = (case nv_uuid d of Some u \<Rightarrow> u | None \<Rightarrow> []), p_gpu_memory_bytes = snd p,
          p_cpu_percent = Fin 0, p_system_memory_bytes = 0, p_started_at = 0,
          p_sm_utilization = map_option (\<lambda>(_, sm, _). u32_as_f32 sm) sample,
          p_memory_utilization = map_option (\<lambda>(_, _, mem, _). u32_as_f32 mem) sample,
          p_encoder_utilization = map_option (\<lambda>(_, _, _, enc, _). u32_as_f32 enc) sample,
          p_decoder_utilization = map_option (\<lambda>(_, _, _, _, dec). u32_as_f32 dec) sample\<rparr>)"

text \<open>The first entry of each process identifier; \<open>seen\<close> is the set of the source.\<close>

fun first_of_pid :: "u32 list \<Rightarrow> (u32 \<times> 'a) list \<Rightarrow> (u32 \<times> 'a) list" where
  "first_of_pid seen [] = []"
| "first_of_pid seen (p # ps) =
     (if fst p \<in> set seen then first_of_pid seen ps else p # first_of_pid (fst p # seen) ps)"

text \<open>A device that cannot be opened ends the scan with an error; what was pushed before stays in the report.\<close>

fun nvml_processes :: "sample \<Rightarrow> nvml_device list \<Rightarrow> bool \<times> gpu_process list" where
  "nvml_processes s [] = (True, [])"
| "nvml_processes s (d # ds) =
     (if \<not> nv_open d then (False, [])
      else let mine = map (nvml_process s d) (first_of_pid [] (case nv_processes d of Some ps \<Rightarrow> ps | None \<Rightarrow> []));
               (ok, rest) = nvml_processes s ds
           in (ok, mine @ rest))"

definition uuid_line :: "string \<Rightarrow> string option" where
  "uuid_line line =
     (let fields = map trim (split_on (CHR '','') line) in if 2 \<le> length fields then Some (fields ! 1) else None)"

definition app_line :: "string \<Rightarrow> (u32 \<times> u64 option) option" where
  "app_line line =
     (if trim line = [] then None
      else let fields = map trim (split_on (CHR '','') line)
           in if length fields < 2 then None
              else case parse_u32 (fields ! 0) of
                     Some pid \<Rightarrow> if 0 < pid then
                         Some (of_nat pid, map_option mib (word_field (parse_opt parse_u64 (fields ! 1)))) else None
                   | None \<Rightarrow> None)"

definition smi_process :: "sample \<Rightarrow> string \<Rightarrow> u32 \<times> u64 option \<Rightarrow> gpu_process" where
  "smi_process s uuid p =
     \<lparr>p_pid = fst p, p_username = process_user s (fst p), p_command = process_command s (fst p), p_gpu_uuid = uuid,
      p_gpu_memory_bytes = snd p, p_cpu_percent = Fin 0, p_system_memory_bytes = 0, p_started_at = 0,
      p_sm_utilization = None, p_memory_utilization = None, p_encoder_utilization = None, p_decoder_utilization = None\<rparr>"

definition smi_apps :: "smi \<Rightarrow> (u32 \<times> u64 option) list" where
  "smi_apps out =
     (case out of SmiOutput stdout \<Rightarrow> List.map_filter app_line (lines (from_utf8_lossy stdout)) | _ \<Rightarrow> [])"

text \<open>The set of seen processes lives across all GPUs here.\<close>

fun smi_processes :: "sample \<Rightarrow> u32 list \<Rightarrow> string list \<Rightarrow> gpu_process list" where
  "smi_processes s seen [] = []"
| "smi_processes s seen (uuid # uuids) =
     (let new = first_of_pid seen (smi_apps (sa_smi_apps s uuid))
      in map (smi_process s uuid) new @ smi_processes s (map fst new @ seen) uuids)"

definition collect_gpu_processes_fallback :: "sample \<Rightarrow> gpu_process list" where
  "collect_gpu_processes_fallback s =
     (case sa_smi_uuids s of
        SmiOutput stdout \<Rightarrow> smi_processes s [] (List.map_filter uuid_line (lines (from_utf8_lossy stdout)))
      | _ \<Rightarrow> [])"

definition collect_gpu_processes :: "bool \<Rightarrow> sample \<Rightarrow> gpu_process list" where
  "collect_gpu_processes details s =
     (if \<not> details then []
      else case sa_nvml s of
             None \<Rightarrow> collect_gpu_processes_fallback s
           | Some None \<Rightarrow> collect_gpu_processes_fallback s
           | Some (Some devices) \<Rightarrow>
               (case nvml_processes s devices of
                  (True, ps) \<Rightarrow> ps
                | (False, ps) \<Rightarrow> ps @ collect_gpu_processes_fallback s))"

subsection \<open>Host processes\<close>

definition TOP_CPU_PROCESSES :: nat where "TOP_CPU_PROCESSES = 15"

text \<open>The stable sort by \<open>b.total_cmp(a)\<close>, largest first.\<close>

definition sort_by_cpu :: "(f64 \<times> u32 \<times> u64) list \<Rightarrow> (f64 \<times> u32 \<times> u64) list" where
  "sort_by_cpu procs = rev (sort_key fst (rev procs))"

definition collect_system_processes :: "sample \<Rightarrow> collector \<Rightarrow> system_process list \<times> collector" where
  "collect_system_processes s c =
     (if sa_refreshed s = 0 then ([], c)
      else if \<not> co_baseline c then ([], c\<lparr>co_baseline := True\<rparr>)
      else (map (\<lambda>(cpu, pid, mem). \<lparr>sp_pid = pid, sp_username = process_user s pid, sp_command = process_command s pid,
                    sp_cpu_percent = cpu, sp_memory_bytes = mem\<rparr>)
              (take TOP_CPU_PROCESSES (sort_by_cpu (sa_processes s))), c))"

subsection \<open>A collection\<close>

text \<open>The report as the server decodes it: the rates, the usage of the disks and the power limits have no reader
  there.\<close>

record measures =
  ms_networks :: "network_measure list"
  ms_disks :: "disk_measure list"
  ms_gpus :: "gpu_measure list"

definition collect :: "agent_config \<Rightarrow> sample \<Rightarrow> collector \<Rightarrow> node_metrics_report \<times> measures \<times> collector" where
  "collect config s c =
     (let loads = (case get_load_average (sa_loadavg s) of Some l \<Rightarrow> l | None \<Rightarrow> (Fin 0, Fin 0, Fin 0));
          disks = collect_disks (sa_disks s);
          (networks, c) = collect_network s c;
          gpus = collect_gpu s;
          gpu_processes = collect_gpu_processes (ac_collect_process_details config) s;
          (cpu_processes, c) = (if ac_collect_process_details config then collect_system_processes s c else ([], c))
      in (\<lparr>rp_node_id = (case ac_node_id config of Some n \<Rightarrow> n | None \<Rightarrow> []), rp_sequence = 0,
           rp_timestamp_ms = i64_as_u64 (timestamp_millis (sa_now s)), rp_monotonic_clock_ms = sa_monotonic_ms s,
           rp_cpu_usage_percent = cpu_usage (sa_cpus s),
           rp_cpu_cores = map (\<lambda>(i, u). \<lparr>cc_core_id = of_nat i, cc_usage_percent = u\<rparr>) (enumerate 0 (sa_cpus s)),
           rp_load_1 = fst loads, rp_load_5 = fst (snd loads), rp_load_15 = snd (snd loads),
           rp_memory_total_bytes = fst (sa_memory s), rp_memory_used_bytes = snd (sa_memory s),
           rp_swap_total_bytes = fst (sa_swap s), rp_swap_used_bytes = snd (sa_swap s),
           rp_uptime_seconds = fst (sa_uptime s), rp_boot_time_seconds = snd (sa_uptime s),
           rp_disks = map disk_metrics.truncate disks, rp_networks = map network_metrics.truncate networks,
           rp_gpus = map gpu_metrics.truncate gpus, rp_gpu_processes = gpu_processes, rp_cpu_processes = cpu_processes\<rparr>,
          \<lparr>ms_networks = networks, ms_disks = disks, ms_gpus = gpus\<rparr>, c))"

subsection \<open>The largest processes\<close>

lemma sort_by_cpu_sorted: "sorted_wrt (\<lambda>a b. fst b \<le> fst a) (sort_by_cpu procs)"
  using sorted_sort_key [of fst "rev procs"] by (simp add: sort_by_cpu_def sorted_wrt_rev sorted_wrt_map)

lemma sort_by_cpu_mset: "mset (sort_by_cpu procs) = mset procs"
  by (simp add: sort_by_cpu_def)

lemma sorted_wrt_take_drop:
  "sorted_wrt P xs \<Longrightarrow> x \<in> set (take n xs) \<Longrightarrow> y \<in> set (drop n xs) \<Longrightarrow> P x y"
  by (metis append_take_drop_id sorted_wrt_append)

text \<open>The processes of a report are the largest consumers. The first scan after the start of the agent reports
  none, since a usage is a difference between two scans. Every later one reports fifteen of the running processes,
  or all of them when there are fewer, with their own numbers, by falling usage, and no process left out uses
  more than one of those reported.\<close>

lemma largest_processes_reported:
  assumes "sa_refreshed s \<noteq> 0" and "collect_system_processes s c = (ps, c')"
  shows "co_baseline c' \<and> (\<not> co_baseline c \<longrightarrow> ps = []) \<and>
    (co_baseline c \<longrightarrow> (\<exists>rest.
       mset (map (\<lambda>p. (sp_cpu_percent p, sp_pid p, sp_memory_bytes p)) ps) + mset rest = mset (sa_processes s) \<and>
       length ps = min 15 (length (sa_processes s)) \<and> sorted_wrt (\<ge>) (map sp_cpu_percent ps) \<and>
       (\<forall>p \<in> set ps. \<forall>q \<in> set rest. fst q \<le> sp_cpu_percent p)))"
proof (cases "co_baseline c")
  case True
  let ?sorted = "sort_by_cpu (sa_processes s)"
  have ps: "map (\<lambda>p. (sp_cpu_percent p, sp_pid p, sp_memory_bytes p)) ps = take 15 ?sorted" and c': "c' = c"
    using assms True by (auto simp: collect_system_processes_def TOP_CPU_PROCESSES_def comp_def case_prod_beta split: if_splits)
  have cpu: "map sp_cpu_percent ps = map fst (take 15 ?sorted)" unfolding ps [symmetric] by simp
  have "mset (take 15 ?sorted) + mset (drop 15 ?sorted) = mset (sa_processes s)"
    by (metis append_take_drop_id mset_append sort_by_cpu_mset)
  moreover have "length ps = min 15 (length (sa_processes s))"
    using arg_cong [OF ps, of length] mset_eq_length [OF sort_by_cpu_mset [of "sa_processes s"]] by simp
  moreover have "sorted_wrt (\<ge>) (map sp_cpu_percent ps)"
    unfolding cpu using sort_by_cpu_sorted [of "sa_processes s"] by (simp add: sorted_wrt_map sorted_wrt_take)
  moreover have "fst q \<le> sp_cpu_percent p" if "p \<in> set ps" "q \<in> set (drop 15 ?sorted)" for p q
  proof -
    from that(1) have "sp_cpu_percent p \<in> set (map sp_cpu_percent ps)" by simp
    then obtain e where "e \<in> set (take 15 ?sorted)" "sp_cpu_percent p = fst e" unfolding cpu by auto
    with sorted_wrt_take_drop [OF sort_by_cpu_sorted this(1) that(2)] show ?thesis by simp
  qed
  ultimately show ?thesis using True c' ps by (auto intro!: exI [of _ "drop 15 ?sorted"])
qed (use assms in \<open>auto simp: collect_system_processes_def\<close>)

subsection \<open>The rates of the interfaces\<close>

lemma f64_max_zero_nonneg: "f64_le (Fin 0) (f64_as_f32 (f64_max a (Fin 0)))"
proof (cases a)
  case (Fin x)
  then show ?thesis by (simp add: f64_max_def f64_as_f32_def round32_nonneg)
qed (auto simp: f64_max_def f64_as_f32_def f64_le_def round32_def)

lemma elapsed_positive: "f64_lt (Fin 0) (elapsed_secs now_ms prev) \<longleftrightarrow> ct_at_ms prev < now_ms"
proof (cases "ct_at_ms prev < now_ms")
  case True
  then have "(1::rat) \<le> of_int (now_ms - ct_at_ms prev)" by (simp only: of_int_1_le_iff)
  with small_le_one(1) have "2 powi (-1074) \<le> (of_int (now_ms - ct_at_ms prev) :: rat)" by (rule order_trans)
  from round64_half [OF this] show ?thesis
  proof
    assume "\<exists>y. round64 (of_int (now_ms - ct_at_ms prev)) = Fin y \<and> of_int (now_ms - ct_at_ms prev) / 2 \<le> y \<and> 0 < y"
    then obtain y where y: "int_as_f64 (now_ms - ct_at_ms prev) = Fin y" "1 / 2 \<le> y"
      using \<open>1 \<le> of_int _\<close> unfolding int_as_f64_def by fastforce
    then have "2 powi (-1074) \<le> y / 1000" using small_le_one(2) by linarith
    from round64_half [OF this] y True show ?thesis by (auto simp: elapsed_secs_def f64_div_fin_def)
  qed (use True in \<open>simp add: elapsed_secs_def int_as_f64_def f64_div_fin_def f64_sign_inf_def\<close>)
next
  case False
  then have "f64_le (int_as_f64 (now_ms - ct_at_ms prev)) (Fin 0)" unfolding int_as_f64_def by (intro round64_nonpos) simp
  then have "f64_le (elapsed_secs now_ms prev) (Fin 0)" unfolding elapsed_secs_def by (rule f64_div_nonpos) simp
  with False show ?thesis by (cases "elapsed_secs now_ms prev") (auto simp: f64_le_def)
qed

lemma byte_rate_falling:
  assumes "current \<le> previous" "byte_rate current previous elapsed = Some r"
  shows "r = Fin 0"
proof -
  have neg: "f64_le (int_as_f64 (uint current - uint previous)) (Fin 0)"
    unfolding int_as_f64_def 
    by (intro round64_nonpos, simp only: of_int_le_0_iff) (use assms(1) in \<open>simp add: word_le_def\<close>)
  then have "f64_max (f64_div_fin (int_as_f64 (uint current - uint previous)) e) (Fin 0) = Fin 0" if "0 < e" for e
    using that by (intro f64_max_nonpos f64_div_nonpos)
  with assms(2) show ?thesis
    by (cases elapsed) (auto simp: byte_rate_def f64_as_f32_def f64_max_def round32_def split: if_splits)
qed

lemma byte_rate_some: "(\<exists>r. byte_rate current previous (elapsed_secs now_ms p) = Some r) \<longleftrightarrow> ct_at_ms p < now_ms"
  by (simp add: byte_rate_def elapsed_positive)

lemma byte_rate_nonneg: "byte_rate current previous elapsed = Some r \<Longrightarrow> f64_le (Fin 0) r"
  by (auto simp: byte_rate_def f64_max_zero_nonneg split: if_splits)

lemma read_network_stats_wf: "kwf (read_network_stats file)"
proof -
  have "kwf (fold (\<lambda>line stats. case interface_line line of Some (i, s) \<Rightarrow> kput i s stats | None \<Rightarrow> stats) ls m)" if "kwf m" for ls m
    using that by (induction ls arbitrary: m) (auto simp: kwf_kput split: option.split)
  then show ?thesis by (simp add: read_network_stats_def split: option.split)
qed

lemma kget_fold_kput:
  "kwf xs \<Longrightarrow> kget (fold (\<lambda>(k, v). kput k (f v)) xs m) k = (case kget xs k of Some v \<Rightarrow> Some (f v) | None \<Rightarrow> kget m k)"
proof (induction xs arbitrary: m)
  case (Cons e xs)
  obtain k' v where e: "e = (k', v)" by (cases e)
  have "kget xs k' = None" using Cons.prems kget_mem [of xs k'] unfolding e by (cases "kget xs k'") (fastforce simp: kwf_Cons)+
  then show ?case using Cons.IH [of "kput k' (f v) m"] Cons.prems unfolding e
    by (auto simp: kwf_Cons kget_kput split: option.split) (auto simp: kget_def)
qed (simp add: kget_def)

lemma counters_kept:
  "co_prev_network (snd (collect_network s c)) = Some m \<Longrightarrow>
     kget m i = map_option (\<lambda>st. \<lparr>ct_sent = ns_sent st, ct_recv = ns_recv st, ct_at_ms = timestamp_millis (sa_now s)\<rparr>)
       (kget (read_network_stats (sa_net_dev s)) i)"
  by (auto simp: collect_network_def Let_def kget_fold_kput [OF read_network_stats_wf] split: option.split) (simp add: kget_def)

text \<open>The rate of an interface is a difference between two collections, never a guess. After a collection, the
  next one reports rates for exactly the interfaces that both of them saw, and only when the clock advanced; a
  rate is then a number and not negative, and it is zero when the counter fell, as it does when the interface
  was reset.\<close>

lemma rates_between_collections:
  assumes "c' = snd (collect_network s c)" and "m \<in> set (fst (collect_network s' c'))"
    and before: "before = kget (read_network_stats (sa_net_dev s)) (net_interface_name m)"
  shows "((\<exists>r. net_tx_rate m = Some r) \<longleftrightarrow> before \<noteq> None \<and> timestamp_millis (sa_now s) < timestamp_millis (sa_now s')) \<and>
    ((\<exists>r. net_rx_rate m = Some r) \<longleftrightarrow> before \<noteq> None \<and> timestamp_millis (sa_now s) < timestamp_millis (sa_now s')) \<and>
    (\<forall>r \<in> set_option (net_tx_rate m) \<union> set_option (net_rx_rate m). f64_le (Fin 0) r) \<and>
    (\<forall>b r. before = Some b \<and> net_tx_rate m = Some r \<and> net_bytes_sent m \<le> ns_sent b \<longrightarrow> r = Fin 0) \<and>
    (\<forall>b r. before = Some b \<and> net_rx_rate m = Some r \<and> net_bytes_recv m \<le> ns_recv b \<longrightarrow> r = Fin 0)"
proof -
  obtain prev where prev: "co_prev_network c' = Some prev" using assms(1) by (simp add: collect_network_def Let_def)
  obtain i st where m: "m = measure_network (Some prev) (timestamp_millis (sa_now s')) (i, st)"
    using assms(2) prev by (auto simp: collect_network_def Let_def)
  have name: "net_interface_name m = i" unfolding m by (simp add: measure_network_def Let_def)
  have "kget prev i = map_option (\<lambda>st. \<lparr>ct_sent = ns_sent st, ct_recv = ns_recv st, ct_at_ms = timestamp_millis (sa_now s)\<rparr>) before"
    using counters_kept [of s c prev i] prev assms(1) before name by simp
  then show ?thesis unfolding m
    by (auto simp: measure_network_def Let_def byte_rate_some dest: byte_rate_nonneg byte_rate_falling split: option.splits)
qed

end
