(* ===== verification/Agent_Sensors.thy ===== *)
theory Agent_Sensors
  imports Agent_Metrics
begin

text \<open>
  What the GPU part of a report says: the rows of \<open>nvidia-smi\<close> against the values they print, readings that are
  not available on their way to the alert engine of the server, and the processes on the GPUs.
\<close>

subsection \<open>Rows of \<open>nvidia-smi\<close>\<close>

text \<open>The specification: the values of a row, and how the program prints them; a missing value is \<open>[N/A]\<close>.\<close>

record gpu_row =
  gr_index :: u32
  gr_uuid :: string
  gr_name :: string
  gr_utilization_gpu :: "nat option"
  gr_utilization_memory :: "nat option"
  gr_memory_total :: "nat option"
  gr_memory_used :: "nat option"
  gr_temperature :: "nat option"
  gr_power :: "nat option"
  gr_power_limit :: "nat option"
  gr_fan :: "nat option"

definition sensor_text :: "nat option \<Rightarrow> string" where
  "sensor_text v = (case v of None \<Rightarrow> ''[N/A]'' | Some n \<Rightarrow> show_nat n)"

fun comma_row :: "string list \<Rightarrow> string" where
  "comma_row [] = []"
| "comma_row [f] = f"
| "comma_row (f # fs) = f @ '', '' @ comma_row fs"

definition row_fields :: "gpu_row \<Rightarrow> string list" where
  "row_fields r =
     [show_nat (unat (gr_index r)), gr_uuid r, gr_name r, sensor_text (gr_utilization_gpu r),
      sensor_text (gr_utilization_memory r), sensor_text (gr_memory_total r), sensor_text (gr_memory_used r),
      sensor_text (gr_temperature r), sensor_text (gr_power r), sensor_text (gr_power_limit r), sensor_text (gr_fan r)]"

definition printed :: "string list list \<Rightarrow> string" where
  "printed rows = concat (map (\<lambda>fs. comma_row fs @ [CHR 0x0A]) rows)"

definition smi_output :: "gpu_row list \<Rightarrow> string" where
  "smi_output rs = printed (map row_fields rs)"

definition f32_of_nat :: "nat \<Rightarrow> f64" where "f32_of_nat n = round32 (of_nat n)"

definition gpu_of_row :: "gpu_row \<Rightarrow> gpu_measure option" where
  "gpu_of_row r =
     (case (gr_utilization_gpu r, gr_utilization_memory r) of
        (Some ug, Some um) \<Rightarrow>
          Some \<lparr>g_index = gr_index r, g_uuid = gr_uuid r, g_name = gr_name r,
                g_utilization_gpu = f32_of_nat ug, g_utilization_memory = f32_of_nat um,
                g_memory_total_bytes = map_option (\<lambda>n. of_nat (n * 2 ^ 20)) (gr_memory_total r),
                g_memory_used_bytes = map_option (\<lambda>n. of_nat (n * 2 ^ 20)) (gr_memory_used r),
                g_temperature_celsius = map_option f32_of_nat (gr_temperature r),
                g_power_watts = map_option f32_of_nat (gr_power r),
                g_fan_speed_percent = map_option f32_of_nat (gr_fan r), g_mig_enabled = False,
                g_power_limit_watts = map_option f32_of_nat (gr_power_limit r)\<rparr>
      | _ \<Rightarrow> None)"

text \<open>A name without commas, in printable ASCII, not surrounded by spaces.\<close>

definition field_text :: "string \<Rightarrow> bool" where
  "field_text s \<longleftrightarrow> list_all (\<lambda>c. 32 \<le> code c \<and> code c < 127 \<and> c \<noteq> CHR '','') s \<and> trim s = s"

definition row_ok :: "gpu_row \<Rightarrow> bool" where
  "row_ok r \<longleftrightarrow> field_text (gr_uuid r) \<and> field_text (gr_name r) \<and>
     list_all (\<lambda>v. case v of Some n \<Rightarrow> n < 2 ^ 44 | None \<Rightarrow> True) [gr_memory_total r, gr_memory_used r]"

lemma field_show [simp]: "field_text (show_nat n)"
  using show_nat_digits [of n] by (auto simp: field_text_def list_all_iff is_ascii_digit_def code_def)

lemma field_sensor [simp]: "field_text (sensor_text v)"
proof (cases v)
  case None
  have "list_all visible_ascii ''[N/A]''" by (simp add: visible_ascii_def code_def)
  with None show ?thesis by (simp add: field_text_def sensor_text_def trim_visible_all) (simp add: code_def)
qed (simp add: sensor_text_def)

lemma trim_space: "trim (CHR '' '' # s) = trim s"
  by (simp add: trim_def trim_start_space)

lemma split_on_ne [simp]: "split_on c s \<noteq> []"
  by (induction s) (auto split: list.split)

lemma trim_split_space: "map trim (split_on (CHR '','') (CHR '' '' # s)) = map trim (split_on (CHR '','') s)"
  by (cases "split_on (CHR '','') s") (auto simp: trim_space)

lemma field_textD: "field_text s \<Longrightarrow> CHR '','' \<notin> set s \<and> trim s = s"
  by (auto simp: field_text_def list_all_iff)

lemma split_row:
  "fs \<noteq> [] \<Longrightarrow> list_all field_text fs \<Longrightarrow> map trim (split_on (CHR '','') (comma_row fs)) = fs"
proof (induction fs rule: comma_row.induct)
  case (3 f g fs)
  then have "CHR '','' \<notin> set f" "trim f = f" using field_textD [of f] by simp_all
  then have "map trim (split_on (CHR '','') (comma_row (f # g # fs))) =
      f # map trim (split_on (CHR '','') (CHR '' '' # comma_row (g # fs)))"
    using split_on_append [of "CHR '',''" f "CHR '' '' # comma_row (g # fs)"] by (simp del: split_on.simps)
  with 3 show ?case by (simp only: trim_split_space) simp
next
  case (2 f)
  then show ?case using field_textD [of f] by (simp add: split_on_no)
qed simp

lemma parse_float_show: "parse_float rnd (show_nat n) = Some (rnd (of_nat n))"
proof -
  have d: "list_all is_ascii_digit (show_nat n)" "show_nat n \<noteq> []" using show_nat_digits by auto
  then have w: "takeWhile is_ascii_digit (show_nat n) = show_nat n" "dropWhile is_ascii_digit (show_nat n) = []"
    by (simp_all add: list_all_iff takeWhile_eq_all_conv)
  have "parse_decimal (show_nat n) = Some (of_nat n)"
    unfolding parse_decimal_def w using d(2) by (simp add: parse_exponent_def)
  then show ?thesis by (simp add: parse_float_def show_nat_unsigned Let_def)
qed

lemma parse_opt_sensor:
  assumes "\<And>n. v = Some n \<Longrightarrow> parse (show_nat n) = Some (f n)"
  shows "parse_opt parse (sensor_text v) = map_option f v"
proof (cases v)
  case None
  have "list_all visible_ascii ''[N/A]''" by (simp add: visible_ascii_def code_def)
  with None show ?thesis by (simp add: parse_opt_def sensor_text_def trim_visible_all Let_def eq_ignore_ascii_case_def)
next
  case (Some n)
  have "\<not> eq_ignore_ascii_case (show_nat n) ''[N/A]''"
    by (rule show_nat_Cons [of n]) (auto simp: eq_ignore_ascii_case_def to_ascii_lowercase_def ascii_lower_def is_ascii_digit_def code_def)
  with Some assms show_nat_digits [of n] show ?thesis by (simp add: parse_opt_def sensor_text_def Let_def)
qed

lemma parse_f32_sensor [simp]: "parse_opt parse_f32 (sensor_text v) = map_option f32_of_nat v"
  by (rule parse_opt_sensor) (simp add: parse_float_show f32_of_nat_def)

lemma parse_u64_sensor:
  "(case v of Some n \<Rightarrow> n < 2 ^ 44 | None \<Rightarrow> True) \<Longrightarrow> parse_opt parse_u64 (sensor_text v) = v"
  using parse_opt_sensor [of v parse_u64 "\<lambda>n. n"] by (cases v) auto

lemma mib_of_nat: "mib (of_nat n) = of_nat (n * 2 ^ 20)"
  by (simp add: mib_def)

lemma smi_line_row:
  assumes "row_ok r"
  shows "smi_line (comma_row (row_fields r)) = gpu_of_row r"
proof -
  have fields: "map trim (split_on (CHR '','') (comma_row (row_fields r))) = row_fields r"
    using assms by (intro split_row) (simp_all add: row_fields_def row_ok_def)
  have index: "parse_u32 (show_nat (unat (gr_index r))) = Some (unat (gr_index r))"
    using unsigned_less [of "gr_index r", where ?'a = nat] by (intro parse_unsigned_show) simp
  have memory: "parse_opt parse_u64 (sensor_text (gr_memory_total r)) = gr_memory_total r"
      "parse_opt parse_u64 (sensor_text (gr_memory_used r)) = gr_memory_used r"
    using assms unfolding row_ok_def by (auto intro: parse_u64_sensor simp del: One_nat_def power_numeral)
  have length: "length (row_fields r) = 11" by (simp add: row_fields_def)
  have nth: "row_fields r ! 0 = show_nat (unat (gr_index r))" "row_fields r ! 1 = gr_uuid r" "row_fields r ! 2 = gr_name r"
      "row_fields r ! 3 = sensor_text (gr_utilization_gpu r)" "row_fields r ! 4 = sensor_text (gr_utilization_memory r)"
      "row_fields r ! 5 = sensor_text (gr_memory_total r)" "row_fields r ! 6 = sensor_text (gr_memory_used r)"
      "row_fields r ! 7 = sensor_text (gr_temperature r)" "row_fields r ! 8 = sensor_text (gr_power r)"
      "row_fields r ! 9 = sensor_text (gr_power_limit r)" "row_fields r ! 10 = sensor_text (gr_fan r)"
    by (simp_all add: row_fields_def)
  show ?thesis
    unfolding smi_line_def fields Let_def length nth index memory
    by (auto simp: gpu_of_row_def word_field_def option.map_comp comp_def mib_of_nat split: option.split)
qed

definition printable :: "string \<Rightarrow> bool" where
  "printable s \<longleftrightarrow> list_all (\<lambda>c. 32 \<le> code c \<and> code c < 127) s"

lemma printable_ascii: "printable s \<Longrightarrow> list_all (\<lambda>c. code c < 128) s"
  by (force simp: printable_def list_all_iff)

lemma printable_append [simp]: "printable (a @ b) \<longleftrightarrow> printable a \<and> printable b"
  by (simp add: printable_def)

lemma printable_field: "field_text s \<Longrightarrow> printable s"
  by (auto simp: printable_def field_text_def list_all_iff)

lemma printable_comma: "printable '', ''"
  by (simp add: printable_def code_def)

lemma printable_row: "list_all field_text fs \<Longrightarrow> printable (comma_row fs)"
proof (induction fs rule: comma_row.induct)
  case (3 f g fs)
  then show ?case using printable_comma by (simp add: printable_field) (simp add: printable_def)
qed (simp_all add: printable_field, simp add: printable_def)

lemma printable_lines:
  assumes "printable a"
  shows "lines (a @ CHR 0x0A # b) = a # lines b"
proof -
  have "CHR 0x0A \<notin> set a" "CHR 0x0D \<notin> set a"
    using assms by (auto simp: printable_def list_all_iff code_def)
  moreover from this(2) have "chomp_cr a = a" by (rule chomp_cr_id)
  ultimately show ?thesis by (simp add: lines_def split_nl_append Let_def)
qed

lemma lines_printed:
  "\<forall>fs \<in> set rows. list_all field_text fs \<Longrightarrow> lines (printed rows) = map comma_row rows \<and> valid_utf8 (printed rows)"
proof (induction rows)
  case Nil
  then show ?case by (simp add: printed_def lines_def)
next
  case (Cons fs rows)
  then have p: "printable (comma_row fs)" by (simp add: printable_row)
  have out: "printed (fs # rows) = comma_row fs @ CHR 0x0A # printed rows" by (simp add: printed_def)
  have "list_all (\<lambda>c. code c < 128) (comma_row fs @ [CHR 0x0A])"
    using printable_ascii [OF p] by simp (simp add: code_def)
  from valid_utf8_ascii [OF this, of "printed rows"] Cons p show ?case
    unfolding out by (simp add: printable_lines)
qed

lemma lossy_printed:
  "\<forall>fs \<in> set rows. list_all field_text fs \<Longrightarrow> lines (from_utf8_lossy (printed rows)) = map comma_row rows"
  using lines_printed by (simp add: valid_utf8_lossy)

lemma row_fields_ok: "row_ok r \<Longrightarrow> list_all field_text (row_fields r)"
  by (simp add: row_fields_def row_ok_def)

lemma fallback_reads_rows:
  assumes "\<forall>r \<in> set rs. row_ok r"
  shows "collect_gpu_fallback (SmiOutput (smi_output rs)) = List.map_filter gpu_of_row rs"
proof -
  have "List.map_filter smi_line (map (\<lambda>r. comma_row (row_fields r)) rs) = List.map_filter gpu_of_row rs"
    using assms by (induction rs) (auto simp: map_filter_simps smi_line_row split: option.split)
  then show ?thesis using lossy_printed [of "map row_fields rs"] assms
    by (simp add: collect_gpu_fallback_def smi_output_def row_fields_ok comp_def)
qed


subsection \<open>Readings that are not available\<close>

definition reading_missing :: "string \<Rightarrow> gpu_row \<Rightarrow> bool" where
  "reading_missing metric r \<longleftrightarrow>
     gr_utilization_gpu r = None \<or> gr_utilization_memory r = None \<or>
     metric = ''gpu_temperature'' \<and> gr_temperature r = None \<or>
     metric = ''gpu_power_watts'' \<and> gr_power r = None \<or>
     metric = ''gpu_memory_used_percent'' \<and> (gr_memory_used r = None \<or> gr_memory_total r = None)"

lemma truncate_gpu [simp]:
  "g_uuid (gpu_metrics.truncate g) = g_uuid g" "g_temperature_celsius (gpu_metrics.truncate g) = g_temperature_celsius g"
  "g_utilization_gpu (gpu_metrics.truncate g) = g_utilization_gpu g" "g_power_watts (gpu_metrics.truncate g) = g_power_watts g"
  "g_memory_used_bytes (gpu_metrics.truncate g) = g_memory_used_bytes g"
  "g_memory_total_bytes (gpu_metrics.truncate g) = g_memory_total_bytes g"
  by (simp_all add: gpu_metrics.defs)

lemma gpu_of_row_some:
  assumes "gpu_of_row r = Some g"
  shows "gr_utilization_gpu r \<noteq> None" "gr_utilization_memory r \<noteq> None" "g_uuid g = gr_uuid r"
    "g_temperature_celsius g = map_option f32_of_nat (gr_temperature r)" "g_power_watts g = map_option f32_of_nat (gr_power r)"
    "g_memory_used_bytes g = map_option (\<lambda>n. of_nat (n * 2 ^ 20)) (gr_memory_used r)"
    "g_memory_total_bytes g = map_option (\<lambda>n. of_nat (n * 2 ^ 20)) (gr_memory_total r)"
  using assms by (cases "gr_utilization_gpu r"; cases "gr_utilization_memory r"; auto simp: gpu_of_row_def)+

lemma missing_reading:
  assumes "gpu_of_row r = Some g" "reading_missing metric r"
  shows "gpu_reading metric (gpu_metrics.truncate g) = None"
  using assms(2) gpu_of_row_some [OF assms(1)] by (auto simp: reading_missing_def gpu_reading_def split: option.split)


subsection \<open>Processes on the GPUs\<close>

lemma first_of_pid_distinct:
  "distinct (map fst (first_of_pid seen ps)) \<and> fst ` set (first_of_pid seen ps) \<inter> set seen = {}"
  by (induction seen ps rule: first_of_pid.induct) (simp, auto)

lemma first_of_pid_sound: "set (first_of_pid seen ps) \<subseteq> set ps"
  by (induction seen ps rule: first_of_pid.induct) auto

lemma first_of_pid_complete: "fst ` set ps \<subseteq> fst ` set (first_of_pid seen ps) \<union> set seen"
  by (induction seen ps rule: first_of_pid.induct) (simp, auto)

definition place :: "gpu_process \<Rightarrow> string \<times> u32" where "place p = (p_gpu_uuid p, p_pid p)"

definition device_uuid :: "nvml_device \<Rightarrow> string" where
  "device_uuid d = (case nv_uuid d of Some u \<Rightarrow> u | None \<Rightarrow> [])"

lemma nvml_place: "place (nvml_process s d p) = (device_uuid d, fst p)"
  by (simp add: place_def nvml_process_def device_uuid_def Let_def)

lemma disjoint_by_fst: "fst ` A \<subseteq> {u} \<Longrightarrow> fst ` B \<subseteq> V \<Longrightarrow> u \<notin> V \<Longrightarrow> A \<inter> B = {}"
  by (auto simp: subset_iff image_iff)

lemma nvml_processes_distinct:
  assumes "\<forall>d \<in> set ds. nv_open d" "distinct (map device_uuid ds)"
  shows "fst (nvml_processes s ds) \<and> distinct (map place (snd (nvml_processes s ds))) \<and>
     fst ` set (map place (snd (nvml_processes s ds))) \<subseteq> device_uuid ` set ds"
  using assms
proof (induction ds)
  case (Cons d ds)
  let ?mine = "first_of_pid [] (case nv_processes d of Some ps \<Rightarrow> ps | None \<Rightarrow> [])"
  obtain rest where rest: "nvml_processes s ds = (True, rest)" using Cons by (cases "nvml_processes s ds") auto
  have places: "map place (map (nvml_process s d) ?mine) = map (\<lambda>p. (device_uuid d, fst p)) ?mine" by (simp add: nvml_place)
  have "distinct (map fst ?mine)" using first_of_pid_distinct [of "[]"] by blast
  then have mine: "distinct (map place (map (nvml_process s d) ?mine))"
    unfolding places by (auto simp: distinct_map inj_on_def)
  have here: "fst ` set (map place (map (nvml_process s d) ?mine)) \<subseteq> {device_uuid d}" unfolding places by auto
  have there: "distinct (map place rest)" "fst ` set (map place rest) \<subseteq> device_uuid ` set ds" "device_uuid d \<notin> device_uuid ` set ds"
    using Cons rest by simp_all
  then have disjoint: "set (map place (map (nvml_process s d) ?mine)) \<inter> set (map place rest) = {}"
    using here by (intro disjoint_by_fst)
  have all: "nvml_processes s (d # ds) = (True, map (nvml_process s d) ?mine @ rest)" using Cons.prems rest by (simp add: Let_def)
  have "distinct (map place (map (nvml_process s d) ?mine @ rest))"
    using mine there(1) disjoint by (simp only: map_append distinct_append simp_thms)
  moreover have "fst ` set (map place (map (nvml_process s d) ?mine @ rest)) \<subseteq> device_uuid ` set (d # ds)"
    using here there(2) by (simp only: map_append set_append image_Un list.set image_insert) blast
  ultimately show ?case unfolding all by simp
qed simp

lemma smi_processes_distinct:
  "distinct (map p_pid (smi_processes s seen uuids)) \<and> p_pid ` set (smi_processes s seen uuids) \<inter> set seen = {}"
proof (induction uuids arbitrary: seen)
  case (Cons u uuids)
  let ?new = "first_of_pid seen (smi_apps (sa_smi_apps s u))"
  have pids: "map p_pid (map (smi_process s u) ?new) = map fst ?new" by (simp add: smi_process_def)
  then have step: "map p_pid (smi_processes s seen (u # uuids)) = map fst ?new @ map p_pid (smi_processes s (map fst ?new @ seen) uuids)"
    by (simp add: Let_def del: map_map)
  have "distinct (map p_pid (smi_processes s seen (u # uuids))) \<and>
      set (map p_pid (smi_processes s seen (u # uuids))) \<inter> set seen = {}"
    unfolding step using Cons [of "map fst ?new @ seen"] first_of_pid_distinct [of seen "smi_apps (sa_smi_apps s u)"]
    by (auto simp: distinct_append)
  then show ?case by simp
qed simp

lemma distinct_places: "distinct (map p_pid ps) \<Longrightarrow> distinct (map place ps)"
  by (auto simp: distinct_map inj_on_def place_def)

text \<open>No process is counted twice on a GPU. Without NVML, and with it as long as every device could be opened and
  the devices have different identifiers, a pair of a GPU and a process occurs at most once among the GPU
  processes of a report, however often the driver lists it.\<close>

lemma gpu_processes_counted_once:
  assumes "sa_nvml s = None \<or> sa_nvml s = Some None \<or>
     (\<exists>ds. sa_nvml s = Some (Some ds) \<and> (\<forall>d \<in> set ds. nv_open d) \<and> distinct (map device_uuid ds))"
  shows "distinct (map place (collect_gpu_processes details s))"
proof -
  have "distinct (map place (collect_gpu_processes_fallback s))"
    using smi_processes_distinct [of s "[]"]
    by (auto simp: collect_gpu_processes_fallback_def intro!: distinct_places split: smi.split)
  moreover have "distinct (map place (snd (nvml_processes s ds))) \<and> fst (nvml_processes s ds)"
    if "\<forall>d \<in> set ds. nv_open d" "distinct (map device_uuid ds)" for ds
    using nvml_processes_distinct [OF that] by blast
  ultimately show ?thesis using assms
    by (auto simp: collect_gpu_processes_def split: option.split prod.split bool.split)
      (metis fst_conv snd_conv)+
qed

text \<open>A device that cannot be opened after another was scanned makes the agent keep the first device's processes and
  add those of \<open>nvidia-smi\<close>, which lists them again.\<close>

definition sample_device :: nvml_device where
  "sample_device = \<lparr>nv_open = True, nv_uuid = Some ''g1'', nv_name = None, nv_utilization = None, nv_memory = None,
     nv_temperature = None, nv_power = None, nv_power_limit = None, nv_fan = None, nv_processes = Some [(7, None)],
     nv_samples = None\<rparr>"

definition sample_answers :: sample where
  "sample_answers = \<lparr>sa_now = 0, sa_monotonic_ms = 0, sa_cpus = [], sa_memory = (0, 0), sa_swap = (0, 0), sa_uptime = (0, 0),
     sa_disks = [], sa_loadavg = None, sa_net_dev = None, sa_nvml = None, sa_smi_gpus = SmiMissing,
     sa_smi_uuids = SmiOutput (printed [[show_nat 0, ''g1''], [show_nat 1, ''g2'']]),
     sa_smi_apps = \<lambda>u. SmiOutput (printed [[show_nat 7, show_nat 100]]), sa_processes = [], sa_refreshed = 0,
     sa_status = \<lambda>_. None, sa_cmdline = \<lambda>_. None, sa_user = \<lambda>_. None\<rparr>"

lemma field_names: "field_text ''g1''" "field_text ''g2''" "field_text ''A100''"
  by (simp_all add: field_text_def trim_visible_all visible_ascii_def code_def)

lemma uuid_line_row: "field_text u \<Longrightarrow> uuid_line (comma_row [show_nat i, u]) = Some u"
  using split_row [of "[show_nat i, u]"] by (simp add: uuid_line_def Let_def del: comma_row.simps)

lemma app_line_row:
  assumes "0 < p" "p < 2 ^ 32" "m < 2 ^ 44"
  shows "app_line (comma_row [show_nat p, show_nat m]) = Some (of_nat p, Some (mib (of_nat m)))"
proof -
  have row: "map trim (split_on (CHR '','') (comma_row [show_nat p, show_nat m])) = [show_nat p, show_nat m]"
    by (rule split_row) simp_all
  have "trim (comma_row [show_nat p, show_nat m]) \<noteq> []"
    using show_nat_digits [of p] show_nat_digits [of m] hd_in_set [of "show_nat p"] last_in_set [of "show_nat m"]
    by (subst trim_visible) (auto simp: list_all_iff digit_visible)
  moreover have "parse_u32 (show_nat p) = Some p" using assms(2) by (intro parse_unsigned_show) simp
  moreover have "parse_opt parse_u64 (show_nat m) = Some m"
    using parse_u64_sensor [of "Some m"] assms(3) by (simp add: sensor_text_def del: power_numeral)
  ultimately show ?thesis using assms(1) unfolding app_line_def row by (simp add: Let_def word_field_def)
qed

lemma sample_fallback:
  "smi_apps (sa_smi_apps sample_answers u) = [(7, Some (mib 100))]"
  "map place (collect_gpu_processes_fallback sample_answers) = [(''g1'', 7)]"
proof -
  have apps: "smi_apps (sa_smi_apps sample_answers u) = [(7, Some (mib 100))]" for u
    using app_line_row [of 7 100] lossy_printed [of "[[show_nat 7, show_nat 100]]"]
    by (simp add: smi_apps_def sample_answers_def map_filter_simps del: comma_row.simps)
  have "lines (from_utf8_lossy (printed [[show_nat 0, ''g1''], [show_nat 1, ''g2'']])) =
      map comma_row [[show_nat 0, ''g1''], [show_nat 1, ''g2'']]"
    by (rule lossy_printed) (simp add: field_names)
  then have "collect_gpu_processes_fallback sample_answers = smi_processes sample_answers [] [''g1'', ''g2'']"
    using uuid_line_row [of "''g1''" 0] uuid_line_row [of "''g2''" 1]
    by (simp add: collect_gpu_processes_fallback_def map_filter_simps field_names del: comma_row.simps smi_processes.simps)
      (simp add: sample_answers_def map_filter_simps field_names del: comma_row.simps smi_processes.simps)
  with apps show "map place (collect_gpu_processes_fallback sample_answers) = [(''g1'', 7)]"
    by (simp add: Let_def place_def smi_process_def)
  from apps show "smi_apps (sa_smi_apps sample_answers u) = [(7, Some (mib 100))]" .
qed

lemma failing_device_duplicates:
  "map place (collect_gpu_processes True
     (sample_answers\<lparr>sa_nvml := Some (Some [sample_device, sample_device\<lparr>nv_open := False\<rparr>])\<rparr>)) =
   [(''g1'', 7), (''g1'', 7)]"
proof -
  let ?s = "sample_answers\<lparr>sa_nvml := Some (Some [sample_device, sample_device\<lparr>nv_open := False\<rparr>])\<rparr>"
  have "smi_processes ?s seen us = smi_processes sample_answers seen us" for seen us
    by (induction us arbitrary: seen)
      (simp_all add: Let_def smi_process_def process_user_def process_command_def sample_answers_def read_to_string_def)
  then have "collect_gpu_processes_fallback ?s = collect_gpu_processes_fallback sample_answers"
    by (simp add: collect_gpu_processes_fallback_def split: smi.split)
  moreover have "nvml_processes ?s [sample_device, sample_device\<lparr>nv_open := False\<rparr>] = (False, [nvml_process ?s sample_device (7, None)])"
    by (simp add: sample_device_def)
  ultimately show ?thesis
    using sample_fallback(2) by (simp add: collect_gpu_processes_def nvml_place del: nvml_processes.simps)
      (simp add: device_uuid_def sample_device_def)
qed

text \<open>A process that runs on two GPUs is reported for the first one only without NVML, since the set of seen processes is
  shared by the GPUs.\<close>

lemma second_gpu_of_process_dropped:
  "map fst (smi_apps (sa_smi_apps sample_answers ''g2'')) = [7] \<and>
   map place (collect_gpu_processes True sample_answers) = [(''g1'', 7)]"
  using sample_fallback(1) [of "''g2''"] sample_fallback(2) by (simp add: collect_gpu_processes_def) (simp add: sample_answers_def)

subsection \<open>Concrete collections\<close>

definition sample_gpu_row :: gpu_row where
  "sample_gpu_row = \<lparr>gr_index = 0, gr_uuid = ''g1'', gr_name = ''A100'', gr_utilization_gpu = Some 50,
     gr_utilization_memory = Some 20, gr_memory_total = Some 4, gr_memory_used = None, gr_temperature = None,
     gr_power = None, gr_power_limit = None, gr_fan = None\<rparr>"

lemma sample_gpu_row_ok: "row_ok sample_gpu_row"
  by (simp add: row_ok_def sample_gpu_row_def field_names)



theorem largest_processes_reported_witness:
  "map sp_pid (fst (collect_system_processes (sample_answers\<lparr>sa_refreshed := 2, sa_processes := [(Fin 1, 5, 0), (Fin 9, 6, 0)]\<rparr>)
     \<lparr>co_prev_network = None, co_baseline = True\<rparr>)) = [6, 5]"
proof -
  let ?s = "sample_answers\<lparr>sa_refreshed := 2, sa_processes := [(Fin 1, 5, 0), (Fin 9, 6, 0)]\<rparr>"
  let ?c = "\<lparr>co_prev_network = None, co_baseline = True\<rparr>"
  obtain ps c' where r: "collect_system_processes ?s ?c = (ps, c')" by (cases "collect_system_processes ?s ?c")
  have "sa_refreshed ?s \<noteq> 0" by simp
  from largest_processes_reported [OF this r] obtain rest where
    all: "mset (map (\<lambda>p. (sp_cpu_percent p, sp_pid p, sp_memory_bytes p)) ps) + mset rest = {#(Fin 1, 5, 0), (Fin 9, 6, 0)#}"
      "length ps = 2" "sorted_wrt (\<ge>) (map sp_cpu_percent ps)" by auto
  from all(2) obtain p q where ps: "ps = [p, q]" by (auto simp: numeral_2_eq_2 length_Suc_conv)
  have "size (mset (map (\<lambda>p. (sp_cpu_percent p, sp_pid p, sp_memory_bytes p)) ps) + mset rest) = 2" unfolding all(1) by simp
  then have "rest = []" unfolding ps by simp
  with all(1) have "set_mset {#(sp_cpu_percent p, sp_pid p, sp_memory_bytes p), (sp_cpu_percent q, sp_pid q, sp_memory_bytes q)#} =
      set_mset {#(Fin 1, 5, 0), (Fin 9, 6, 0 :: u64)#}" unfolding ps by (simp del: set_mset_add_mset_insert)
  then have "(sp_cpu_percent p = Fin 9 \<and> sp_pid p = 6 \<and> sp_pid q = 5) \<or> (sp_cpu_percent p = Fin 1 \<and> sp_cpu_percent q = Fin 9)"
    by (auto simp: doubleton_eq_iff)
  moreover have "\<not> Fin 9 \<le> Fin 1" by (simp add: less_eq_f64_def less_f64_def)
  ultimately show ?thesis using all(3) r unfolding ps by auto
qed

definition sample_fields :: "nat \<Rightarrow> string list" where
  "sample_fields sent = ''eth0:'' # replicate 8 (show_nat 1) @ show_nat sent # replicate 7 (show_nat 2)"

definition sample_net :: "nat \<Rightarrow> string" where
  "sample_net sent = [CHR 0x0A, CHR 0x0A] @ concat (map (\<lambda>f. CHR '' '' # f) (sample_fields sent)) @ [CHR 0x0A]"

lemma sample_fields_visible: "\<forall>f \<in> set (sample_fields sent). f \<noteq> [] \<and> list_all visible_ascii f"
  using show_nat_digits show_nat_visible by (auto simp: sample_fields_def visible_ascii_def code_def simp del: replicate.simps)

lemma printable_spaced: "\<forall>f \<in> set fs. list_all visible_ascii f \<Longrightarrow> printable (concat (map (\<lambda>f. CHR '' '' # f) fs))"
proof (induction fs)
  case (Cons f fs)
  then have "printable f" by (auto simp: printable_def list_all_iff visible_ascii_def)
  with Cons show ?case by simp (simp add: printable_def code_def)
qed (simp add: printable_def)

lemma sample_fields_nth:
  "length (sample_fields sent) = 17" "sample_fields sent ! 0 = ''eth0:''" "sample_fields sent ! 1 = show_nat 1"
  "sample_fields sent ! 2 = show_nat 1" "sample_fields sent ! 9 = show_nat sent" "sample_fields sent ! 10 = show_nat 2"
  by (simp_all add: sample_fields_def nth_append del: replicate.simps)

lemma sample_interfaces:
  assumes "sent < 2 ^ 64"
  shows "read_network_stats (Some (sample_net sent)) =
     [(''eth0'', \<lparr>ns_sent = of_nat sent, ns_recv = 1, ns_packets_sent = 2, ns_packets_recv = 1\<rparr>)]"
proof -
  let ?line = "concat (map (\<lambda>f. CHR '' '' # f) (sample_fields sent))"
  have nl: "printable ?line"
    using sample_fields_visible [of sent] by (intro printable_spaced) simp
  have out: "sample_net sent = CHR 0x0A # CHR 0x0A # ?line @ CHR 0x0A # []" by (simp add: sample_net_def)
  have empty: "lines (CHR 0x0A # s) = [] # lines s" for s using printable_lines [of "[]" s] by (simp add: printable_def)
  have "lines [] = []" by (simp add: lines_def)
  with printable_lines [OF nl, of "[]"] have "lines (?line @ [CHR 0x0A]) = [?line]" by simp
  then have ls: "drop 2 (lines (sample_net sent)) = [?line]" unfolding out by (simp add: empty)
  have "list_all (\<lambda>c. code c < 128) (sample_net sent)"
    using printable_ascii [OF nl] unfolding out by simp (simp add: code_def)
  from valid_utf8_ascii [OF this, of "[]"] have valid: "valid_utf8 (sample_net sent)" by simp
  have words: "split_whitespace ?line = sample_fields sent"
    using split_fields_tail [OF sample_fields_visible, of "[]"] by simp
  have number: "parse_u64 (show_nat n) = Some n" if "n < 2 ^ 64" for n using that by (intro parse_unsigned_show) simp
  have colon: "trim_end_colons ''eth0:'' = ''eth0''" by (simp add: trim_end_colons_def)
  have "interface_line ?line = Some (''eth0'', \<lparr>ns_sent = of_nat sent, ns_recv = 1, ns_packets_sent = 2, ns_packets_recv = 1\<rparr>)"
    using number [OF assms] number [of 1] number [of 2]
    by (simp only: interface_line_def words Let_def sample_fields_nth colon) (simp add: or_zero_def)
  with ls valid show ?thesis by (simp add: read_network_stats_def read_to_string_def)
qed

theorem rates_between_collections_witness:
  "net_tx_rate (hd (fst (collect_network (sample_answers\<lparr>sa_now := 2000000, sa_net_dev := Some (sample_net 5)\<rparr>)
     (snd (collect_network (sample_answers\<lparr>sa_net_dev := Some (sample_net 9)\<rparr>) collector_new))))) = Some (Fin 0)"
proof -
  let ?s = "sample_answers\<lparr>sa_net_dev := Some (sample_net 9)\<rparr>"
    and ?s' = "sample_answers\<lparr>sa_now := 2000000, sa_net_dev := Some (sample_net 5)\<rparr>"
  let ?c = "snd (collect_network ?s collector_new)"
  have stats: "read_network_stats (sa_net_dev ?s) =
        [(''eth0'', \<lparr>ns_sent = 9, ns_recv = 1, ns_packets_sent = 2, ns_packets_recv = 1\<rparr>)]"
      "read_network_stats (sa_net_dev ?s') =
        [(''eth0'', \<lparr>ns_sent = 5, ns_recv = 1, ns_packets_sent = 2, ns_packets_recv = 1\<rparr>)]"
    using sample_interfaces [of 9] sample_interfaces [of 5] by simp_all
  obtain m where ms: "fst (collect_network ?s' ?c) = [m]" "net_interface_name m = ''eth0''" "net_bytes_sent m = 5"
    unfolding collect_network_def [of ?s'] Let_def stats by (simp add: measure_network_def Let_def)
  then have "m \<in> set (fst (collect_network ?s' ?c))" by simp
  from rates_between_collections [OF refl this refl] show ?thesis
    unfolding ms stats by (auto simp: kget_def sample_answers_def timestamp_millis_def)
qed

end
