(* ===== verification/Shell.thy ===== *)
theory Shell
  imports Rust_Text
begin

text \<open>
  The quoting of shell words, \<open>shell_quote\<close> of \<open>crates/server/src/install.rs\<close>, against the reading of a command
  line by a POSIX shell: a specification of the tokens of a simple command line, for the fragment the sources
  use. Unquoted characters the shell gives another meaning are outside of it.
\<close>

definition shell_quote :: "string \<Rightarrow> string" where
  "shell_quote value =
     [CHR 0x27] @ concat (map (\<lambda>c. if c = CHR 0x27 then [CHR 0x27, CHR 0x5C, CHR 0x27, CHR 0x27] else [c]) value) @ [CHR 0x27]"

subsection \<open>Tokens of a command line\<close>

datatype token = Word string | AndIf | Newline

text \<open>\<open>w\<close> is the word being read, if one has begun; \<open>q\<close> tells whether a single quote is open.\<close>

definition flush :: "string option \<Rightarrow> token list \<Rightarrow> token list" where
  "flush w ts = (case w of None \<Rightarrow> ts | Some v \<Rightarrow> Word v # ts)"

definition word_more :: "string option \<Rightarrow> string \<Rightarrow> string option" where
  "word_more w s = Some ((case w of None \<Rightarrow> [] | Some v \<Rightarrow> v) @ s)"

definition shell_special :: "char \<Rightarrow> bool" where
  "shell_special c \<longleftrightarrow> c \<in> set ''$`|;<>()*?[]#~!{}'' \<or> c = CHR 0x22 \<or> c = CHR 0x00"

fun tokens :: "bool \<Rightarrow> string option \<Rightarrow> string \<Rightarrow> token list option" where
  "tokens True w [] = None"
| "tokens True w (c # s) = (if c = CHR 0x27 then tokens False w s else tokens True (word_more w [c]) s)"
| "tokens False w [] = Some (flush w [])"
| "tokens False w (c # s) =
     (if c = CHR 0x27 then tokens True (word_more w []) s
      else if c = CHR 0x5C then
        (case s of [] \<Rightarrow> None | d # s' \<Rightarrow> if d = CHR 0x0A then tokens False w s' else tokens False (word_more w [d]) s')
      else if c = CHR '' '' \<or> c = CHR 0x09 then map_option (flush w) (tokens False None s)
      else if c = CHR 0x0A then map_option (\<lambda>ts. flush w (Newline # ts)) (tokens False None s)
      else if c = CHR ''&'' then
        (case s of d # s' \<Rightarrow> if d = CHR ''&'' then map_option (\<lambda>ts. flush w (AndIf # ts)) (tokens False None s') else None
         | [] \<Rightarrow> None)
      else if shell_special c then None
      else tokens False (word_more w [c]) s)"

definition shell_tokens :: "string \<Rightarrow> token list option" where
  "shell_tokens s = tokens False None s"

lemma word_more_more [simp]: "word_more (word_more w a) b = word_more w (a @ b)"
  by (simp add: word_more_def)

lemma flush_more [simp]: "flush (word_more None s) ts = Word s # ts"
  by (simp add: flush_def word_more_def)

lemma flush_None [simp]: "flush None ts = ts"
  by (simp add: flush_def)

text \<open>Inside the quotes, the encoded value is read back and the closing quote ends it.\<close>

lemma tokens_in_quotes:
  "tokens True w (concat (map (\<lambda>c. if c = CHR 0x27 then [CHR 0x27, CHR 0x5C, CHR 0x27, CHR 0x27] else [c]) value) @
      CHR 0x27 # s) = tokens False (if value = [] then w else word_more w value) s"
proof (induction "value" arbitrary: w)
  case (Cons c v)
  then show ?case by (cases "v = []") (auto simp: word_more_def)
qed simp

lemma tokens_quote [simp]: "tokens False w (shell_quote value @ s) = tokens False (word_more w value) s"
  by (simp add: shell_quote_def tokens_in_quotes)

lemma tokens_quote_end [simp]: "tokens False w (shell_quote value) = Some (flush (word_more w value) [])"
  using tokens_quote [of w "value" "[]"] by simp

end
