(* ===== verification/Installer.thy ===== *)
theory Installer
  imports Shell Paths Agent_Client Config
begin

text \<open>
  The onboarding of a node over SSH, \<open>crates/server/src/install.rs\<close>: the checks of the request, the commands and
  files the server sends to the new node, and the answer.

  The network and the node are an argument, \<open>world\<close>. What a command does is an arbitrary function of everything
  sent before it and of the command itself, so nothing is assumed of the node. The error messages are the
  constructors of \<open>install_error\<close>, with the values they are formatted from.
\<close>

subsection \<open>The request\<close>

record install_request =
  rq_username :: string
  rq_host :: string
  rq_password :: string
  rq_port :: u16
  rq_node_id :: string
  rq_server_addr :: string

text \<open>How far the channel of a command came: the step that failed, or the exit status and the output.\<close>

datatype channel_result =
  NoChannel | NoMerge | NotStarted string | NotSent | NoEof | NotRead | NotClosed string | NoStatus string | Exited int string

datatype sftp_result = NoSftp | NotCreated string | NotWritten | NotFinished | Uploaded

datatype install_error =
  UsernameEmpty | UsernameBlank | HostEmpty | HostBlank | PasswordEmpty | NodeIdInvalid
| AddrEmpty | AddrBlank | AddrMalformed
| ExeUnknown string | ExeNotClusterscope | BinaryUnreadable string
| Unresolved string string | NoAddress string | Unreachable string u16 string
| NoSession | HandshakeFailed string string | LoginFailed
| HomeAbnormal | ArchUnsupported string | HostnameEmpty | ConfigUnprintable string
| CommandFailed channel_result | ScriptFailed channel_result | UploadFailed sftp_result

definition error_status :: "install_error \<Rightarrow> nat" where
  "error_status e =
     (case e of
        ExeUnknown _ \<Rightarrow> 500 | ExeNotClusterscope \<Rightarrow> 500 | BinaryUnreadable _ \<Rightarrow> 500 | NoSession \<Rightarrow> 500 | ConfigUnprintable _ \<Rightarrow> 500
      | UsernameEmpty \<Rightarrow> 400 | UsernameBlank \<Rightarrow> 400 | HostEmpty \<Rightarrow> 400 | HostBlank \<Rightarrow> 400 | PasswordEmpty \<Rightarrow> 400
      | NodeIdInvalid \<Rightarrow> 400 | AddrEmpty \<Rightarrow> 400 | AddrBlank \<Rightarrow> 400 | AddrMalformed \<Rightarrow> 400
      | _ \<Rightarrow> 502)"

definition DEFAULT_SSH_PORT :: u16 where "DEFAULT_SSH_PORT = 22"

text \<open>\<open>chars().any(..)\<close> over the encoded text: an encoding of a white-space character, or of a control
  character (U+0000 to U+001F, U+007F to U+009F), begins somewhere.\<close>

fun has_white_space :: "string \<Rightarrow> bool" where
  "has_white_space [] = False"
| "has_white_space (c # s) = (match_any utf8_white_space (c # s) \<noteq> 0 \<or> has_white_space s)"

fun has_control :: "string \<Rightarrow> bool" where
  "has_control [] = False"
| "has_control (c # s) =
     (code c < 32 \<or> code c = 127 \<or>
      (c = CHR 0xC2 \<and> (case s of [] \<Rightarrow> False | d # _ \<Rightarrow> 128 \<le> code d \<and> code d < 160)) \<or> has_control s)"

definition blank_or_control :: "string \<Rightarrow> bool" where
  "blank_or_control s \<longleftrightarrow> has_white_space s \<or> has_control s"

text \<open>\<open>uri_ok\<close> is the parser of the \<open>http\<close> crate.\<close>

definition normalize_server_addr :: "(string \<Rightarrow> bool) \<Rightarrow> string \<Rightarrow> install_error + string" where
  "normalize_server_addr uri_ok raw =
     (let addr = trim raw
      in if addr = [] then Inl AddrEmpty
         else if blank_or_control addr then Inl AddrBlank
         else let with_scheme = if starts_with addr ''http://'' \<or> starts_with addr ''https://'' then addr else ''http://'' @ addr
              in if uri_ok with_scheme then Inr with_scheme else Inl AddrMalformed)"

definition validate :: "(string \<Rightarrow> bool) \<Rightarrow> install_request \<Rightarrow> install_error + install_request" where
  "validate uri_ok request =
     (let username = trim (rq_username request); host = trim (rq_host request); node_id = trim (rq_node_id request)
      in if username = [] then Inl UsernameEmpty
         else if blank_or_control username then Inl UsernameBlank
         else if host = [] then Inl HostEmpty
         else if blank_or_control host then Inl HostBlank
         else if rq_password request = [] then Inl PasswordEmpty
         else if 255 < length node_id \<or> blank_or_control node_id then Inl NodeIdInvalid
         else case normalize_server_addr uri_ok (rq_server_addr request) of
                Inl e \<Rightarrow> Inl e
              | Inr addr \<Rightarrow>
                  Inr \<lparr>rq_username = username, rq_host = host, rq_password = rq_password request,
                       rq_port = (if rq_port request = 0 then DEFAULT_SSH_PORT else rq_port request),
                       rq_node_id = node_id, rq_server_addr = addr\<rparr>)"

subsection \<open>The node\<close>

datatype action = Ran string | Ran_script string | Stored string string

record world =
  w_resolve :: "string \<Rightarrow> u16 \<Rightarrow> string + string list"
  w_connect :: "string \<Rightarrow> string option"
  w_session :: bool
  w_handshake :: "string option"
  w_auth :: "string \<Rightarrow> string \<Rightarrow> bool"
  w_authenticated :: bool
  w_exec :: "action list \<Rightarrow> action \<Rightarrow> channel_result"
  w_sftp :: "action list \<Rightarrow> action \<Rightarrow> sftp_result"

text \<open>\<open>read_to_string\<close> refuses output that is not UTF-8; the first failing step decides.\<close>

definition channel_output :: "channel_result \<Rightarrow> channel_result + string" where
  "channel_output r =
     (case r of
        Exited status out \<Rightarrow>
          if \<not> valid_utf8 out then Inl NotRead else if status \<noteq> 0 then Inl (Exited status (trim out)) else Inr out
      | NotClosed out \<Rightarrow> Inl (if valid_utf8 out then NotClosed [] else NotRead)
      | NoStatus out \<Rightarrow> Inl (if valid_utf8 out then NoStatus [] else NotRead)
      | _ \<Rightarrow> Inl r)"

text \<open>Each operation returns its result and the actions so far.\<close>

definition run :: "world \<Rightarrow> string \<Rightarrow> action list \<Rightarrow> (install_error + string) \<times> action list" where
  "run w command acts =
     (case channel_output (w_exec w acts (Ran command)) of
        Inl e \<Rightarrow> (Inl (CommandFailed e), acts @ [Ran command]) | Inr out \<Rightarrow> (Inr out, acts @ [Ran command]))"

definition exec_script :: "world \<Rightarrow> string \<Rightarrow> action list \<Rightarrow> (install_error + string) \<times> action list" where
  "exec_script w script acts =
     (case channel_output (w_exec w acts (Ran_script script)) of
        Inl e \<Rightarrow> (Inl (ScriptFailed (case e of NotStarted _ \<Rightarrow> NotStarted [] | _ \<Rightarrow> e)), acts @ [Ran_script script])
      | Inr out \<Rightarrow> (Inr out, acts @ [Ran_script script]))"

definition upload :: "world \<Rightarrow> string \<Rightarrow> string \<Rightarrow> action list \<Rightarrow> (install_error + string) \<times> action list" where
  "upload w path bytes acts =
     (case w_sftp w acts (Stored path bytes) of
        Uploaded \<Rightarrow> (Inr [], acts @ [Stored path bytes]) | e \<Rightarrow> (Inl (UploadFailed e), acts @ [Stored path bytes]))"

text \<open>The \<open>?\<close> operator.\<close>

definition bind_step ::
  "(install_error + 'a) \<times> action list \<Rightarrow> ('a \<Rightarrow> action list \<Rightarrow> (install_error + 'b) \<times> action list) \<Rightarrow>
     (install_error + 'b) \<times> action list" where
  "bind_step m f = (case m of (Inl e, acts) \<Rightarrow> (Inl e, acts) | (Inr x, acts) \<Rightarrow> f x acts)"

subsection \<open>The commands\<close>

definition bin_dir :: "string \<Rightarrow> string" where "bin_dir home = home @ ''/.local/bin''"
definition config_dir :: "string \<Rightarrow> string" where "config_dir home = home @ ''/.config/clusterscope''"
definition log_dir :: "string \<Rightarrow> string" where "log_dir home = config_dir home @ ''/logs''"
definition bin_path :: "string \<Rightarrow> string" where "bin_path home = bin_dir home @ ''/clusterscope''"
definition tmp_path :: "string \<Rightarrow> string" where "tmp_path home = bin_path home @ ''.new''"
definition config_path :: "string \<Rightarrow> string" where "config_path home = config_dir home @ ''/agent.yaml''"
definition pid_path :: "string \<Rightarrow> string" where "pid_path home = config_dir home @ ''/agent.pid''"

definition home_command :: string where "home_command = ''printf %s '' @ [CHR 0x22] @ ''$HOME'' @ [CHR 0x22]"

definition mkdir_command :: "string \<Rightarrow> string" where
  "mkdir_command home =
     ''mkdir -p '' @ shell_quote (bin_dir home) @ '' '' @ shell_quote (config_dir home) @ '' '' @ shell_quote (log_dir home)"

definition mv_command :: "string \<Rightarrow> string" where
  "mv_command home =
     ''mv -f '' @ shell_quote (tmp_path home) @ '' '' @ shell_quote (bin_path home) @ '' && chmod 755 '' @
     shell_quote (bin_path home)"

text \<open>The script of the last step, line by line; \<open>Q\<close> is the double quote, \<open>A\<close> the single one.\<close>

definition script_head :: "string \<Rightarrow> string" where
  "script_head home =
     ''set -eu'' @ [CHR 0x0A] @ ''BIN='' @ shell_quote (bin_path home) @ [CHR 0x0A] @
     ''CONF='' @ shell_quote (config_path home) @ [CHR 0x0A] @ ''PIDFILE='' @ shell_quote (pid_path home) @ [CHR 0x0A]"

definition script_body :: "string list" where
  "script_body =
     (let Q = [CHR 0x22]; A = [CHR 0x27]; Z = [CHR 0x5C] @ ''0'';
          exec = Q @ ''$BIN'' @ Q @ '' agent -c '' @ Q @ ''$CONF'' @ Q;
          user = ''$HOME/.config/systemd/user''
      in [[],
          ''stop_previous_agent() {'',
          ''    [ -f '' @ Q @ ''$PIDFILE'' @ Q @ '' ] || return 0'',
          ''    pid='' @ Q @ ''$(cat '' @ Q @ ''$PIDFILE'' @ Q @ '' 2>/dev/null || true)'' @ Q,
          ''    rm -f '' @ Q @ ''$PIDFILE'' @ Q,
          ''    case '' @ Q @ ''$pid'' @ Q @ '' in'',
          ''        '' @ A @ A @ '' | *[!0-9]*) return 0 ;;'',
          ''    esac'',
          ''    [ -r '' @ Q @ ''/proc/$pid/cmdline'' @ Q @ '' ] || return 0'',
          ''    cmdline='' @ Q @ ''$(tr '' @ A @ Z @ A @ '' '' @ A @ '' '' @ A @ '' < '' @ Q @ ''/proc/$pid/cmdline'' @ Q @ '' || true)'' @ Q,
          ''    case '' @ Q @ ''$cmdline'' @ Q @ '' in'',
          ''        *'' @ Q @ ''$BIN'' @ Q @ ''*'' @ Q @ ''$CONF'' @ Q @ ''*) kill '' @ Q @ ''$pid'' @ Q @ '' 2>/dev/null || true ;;'',
          ''    esac'',
          ''}'',
          [],
          ''if command -v systemctl >/dev/null 2>&1 && systemctl --user show-environment >/dev/null 2>&1; then'',
          ''    stop_previous_agent'',
          ''    mkdir -p '' @ Q @ user @ Q,
          ''    cat > '' @ Q @ user @ ''/clusterscope.service'' @ Q @ '' <<SVC'',
          ''[Unit]'',
          ''Description=ClusterScope GPU Agent'',
          ''After=network-online.target'',
          [],
          ''[Service]'',
          ''Type=simple'',
          ''ExecStart='' @ exec,
          ''Restart=always'',
          ''RestartSec=5'',
          [],
          ''[Install]'',
          ''WantedBy=default.target'',
          ''SVC'',
          ''    systemctl --user daemon-reload'',
          ''    systemctl --user enable clusterscope.service'',
          ''    systemctl --user restart clusterscope.service'',
          ''    echo systemd'',
          ''else'',
          ''    stop_previous_agent'',
          ''    mkdir -p '' @ Q @ ''$HOME/.config/clusterscope/logs'' @ Q,
          ''    nohup '' @ exec @ '' >> '' @ Q @ ''$HOME/.config/clusterscope/logs/agent.log'' @ Q @ '' 2>&1 < /dev/null &'',
          ''    echo $! > '' @ Q @ ''$PIDFILE'' @ Q,
          ''    echo nohup'',
          ''fi''])"

definition start_script :: "string \<Rightarrow> string" where
  "start_script home = script_head home @ concat (map (\<lambda>l. l @ [CHR 0x0A]) script_body)"

definition agent_config_for :: "agent_config \<Rightarrow> string \<Rightarrow> string \<Rightarrow> string \<Rightarrow> string \<Rightarrow> agent_config" where
  "agent_config_for defaults home server_addr node_id agent_token =
     defaults\<lparr>ac_server_addr := server_addr, ac_node_id := Some node_id,
        ac_node_id_file := config_dir home @ ''/node_id'', ac_log_dir := log_dir home, ac_report_interval_secs := 2,
        ac_log_level := ''info'', ac_disk_mounts := [''/''], ac_collect_process_details := True,
        ac_agent_token := agent_token\<rparr>"

subsection \<open>The installation\<close>

datatype launcher = Systemd_user | Nohup

record install_response =
  rs_node_id :: string
  rs_via :: launcher

definition launched_by :: "string \<Rightarrow> launcher" where
  "launched_by out = (if list_ex (\<lambda>l. trim l = ''systemd'') (lines (trim out)) then Systemd_user else Nohup)"

definition open_session :: "world \<Rightarrow> install_request \<Rightarrow> install_error option" where
  "open_session w request =
     (case w_resolve w (rq_host request) (rq_port request) of
        Inl e \<Rightarrow> Some (Unresolved (rq_host request) e)
      | Inr [] \<Rightarrow> Some (NoAddress (rq_host request))
      | Inr (address # _) \<Rightarrow>
          (case w_connect w address of
             Some e \<Rightarrow> Some (Unreachable (rq_host request) (rq_port request) e)
           | None \<Rightarrow>
               if \<not> w_session w then Some NoSession
               else case w_handshake w of
                      Some e \<Rightarrow> Some (HandshakeFailed (rq_host request) e)
                    | None \<Rightarrow>
                        if \<not> w_auth w (rq_username request) (rq_password request) then Some LoginFailed
                        else if \<not> w_authenticated w then Some LoginFailed
                        else None))"

text \<open>The steps after the node's answers: directories, binary, configuration and start.\<close>

definition deploy ::
  "world \<Rightarrow> (agent_config \<Rightarrow> string + string) \<Rightarrow> agent_config \<Rightarrow> string \<Rightarrow> string \<Rightarrow> string \<Rightarrow> string \<Rightarrow> string \<Rightarrow>
     action list \<Rightarrow> (install_error + install_response) \<times> action list" where
  "deploy w to_yaml defaults agent_bytes agent_token server_addr home node_id acts =
     bind_step (run w (mkdir_command home) acts) (\<lambda>_ acts.
     bind_step (upload w (tmp_path home) agent_bytes acts) (\<lambda>_ acts.
     bind_step (run w (mv_command home) acts) (\<lambda>_ acts.
     case to_yaml (agent_config_for defaults home server_addr node_id agent_token) of
       Inl e \<Rightarrow> (Inl (ConfigUnprintable e), acts)
     | Inr yaml \<Rightarrow>
         bind_step (upload w (config_path home) yaml acts) (\<lambda>_ acts.
         bind_step (exec_script w (start_script home) acts) (\<lambda>out acts.
           (Inr \<lparr>rs_node_id = node_id, rs_via = launched_by out\<rparr>, acts))))))"

text \<open>The steps that ask the node for its name, its architecture and its home directory, in reverse.\<close>

definition name_node ::
  "world \<Rightarrow> (agent_config \<Rightarrow> string + string) \<Rightarrow> agent_config \<Rightarrow> install_request \<Rightarrow> string \<Rightarrow> string \<Rightarrow> string \<Rightarrow>
     action list \<Rightarrow> (install_error + install_response) \<times> action list" where
  "name_node w to_yaml defaults request agent_bytes agent_token home acts =
     bind_step (run w ''hostname'' acts) (\<lambda>out acts.
       let hostname = trim out
       in if hostname = [] then (Inl HostnameEmpty, acts)
          else deploy w to_yaml defaults agent_bytes agent_token (rq_server_addr request) home
                 (if rq_node_id request = [] then hostname else rq_node_id request) acts)"

definition check_arch ::
  "world \<Rightarrow> (agent_config \<Rightarrow> string + string) \<Rightarrow> agent_config \<Rightarrow> install_request \<Rightarrow> string \<Rightarrow> string \<Rightarrow> string \<Rightarrow>
     action list \<Rightarrow> (install_error + install_response) \<times> action list" where
  "check_arch w to_yaml defaults request agent_bytes agent_token home acts =
     bind_step (run w ''uname -m'' acts) (\<lambda>out acts.
       let arch = trim out
       in if arch \<noteq> ''x86_64'' then (Inl (ArchUnsupported arch), acts)
          else name_node w to_yaml defaults request agent_bytes agent_token home acts)"

definition install_blocking ::
  "world \<Rightarrow> (agent_config \<Rightarrow> string + string) \<Rightarrow> agent_config \<Rightarrow> install_request \<Rightarrow> string \<Rightarrow> string \<Rightarrow>
     (install_error + install_response) \<times> action list" where
  "install_blocking w to_yaml defaults request agent_bytes agent_token =
     (case open_session w request of
        Some e \<Rightarrow> (Inl e, [])
      | None \<Rightarrow>
          bind_step (run w home_command []) (\<lambda>out acts.
            let home = trim out
            in if \<not> starts_with home ''/'' \<or> CHR 0x0A \<in> set home then (Inl HomeAbnormal, acts)
               else check_arch w to_yaml defaults request agent_bytes agent_token home acts))"

definition agent_binary_path :: "string + string \<Rightarrow> install_error + string" where
  "agent_binary_path current_exe =
     (case current_exe of
        Inl e \<Rightarrow> Inl (ExeUnknown e)
      | Inr exe \<Rightarrow> if file_name exe \<noteq> Some ''clusterscope'' then Inl ExeNotClusterscope else Inr exe)"

text \<open>The handler. \<open>read_file\<close> is the local file system.\<close>

definition install_agent ::
  "world \<Rightarrow> (string \<Rightarrow> bool) \<Rightarrow> (string + string) \<Rightarrow> (string \<Rightarrow> string + string) \<Rightarrow> (agent_config \<Rightarrow> string + string) \<Rightarrow>
     agent_config \<Rightarrow> server_config \<Rightarrow> install_request \<Rightarrow> (install_error + install_response) \<times> action list" where
  "install_agent w uri_ok current_exe read_file to_yaml defaults config request =
     (case validate uri_ok request of
        Inl e \<Rightarrow> (Inl e, [])
      | Inr request \<Rightarrow>
          (case agent_binary_path current_exe of
             Inl e \<Rightarrow> (Inl e, [])
           | Inr path \<Rightarrow>
               (case read_file path of
                  Inl e \<Rightarrow> (Inl (BinaryUnreadable e), [])
                | Inr bytes \<Rightarrow> install_blocking w to_yaml defaults request bytes (sc_agent_token config))))"

subsection \<open>Properties\<close>

lemmas paths = bin_dir_def config_dir_def log_dir_def bin_path_def tmp_path_def config_path_def pid_path_def

text \<open>C28. No directory name can break out of the commands of the installer. Whatever home directory the node reports,
  with spaces, quotes, newlines or operators in it, the shell reads the two commands and the assignments at the
  head of the script as exactly the intended words, with each path as one word.\<close>

theorem paths_stay_single_words:
  "shell_tokens (mkdir_command home) =
     Some [Word ''mkdir'', Word ''-p'', Word (bin_dir home), Word (config_dir home), Word (log_dir home)] \<and>
   shell_tokens (mv_command home) =
     Some [Word ''mv'', Word ''-f'', Word (tmp_path home), Word (bin_path home), AndIf,
           Word ''chmod'', Word ''755'', Word (bin_path home)] \<and>
   shell_tokens (script_head home) =
     Some [Word ''set'', Word ''-eu'', Newline, Word (''BIN='' @ bin_path home), Newline,
           Word (''CONF='' @ config_path home), Newline, Word (''PIDFILE='' @ pid_path home), Newline]"
  by (simp add: shell_tokens_def mkdir_command_def mv_command_def script_head_def shell_special_def)

text \<open>The actions of an installation, in their order, up to the step that failed.\<close>

definition plan :: "string \<Rightarrow> string \<Rightarrow> string \<Rightarrow> action list" where
  "plan home agent_bytes yaml =
     [Ran home_command, Ran ''uname -m'', Ran ''hostname'', Ran (mkdir_command home), Stored (tmp_path home) agent_bytes,
      Ran (mv_command home), Stored (config_path home) yaml, Ran_script (start_script home)]"

lemma run_acts: "snd (run w command acts) = acts @ [Ran command]"
  by (simp add: run_def split: sum.split)

lemma exec_script_acts: "snd (exec_script w script acts) = acts @ [Ran_script script]"
  by (simp add: exec_script_def split: sum.split)

lemma upload_acts: "snd (upload w path bytes acts) = acts @ [Stored path bytes]"
  by (simp add: upload_def split: sftp_result.split)

text \<open>A computation that starts after \<open>k\<close> actions of the plan \<open>P\<close> performs the next ones, stops anywhere among
  them, in a place \<open>c\<close> allows, and succeeds only at the end.\<close>

definition progress ::
  "action list \<Rightarrow> (nat \<Rightarrow> bool) \<Rightarrow> string \<Rightarrow> nat \<Rightarrow> action list \<Rightarrow> (install_error + install_response) \<times> action list \<Rightarrow> bool" where
  "progress P c node_id k acts m \<longleftrightarrow>
     (\<exists>n. k + n \<le> length P \<and> snd m = acts @ take n (drop k P) \<and> c (k + n) \<and>
       (\<forall>r. fst m = Inr r \<longrightarrow> k + n = length P \<and> rs_node_id r = node_id))"

lemma progress_stop: "c k \<Longrightarrow> k \<le> length P \<Longrightarrow> progress P c node_id k acts (Inl e, acts)"
  unfolding progress_def by (rule exI [of _ 0]) simp

lemma progress_end: "c (length P) \<Longrightarrow> rs_node_id r = node_id \<Longrightarrow> progress P c node_id (length P) acts (Inr r, acts)"
  unfolding progress_def by (rule exI [of _ 0]) simp

lemma progress_bind:
  assumes "k < length P" "snd m = acts @ [P ! k]" "c (Suc k)"
    and more: "\<And>x. fst m = Inr x \<Longrightarrow> progress P c node_id (Suc k) (acts @ [P ! k]) (f x (acts @ [P ! k]))"
  shows "progress P c node_id k acts (bind_step m f)"
proof (cases "fst m")
  case (Inl e)
  then have "bind_step m f = (Inl e, acts @ [P ! k])" using assms(2) by (cases m) (simp add: bind_step_def)
  then show ?thesis
    unfolding progress_def using assms(1,3) by (intro exI [of _ 1]) (simp add: take_Suc_conv_app_nth hd_drop_conv_nth take_Suc)
next
  case (Inr x)
  then have "bind_step m f = f x (acts @ [P ! k])" using assms(2) by (cases m) (simp add: bind_step_def)
  moreover from more [OF Inr] obtain n where "Suc k + n \<le> length P" "c (Suc k + n)"
      "snd (f x (acts @ [P ! k])) = (acts @ [P ! k]) @ take n (drop (Suc k) P)"
      "\<forall>r. fst (f x (acts @ [P ! k])) = Inr r \<longrightarrow> Suc k + n = length P \<and> rs_node_id r = node_id"
    unfolding progress_def by blast
  ultimately show ?thesis
    unfolding progress_def using assms(1) by (intro exI [of _ "Suc n"]) (simp add: Cons_nth_drop_Suc [symmetric])
qed

lemma plan_length [simp]: "length (plan home bytes yaml) = 8"
  by (simp add: plan_def)

lemma plan_at:
  "plan home bytes yaml ! 0 = Ran home_command" "plan home bytes yaml ! 1 = Ran ''uname -m''"
  "plan home bytes yaml ! 2 = Ran ''hostname''" "plan home bytes yaml ! 3 = Ran (mkdir_command home)"
  "plan home bytes yaml ! 4 = Stored (tmp_path home) bytes" "plan home bytes yaml ! 5 = Ran (mv_command home)"
  "plan home bytes yaml ! 6 = Stored (config_path home) yaml" "plan home bytes yaml ! 7 = Ran_script (start_script home)"
  by (simp_all add: plan_def)

definition stage :: "(agent_config \<Rightarrow> string + string) \<Rightarrow> agent_config \<Rightarrow> string \<Rightarrow> string \<Rightarrow> nat \<Rightarrow> bool" where
  "stage to_yaml c home yaml j \<longleftrightarrow>
     (3 < j \<longrightarrow> starts_with home ''/'' \<and> CHR 0x0A \<notin> set home \<and> ac_node_id c \<noteq> Some []) \<and> (6 < j \<longrightarrow> to_yaml c = Inr yaml)"

lemma deploy_progress:
  assumes "starts_with home ''/''" "CHR 0x0A \<notin> set home" "node_id \<noteq> []"
    and yaml: "case to_yaml (agent_config_for defaults home addr node_id token) of Inl e \<Rightarrow> True | Inr y \<Rightarrow> y = yaml"
  shows "progress (plan home bytes yaml) (stage to_yaml (agent_config_for defaults home addr node_id token) home yaml)
     node_id 3 acts (deploy w to_yaml defaults bytes token addr home node_id acts)"
proof -
  let ?P = "plan home bytes yaml" and ?c = "stage to_yaml (agent_config_for defaults home addr node_id token) home yaml"
  have early: "?c k" if "k < 7" for k using that assms by (simp add: stage_def agent_config_for_def)
  have late: "?c k" if "to_yaml (agent_config_for defaults home addr node_id token) = Inr yaml" for k
    using that assms by (simp add: stage_def) (simp add: agent_config_for_def)
  show ?thesis unfolding deploy_def
    apply (rule progress_bind, simp, simp add: run_acts plan_at, simp add: early)
    apply (rule progress_bind, simp, simp add: upload_acts plan_at, simp add: early)
    apply (rule progress_bind, simp, simp add: run_acts plan_at, simp add: early)
    apply (cases "to_yaml (agent_config_for defaults home addr node_id token)")
     apply (simp add: progress_stop early)
    apply (use yaml in simp)
    apply (rule progress_bind, simp, simp add: upload_acts plan_at, simp add: late)
    apply (rule progress_bind, simp, simp add: exec_script_acts plan_at, simp add: late)
    apply (use progress_end [where P = ?P and c = ?c] late in simp)
    done
qed

definition installs :: "(agent_config \<Rightarrow> string + string) \<Rightarrow> agent_config \<Rightarrow> install_request \<Rightarrow> string \<Rightarrow> string \<Rightarrow>
    string \<Rightarrow> nat \<Rightarrow> action list \<Rightarrow> (install_error + install_response) \<times> action list \<Rightarrow> bool" where
  "installs to_yaml defaults request bytes token home k acts m \<longleftrightarrow>
     (\<exists>node_id yaml.
        progress (plan home bytes yaml)
          (stage to_yaml (agent_config_for defaults home (rq_server_addr request) node_id token) home yaml) node_id k acts m \<and>
        (rq_node_id request \<noteq> [] \<longrightarrow> node_id = rq_node_id request))"

lemma name_node_installs:
  assumes "starts_with home ''/''" "CHR 0x0A \<notin> set home"
  shows "installs to_yaml defaults request bytes token home 2 acts
     (name_node w to_yaml defaults request bytes token home acts)"
proof -
  define node_id where "node_id = (if rq_node_id request = []
      then (case fst (run w ''hostname'' acts) of Inl e \<Rightarrow> [] | Inr out \<Rightarrow> trim out) else rq_node_id request)"
  let ?config = "agent_config_for defaults home (rq_server_addr request) node_id token"
  define yaml where "yaml = (case to_yaml ?config of Inl e \<Rightarrow> [] | Inr y \<Rightarrow> y)"
  have "progress (plan home bytes yaml) (stage to_yaml ?config home yaml) node_id 2 acts
      (name_node w to_yaml defaults request bytes token home acts)"
    unfolding name_node_def
  proof (rule progress_bind, simp, simp add: run_acts plan_at, use assms in \<open>simp add: stage_def\<close>, goal_cases)
    case (1 out)
    then have "node_id = (if rq_node_id request = [] then trim out else rq_node_id request)" by (simp add: node_id_def)
    then show ?case
      using deploy_progress [of home node_id yaml to_yaml defaults "rq_server_addr request" token bytes
          "acts @ [plan home bytes yaml ! 2]" w] assms
      by (auto simp: Let_def yaml_def stage_def intro!: progress_stop split: sum.split)
  qed
  then show ?thesis unfolding installs_def by (intro exI [of _ node_id] exI [of _ yaml]) (simp add: node_id_def)
qed

lemma installs_bind:
  assumes "k \<le> 1" "snd m = acts @ [plan home [] [] ! k]"
    and more: "\<And>x. fst m = Inr x \<Longrightarrow> installs to_yaml defaults request bytes token home (Suc k) (acts @ [plan home [] [] ! k])
        (f x (acts @ [plan home [] [] ! k]))"
  shows "installs to_yaml defaults request bytes token home k acts (bind_step m f)"
proof -
  have same: "plan home bytes yaml ! k = plan home [] [] ! k" for yaml using assms(1) by (cases k) (auto simp: plan_def)
  have "\<exists>node_id yaml. (\<forall>x. fst m = Inr x \<longrightarrow> progress (plan home bytes yaml)
          (stage to_yaml (agent_config_for defaults home (rq_server_addr request) node_id token) home yaml) node_id (Suc k)
          (acts @ [plan home [] [] ! k]) (f x (acts @ [plan home [] [] ! k]))) \<and>
        (rq_node_id request \<noteq> [] \<longrightarrow> node_id = rq_node_id request)"
    using more by (cases "fst m") (auto simp: installs_def)
  then obtain node_id yaml where step: "\<And>x. fst m = Inr x \<Longrightarrow> progress (plan home bytes yaml)
          (stage to_yaml (agent_config_for defaults home (rq_server_addr request) node_id token) home yaml) node_id (Suc k)
          (acts @ [plan home [] [] ! k]) (f x (acts @ [plan home [] [] ! k]))"
      and named: "rq_node_id request \<noteq> [] \<longrightarrow> node_id = rq_node_id request" by blast
  have "progress (plan home bytes yaml)
      (stage to_yaml (agent_config_for defaults home (rq_server_addr request) node_id token) home yaml) node_id k acts
      (bind_step m f)"
    by (rule progress_bind) (use assms(1,2) step same in \<open>auto simp: stage_def\<close>)
  with named show ?thesis unfolding installs_def by blast
qed

lemma installs_stop:
  assumes "k \<le> 3"
  shows "installs to_yaml defaults request bytes token home k acts (Inl e, acts)"
  unfolding installs_def
  by (rule exI [of _ "rq_node_id request"], rule exI [of _ "[]"]) (use assms in \<open>auto simp: stage_def intro!: progress_stop\<close>)

lemma check_arch_installs:
  assumes "starts_with home ''/''" "CHR 0x0A \<notin> set home"
  shows "installs to_yaml defaults request bytes token home 1 acts
     (check_arch w to_yaml defaults request bytes token home acts)"
  unfolding check_arch_def
proof (rule installs_bind, simp, simp add: run_acts plan_def, goal_cases)
  case (1 out)
  then show ?case
    using name_node_installs [OF assms, of to_yaml defaults request bytes token "acts @ [plan home [] [] ! 1]" w]
    by (simp add: Let_def installs_stop numeral_2_eq_2)
qed

lemma install_blocking_installs:
  assumes "open_session w request = None"
  shows "\<exists>home. installs to_yaml defaults request bytes token home 0 []
     (install_blocking w to_yaml defaults request bytes token)"
proof -
  define home where "home = (case fst (run w home_command []) of Inl e \<Rightarrow> [] | Inr out \<Rightarrow> trim out)"
  have "installs to_yaml defaults request bytes token home 0 [] (install_blocking w to_yaml defaults request bytes token)"
    unfolding install_blocking_def assms option.case
  proof (rule installs_bind, simp, simp add: run_acts plan_at, goal_cases)
    case (1 out)
    then have "home = trim out" by (simp add: home_def)
    then show ?case
      using check_arch_installs [of home to_yaml defaults request bytes token "[plan home [] [] ! 0]" w]
      by (auto simp: Let_def installs_stop)
  qed
  then show ?thesis by blast
qed

lemma open_session_auth:
  assumes "open_session w request = None"
  shows "w_auth w (rq_username request) (rq_password request) \<and> w_authenticated w"
  using assms by (auto simp: open_session_def split: sum.splits list.splits option.splits if_splits)


text \<open>C38. The password of the request goes nowhere but into the login: two requests that differ in it only, and that
  the node accepts or refuses alike, send the same commands and files and get the same answer.\<close>

theorem password_is_not_passed_on:
  assumes "p \<noteq> []" "p' \<noteq> []" and "w_auth w (trim (rq_username request)) p = w_auth w (trim (rq_username request)) p'"
  shows "install_agent w uri_ok current_exe read_file to_yaml defaults config (request\<lparr>rq_password := p\<rparr>) =
    install_agent w uri_ok current_exe read_file to_yaml defaults config (request\<lparr>rq_password := p'\<rparr>)"
proof -
  have session: "open_session w (v\<lparr>rq_password := p\<rparr>) = open_session w (v\<lparr>rq_password := p'\<rparr>)"
    if "rq_username v = trim (rq_username request)" for v
    using assms(3) that by (simp add: open_session_def split: sum.split list.split option.split)
  have arch: "check_arch w to_yaml defaults (v\<lparr>rq_password := p\<rparr>) = check_arch w to_yaml defaults (v\<lparr>rq_password := p'\<rparr>)" for v
    by (intro ext) (simp add: check_arch_def name_node_def cong: if_cong)
  have same: "install_blocking w to_yaml defaults (v\<lparr>rq_password := p\<rparr>) bytes token =
      install_blocking w to_yaml defaults (v\<lparr>rq_password := p'\<rparr>) bytes token"
    if "rq_username v = trim (rq_username request)" for v bytes token
    using that by (simp only: install_blocking_def arch [of v] session)
  show ?thesis
  proof (cases "validate uri_ok (request\<lparr>rq_password := p\<rparr>)")
    case (Inl e)
    then have "validate uri_ok (request\<lparr>rq_password := p'\<rparr>) = Inl e"
      using assms(1,2) by (auto simp: validate_def Let_def split: if_splits sum.splits)
    with Inl show ?thesis by (simp add: install_agent_def)
  next
    case (Inr v)
    then have "validate uri_ok (request\<lparr>rq_password := p'\<rparr>) = Inr (v\<lparr>rq_password := p'\<rparr>)"
        and "rq_username v = trim (rq_username request)" and "v = v\<lparr>rq_password := p\<rparr>"
      using assms(1,2) by (auto simp: validate_def Let_def split: if_splits sum.splits)
    with Inr same [of v] show ?thesis
      by (simp add: install_agent_def split: sum.split)
  qed
qed

text \<open>C20. The node that was installed is the node that reports. When the server answers that an agent was
  installed under a node identifier, the configuration it stored makes the agent, started as the script starts
  it, connect to the requested server with the server's own agent token and register under exactly that
  identifier, whatever host name or persisted identity it finds. (The YAML printer and parser are inverse.)\<close>

theorem installed_agent_is_the_reporting_node:
  assumes "install_agent w uri_ok current_exe read_file to_yaml defaults config request = (Inr r, acts)"
    and yaml: "\<And>c y. to_yaml c = Inr y \<Longrightarrow> from_yaml y = Inr c"
  shows "\<exists>home content. Stored (config_path home) content \<in> set acts \<and> last acts = Ran_script (start_script home) \<and>
    (\<forall>fs mkdir_ok hostname identity. fs (config_path home) = Some (Inr content) \<and> mkdir_ok (log_dir home) \<longrightarrow>
      (\<exists>c. load_agent_config fs from_yaml defaults' mkdir_ok
             \<lparr>cli_config = Some (config_path home), cli_config_dir = None, cli_server_addr = None, cli_node_id = None,
              cli_agent_token = None\<rparr> = Inr c \<and>
           normalize_server_addr uri_ok (rq_server_addr request) = Inr (ac_server_addr c) \<and>
           ac_agent_token c = sc_agent_token config \<and>
           resolve_node_id (ac_node_id c) hostname identity = rs_node_id r))"
proof -
  obtain valid bytes where valid: "validate uri_ok request = Inr valid"
      and run: "install_blocking w to_yaml defaults valid bytes (sc_agent_token config) = (Inr r, acts)"
    using assms by (auto simp: install_agent_def split: sum.splits)
  have addr: "normalize_server_addr uri_ok (rq_server_addr request) = Inr (rq_server_addr valid)"
    using valid by (auto simp: validate_def Let_def split: if_splits sum.splits)
  have "open_session w valid = None" using run by (auto simp: install_blocking_def split: option.splits)
  from install_blocking_installs [OF this, of to_yaml defaults bytes "sc_agent_token config"] run
  obtain home node_id content where acts: "acts = plan home bytes content" and id: "rs_node_id r = node_id"
      and stage: "stage to_yaml (agent_config_for defaults home (rq_server_addr valid) node_id (sc_agent_token config)) home content 8"
    by (auto simp: installs_def progress_def)
  let ?c = "agent_config_for defaults home (rq_server_addr valid) node_id (sc_agent_token config)"
  have c: "from_yaml content = Inr ?c" "ac_node_id ?c \<noteq> Some []" using stage yaml by (auto simp: stage_def)
  have "load_agent_config fs from_yaml defaults' mkdir_ok
             \<lparr>cli_config = Some (config_path home), cli_config_dir = None, cli_server_addr = None, cli_node_id = None,
              cli_agent_token = None\<rparr> = Inr ?c"
    if "fs (config_path home) = Some (Inr content)" "mkdir_ok (log_dir home)" for fs mkdir_ok
    using that c by (simp add: load_agent_config_def load_config_file_def required_config_file_def read_config_file_def
        apply_cli_overrides_def Let_def) (simp add: agent_config_for_def)
  moreover have "resolve_node_id (ac_node_id ?c) hostname identity = rs_node_id r" for hostname identity
    using c(2) id by (simp add: resolve_node_id_def agent_config_for_def)
  ultimately show ?thesis using addr acts
    by (intro exI [of _ home] exI [of _ content]) (auto simp: plan_def agent_config_for_def)
qed

subsection \<open>A concrete installation\<close>

definition sample_world :: world where
  "sample_world = \<lparr>w_resolve = \<lambda>_ _. Inr [''10.0.0.2''], w_connect = \<lambda>_. None, w_session = True, w_handshake = None,
     w_auth = \<lambda>user password. password \<noteq> ''wrong'', w_authenticated = True,
     w_exec = \<lambda>acts _. Exited 0 (if acts = [] then ''/home/u'' else if length acts = 1 then ''x86_64''
                               else if length acts = 2 then ''gpu1'' else ''systemd''),
     w_sftp = \<lambda>_ _. Uploaded\<rparr>"

definition sample_install :: install_request where
  "sample_install = \<lparr>rq_username = ''u'', rq_host = ''h'', rq_password = ''p'', rq_port = 22, rq_node_id = [],
     rq_server_addr = ''s:1''\<rparr>"

definition sample_installed :: agent_config where
  "sample_installed = agent_config_for (default_agent_config None None) ''/home/u'' ''http://s:1'' ''gpu1'' []"

abbreviation sample_to_yaml :: "agent_config \<Rightarrow> string + string" where
  "sample_to_yaml c \<equiv> (if c = sample_installed then Inr ''y'' else Inl ''e'')"

lemma sample_installation:
  "install_agent sample_world (\<lambda>_. True) (Inr ''/opt/clusterscope'') (\<lambda>_. Inr ''bin'') sample_to_yaml
     (default_agent_config None None) default_server_config sample_install =
   (Inr \<lparr>rs_node_id = ''gpu1'', rs_via = Systemd_user\<rparr>, plan ''/home/u'' ''bin'' ''y'')"
  by code_simp


theorem password_is_not_passed_on_witness:
  "install_agent sample_world (\<lambda>_. True) (Inr ''/opt/clusterscope'') (\<lambda>_. Inr ''bin'') sample_to_yaml
     (default_agent_config None None) default_server_config (sample_install\<lparr>rq_password := ''other''\<rparr>) =
   install_agent sample_world (\<lambda>_. True) (Inr ''/opt/clusterscope'') (\<lambda>_. Inr ''bin'') sample_to_yaml
     (default_agent_config None None) default_server_config (sample_install\<lparr>rq_password := ''secret''\<rparr>)"
  by (rule password_is_not_passed_on) (simp_all add: sample_world_def)

theorem installed_agent_is_the_reporting_node_witness:
  "\<exists>home content. Stored (config_path home) content \<in> set (plan ''/home/u'' ''bin'' ''y'')"
proof (rule exE [OF installed_agent_is_the_reporting_node [OF sample_installation, where from_yaml = "\<lambda>_. Inr sample_installed"]])
  fix c y assume "sample_to_yaml c = Inr y"
  then show "Inr sample_installed = (Inr c :: string + agent_config)" by (simp split: if_splits)
qed blast

end
