(* ===== verification/Spec2Isabelle.thy ===== *)
theory Spec2Isabelle
  imports Cluster Server_Run Web Ws_Session Schema Api_Handlers Alert_Handlers Session_Handlers Agent_Runs
    Agent_Start Agent_Sensors Installer
begin

text \<open>
  ClusterScope: a verification library of the Rust server and agent under \<open>src/crates\<close>.

  \<^bold>\<open>The program.\<close> One binary is a server or an agent. Agents run on GPU nodes: they report metrics, fetch the
  jobs of their node over gRPC and execute them as processes. The server keeps nodes, metrics, jobs, logs,
  alerts, users and the audit trail in PostgreSQL; a scheduler in its memory assigns queued jobs to nodes by
  their free GPUs; an HTTP interface with JSON Web Tokens, a WebSocket feed and a dashboard serve the users;
  background tasks expire, requeue, aggregate and prune; an installer sets up new agents over SSH. The hard
  part is that the scheduler's running set, the rows of the database, the maps of the agents and the processes
  have to stay in step while requests, ticks, reports, cancellations, restarts and failing statements
  interleave.

  \<^bold>\<open>Foundations.\<close>
  \<^item> \<open>Prelude\<close>: machine integers, instants, results, rule collections. \<open>F64\<close>: executable IEEE doubles.
    \<open>Rust_Text\<close>, \<open>Paths\<close>: the string functions of the standard library with their print/parse round trips.
    \<open>Json\<close>: \<open>serde_json\<close> values.
  \<^item> \<open>Store\<close>: the interfaces. \<open>keyed_store\<close> is the contract of in-memory maps, interpreted on sorted
    association lists; \<open>guarded_update\<close> the contract of a conditional \<open>UPDATE\<close> that falsifies its own
    condition, interpreted on eight statements of \<open>job_queries.rs\<close> and the single use of refresh tokens;
    \<open>safe_system\<close> the contract of a transition system with an inductive invariant, interpreted on every step
    relation below. \<open>Limiter\<close> adds \<open>sliding_window\<close>, \<open>Job_Rows\<close> adds \<open>table_invariant\<close>.

  \<^bold>\<open>Common crates.\<close>
  \<^item> \<open>Job\<close> (\<open>common/src/job.rs\<close>, \<open>error.rs\<close>), \<open>Alert\<close> (\<open>alert.rs\<close>), \<open>Auth\<close> (\<open>auth.rs\<close>), \<open>Registry\<close>
    (\<open>node_registry.rs\<close>), \<open>Config\<close> (\<open>config.rs\<close>, the loaders of server and agent, \<open>node_identity.rs\<close>),
    \<open>Scheduler\<close> (\<open>scheduler/src/lib.rs\<close>).

  \<^bold>\<open>Storage.\<close> A table is a list of rows, a statement a function of the table, its bound values and its \<open>NOW()\<close>.
  \<^item> \<open>Schema\<close> (\<open>storage/src/lib.rs\<close>): the statements of the migration as data, their effect on the
    catalog.
  \<^item> \<open>Job_Queries\<close> (\<open>job_queries.rs\<close>), \<open>User_Queries\<close> (\<open>user_queries.rs\<close> and the first administrator),
    \<open>Alert_Queries\<close> (\<open>alert_queries.rs\<close>, \<open>audit_queries.rs\<close>), \<open>Metrics_Store\<close> (\<open>queries.rs\<close>, \<open>conversions.rs\<close>),
    \<open>Job_Logs\<close> (the log statements and the log stream of \<open>grpc.rs\<close>), \<open>Rollups\<close> (\<open>aggregation.rs\<close>).

  \<^bold>\<open>Server.\<close> \<open>app_state\<close> of \<open>App_State\<close> is the shared \<open>AppState\<close> with the tables; a handler maps what a request
  brings (\<open>env\<close>) and the state to a reply and the new state, with one branch for each early return.
  \<^item> \<open>Middleware\<close> (\<open>auth_middleware.rs\<close>, the routes, the gRPC interceptor), \<open>Limiter\<close> (the login
    limiter), \<open>Session_Handlers\<close>, \<open>Job_Handlers\<close>, \<open>Alert_Handlers\<close>, \<open>Api_Handlers\<close> (\<open>handlers.rs\<close>), \<open>Web\<close>
    (\<open>web.rs\<close> and the merged router).
  \<^item> \<open>Ws_Manager\<close> and \<open>Ws_Session\<close> (\<open>ws_handler.rs\<close>): the client table, and one connection turn by turn.
  \<^item> \<open>Grpc_Service\<close> (\<open>grpc.rs\<close>): the calls of the agents. \<open>Background\<close> (\<open>lib.rs\<close>): restart, scheduling
    cycle, tick. \<open>Server_Run\<close> (\<open>lib.rs\<close>): the start with every early return, TLS, the end.
  \<^item> \<open>Dispatch\<close> composes these into \<open>server_step\<close>: every request, report, tick and restart. \<open>Job_Rows\<close>
    carries invariants of the job table through all of them. \<open>Installer\<close> with \<open>Shell\<close> (\<open>install.rs\<close>) sets up a
    node.

  \<^bold>\<open>Agent.\<close>
  \<^item> \<open>Agent_Runtime\<close> (\<open>job_executor.rs\<close>, \<open>grpc_client.rs\<close>): jobs as a pool of tasks over shared maps, cut
    into steps where the code takes a lock or waits; \<open>agent_step\<close> lets any task move. \<open>Agent_Runs\<close>: concrete
    runs, and the reports of a run as the server records them. \<open>Agent_Files\<close>: markers, \<open>/proc\<close>, process groups
    left behind. \<open>Agent_Output\<close>: the output of a process on its way to the log.
  \<^item> \<open>Agent_Client\<close> and \<open>Agent_Start\<close> (\<open>grpc_client.rs\<close>, \<open>lib.rs\<close>): connecting, registering, numbering,
    the order of the start. \<open>Agent_Metrics\<close>, \<open>Agent_Sensors\<close> (\<open>metrics.rs\<close>): the collector.

  \<^bold>\<open>Whole.\<close> \<open>Cluster\<close> runs \<open>server_step\<close> and \<open>agent_step\<close> together, with the messages between them outdated,
  repeated, reordered or lost.

  \<^bold>\<open>What is shown.\<close> The claims C1 to C40 stand beside their proofs.
  \<^item> Scheduling: the memory of the scheduler refines the table (C1), nodes are not over-committed (C2),
    what fits is dispatched (C4), a queued job is claimed once (C8), rows keep to the eight statuses (C32).
  \<^item> Jobs: processes run the stored commands, once (C3); reports follow the life cycle (C5), on both
    paths alike (C30); submission and stop requests on every branch (C21, C22); a run ends in the prescribed
    rows (C23).
  \<^item> Agent: one executor for each job (C10), signals only to its own groups (C7), cancellations reach the
    process (C6), markers (C25), clean-up after a crash (C26), output (C18, C27), connecting and numbering
    (C36, C17).
  \<^item> Alerts: firing exactly when held (C9), rules reach the engine (C29), resent reports and missing
    readings change nothing (C14, C24).
  \<^item> Accounts: login (C13, C33, C39), tokens (C12, C31), the last administrator (C11), the access matrix
    (C34).
  \<^item> Interfaces: listeners never fall back to plain (C15), WebSocket delivery and bounds (C16, C40), the
    hourly rollup (C35), the installer (C19, C20, C28, C38), the output of \<open>nvidia-smi\<close> (C37).
  Each is proved from an invariant or a functional lemma of its component. Lemmas without a claim number record
  what the code does not do although it means to: \<open>long_running_stop_is_lost\<close>,
  \<open>dropped_clients_shut_address_out\<close>, \<open>early_end_blocks_job\<close>, \<open>second_run_log_dropped\<close>, \<open>tls_login_fails\<close>,
  \<open>daily_rollup_fails\<close> and others.

  \<^bold>\<open>Conventions.\<close>
  \<^item> An instant counts nanoseconds. Integers are words where their width matters (GPU sums, counters,
    sequence numbers, ports), and mathematical integers where the code cannot leave the range.
  \<^item> Every function is total: loops recurse on their data or on a measure (\<open>register_loop\<close>: attempts
    left; \<open>stream_lines\<close>: bytes left in the reader), so there is no fuel. The one loop that may not end,
    \<open>connect_loop\<close>, is \<open>partial_function\<close>; C36 says when it returns.
  \<^item> Errors are values: \<open>reply\<close> with the status code, \<open>Panics\<close> for a panic, a sum where the code returns
    \<open>Result\<close>.
  \<^item> Hash maps are iterated in the order of their keys. No claim depends on it.
  \<^item> Statements may fail at any point (\<open>e_fault\<close>); a request sees one reading of the clock. What other
    requests do between two statements of one request is covered by the claims on single statements (C8, C11,
    C12).
  \<^item> Third-party code is a parameter: password hashing and tokens (\<open>crypto\<close>, with \<open>crypto_sound\<close> for what
    is relied on), SHA-256, identifiers, YAML and JSON text, the PEM parser, NVML, \<open>sysinfo\<close>, \<open>nvidia-smi\<close>, the
    SSH library and everything a remote node answers, the aggregates of PostgreSQL. Witnesses instantiate them.

  \<^bold>\<open>Not modelled.\<close>
  \<^item> Sockets, TLS handshakes, HTTP/2 and the async runtime: their results are events or arguments.
  \<^item> \<open>protocol/src/lib.rs\<close> re-exports code that the build generates; its messages are records here.
    \<open>clusterscope/src/main.rs\<close> is command line parsing by a library. The contents of the web assets, the
    Prometheus text encoder, log output.
  \<^item> Structures of \<open>common/src/metrics.rs\<close> that no code uses; the shutdown of the agent, which aborts its
    loops; the lookup of user names in the C library and the monotonic clock, whose answers are arguments of
    the collector.
\<close>

end
